(* ===== verification/Proxy_Prelude.thy ===== *)
theory Proxy_Prelude
  imports Main "HOL-Library.Word" "HOL-Library.Signed_Division" "HOL-Library.Char_ord"
    "HOL-Library.List_Lexorder" "HOL-Library.Sublist"
begin

text \<open>
  What every component shares: the fixed-width integer types of the C++ code, the operations of
  \<^verbatim>\<open>std::string\<close> and \<^verbatim>\<open>std::set\<close> the sources call, number formatting and parsing, the sum
  type of fallible operations, and the generic transition-system vocabulary (reachability and
  its invariant rule) that the runtime's state machines use.
\<close>

named_theorems i64_simps \<open>signed 64-bit arithmetic read back as integers\<close>
named_theorems json_simps \<open>field access of JSON values\<close>
named_theorems reader_simps \<open>evaluation of the configuration readers\<close>
named_theorems rt_defs \<open>the runtime's state-passing operations, unfolded\<close>

section \<open>Fixed-width integers\<close>

text \<open>\<^verbatim>\<open>int64_t\<close> and \<^verbatim>\<open>uint64_t\<close> are both 64-bit words; \<^term>\<open>sint\<close> reads the first, \<^term>\<open>unat\<close> the second.\<close>

type_synonym i64 = "64 word"
type_synonym u64 = "64 word"
type_synonym u32 = "32 word"
type_synonym u16 = "16 word"

definition fits_i64 :: "int \<Rightarrow> bool" where
  "fits_i64 x \<longleftrightarrow> - (2 ^ 63) \<le> x \<and> x < 2 ^ 63"

definition i64_min :: "i64 \<Rightarrow> i64 \<Rightarrow> i64" where
  "i64_min a b = (if sint b < sint a then b else a)"

definition i64_max :: "i64 \<Rightarrow> i64 \<Rightarrow> i64" where
  "i64_max a b = (if sint a < sint b then b else a)"

lemma sint_i64_range: "- (2 ^ 63) \<le> sint (x :: i64)" "sint (x :: i64) < 2 ^ 63"
  using sint_range_size [of x] by (simp_all add: word_size)

lemma fits_sint [simp, intro]: "fits_i64 (sint (x :: i64))"
  using sint_i64_range [of x] by (simp add: fits_i64_def)

lemma sint_of_int_i64 [i64_simps]: "fits_i64 x \<Longrightarrow> sint (word_of_int x :: i64) = x"
  by (simp add: fits_i64_def sint_sbintrunc' signed_take_bit_int_eq_self)

lemma sint_of_nat_i64: "n < 2 ^ 63 \<Longrightarrow> sint (word_of_nat n :: i64) = int n"
  using sint_of_int_i64 [of "int n"] by (simp add: fits_i64_def)

lemma sint_diff_i64 [i64_simps]:
  "fits_i64 (sint a - sint b) \<Longrightarrow> sint (a - b :: i64) = sint a - sint b"
  using sint_of_int_i64 [of "sint a - sint b"] by simp

lemma sint_add_i64 [i64_simps]:
  "fits_i64 (sint a + sint b) \<Longrightarrow> sint (a + b :: i64) = sint a + sint b"
  using sint_of_int_i64 [of "sint a + sint b"] by simp

lemma sint_i64_min [simp]: "sint (i64_min a b) = min (sint a) (sint b)"
  by (simp add: i64_min_def)

lemma sint_i64_max [simp]: "sint (i64_max a b) = max (sint a) (sint b)"
  by (simp add: i64_max_def)

text \<open>
  C++ integer division truncates towards zero. Its two undefined cases are a zero divisor and
  the single overflowing quotient; the sources exclude the first by a guard.
\<close>

definition i64_div :: "i64 \<Rightarrow> i64 \<Rightarrow> i64" where
  "i64_div a b = word_of_int (sint a sdiv sint b)"

lemma fits_sdiv_pos:
  assumes "fits_i64 x" "0 < y"
  shows "fits_i64 (x sdiv y)"
proof -
  have "\<bar>x\<bar> div y \<le> \<bar>x\<bar>" "0 \<le> \<bar>x\<bar> div y"
    using assms by (simp_all add: pos_imp_zdiv_nonneg_iff) (cases "y = 1"; use int_div_less_self [of "\<bar>x\<bar>" y] in fastforce)
  then show ?thesis
    using assms by (auto simp: fits_i64_def signed_divide_int_def sgn_if)
qed

lemma sint_i64_div [i64_simps]: "0 < sint b \<Longrightarrow> sint (i64_div a b) = sint a sdiv sint b"
  by (simp add: i64_div_def i64_simps fits_sdiv_pos)

lemma sdiv_nonneg: "0 \<le> (x::int) \<Longrightarrow> 0 < y \<Longrightarrow> x sdiv y = x div y"
  by (auto simp: signed_divide_int_def sgn_if)

lemma sdiv_neg_le_0: "(x::int) \<le> 0 \<Longrightarrow> 0 < y \<Longrightarrow> x sdiv y \<le> 0"
  by (auto simp: signed_divide_int_def sgn_if pos_imp_zdiv_nonneg_iff)

section \<open>Lists\<close>

lemma int_length_remove1: "x \<in> set xs \<Longrightarrow> int (length (remove1 x xs)) = int (length xs) - 1"
  by (cases xs) (simp_all add: length_remove1 del: remove1.simps)

lemma in_set_remove1D: "x \<in> set (remove1 y xs) \<Longrightarrow> x \<in> set xs"
  using set_remove1_subset by fastforce

text \<open>How updating one element changes a count.\<close>

lemma length_filter_update:
  "c < length xs \<Longrightarrow> int (length (filter P (xs[c := x]))) =
    int (length (filter P xs)) - (if P (xs ! c) then 1 else 0) + (if P x then 1 else 0)"
proof (induction xs arbitrary: c)
  case (Cons y ys)
  show ?case
  proof (cases c)
    case (Suc d)
    with Cons.prems Cons.IH [of d] show ?thesis by (cases "P y") auto
  qed auto
qed simp

section \<open>Strings\<close>

text \<open>
  \<^verbatim>\<open>std::string\<close> is a list of bytes. \<^verbatim>\<open>s.rfind(p, 0) == 0\<close> is \<^term>\<open>prefix p s\<close>;
  \<^verbatim>\<open>s.find(p)\<close> is \<open>find_str p s\<close>, with \<^verbatim>\<open>npos\<close> as \<^term>\<open>None\<close>; \<^verbatim>\<open>substr\<close> is
  \<^term>\<open>take\<close> and \<^term>\<open>drop\<close>.
\<close>

fun find_str :: "string \<Rightarrow> string \<Rightarrow> nat option" where
  "find_str p [] = (if p = [] then Some 0 else None)"
| "find_str p (c # cs) = (if prefix p (c # cs) then Some 0 else map_option Suc (find_str p cs))"

abbreviation find_char :: "char \<Rightarrow> string \<Rightarrow> nat option" where
  "find_char c s \<equiv> find_str [c] s"

lemma find_str_Some_decomp:
  "find_str p s = Some n \<Longrightarrow> \<exists>rest. s = take n s @ p @ rest \<and> n \<le> length s"
  by (induction s arbitrary: n) (auto simp: prefix_def split: if_splits)

lemma find_char_None: "find_char c s = None \<longleftrightarrow> c \<notin> set s"
  by (induction s) auto

lemma find_char_append:
  "c \<notin> set xs \<Longrightarrow> find_char c (xs @ c # ys) = Some (length xs)"
  by (induction xs) auto

lemma find_char_append_notin:
  "c \<notin> set xs \<Longrightarrow> find_char c (xs @ ys) = map_option (\<lambda>n. length xs + n) (find_char c ys)"
  by (induction xs) (cases "find_char c ys"; simp)+

lemma find_char_Some_notin: "find_char c s = Some n \<Longrightarrow> c \<notin> set (take n s)"
  by (induction s arbitrary: n) (auto split: if_splits)

text \<open>
  The loop \<^verbatim>\<open>while (std::getline(ss, item, sep))\<close>: items between separators; nothing is
  delivered after a final separator.
\<close>

function getlines :: "char \<Rightarrow> string \<Rightarrow> string list" where
  "getlines c s =
     (if s = [] then []
      else takeWhile (\<lambda>x. x \<noteq> c) s #
        (case dropWhile (\<lambda>x. x \<noteq> c) s of [] \<Rightarrow> [] | _ # r \<Rightarrow> getlines c r))"
  by pat_completeness auto
termination
  by (relation "measure (\<lambda>(c, s). length s)")
     (auto, metis length_Cons length_dropWhile_le not_less_eq_eq linorder_not_le)

declare getlines.simps [simp del]

lemma getlines_Nil [simp]: "getlines c [] = []"
  by (simp add: getlines.simps)

lemma getlines_single: "c \<notin> set x \<Longrightarrow> x \<noteq> [] \<Longrightarrow> getlines c x = [x]"
proof -
  assume "c \<notin> set x" "x \<noteq> []"
  then have "takeWhile (\<lambda>y. y \<noteq> c) x = x" "dropWhile (\<lambda>y. y \<noteq> c) x = []"
    by (auto simp: takeWhile_eq_all_conv dropWhile_eq_Nil_conv)
  with \<open>x \<noteq> []\<close> show ?thesis by (subst getlines.simps) (simp only:, simp)
qed

lemma getlines_sep: "c \<notin> set x \<Longrightarrow> getlines c (x @ c # r) = x # getlines c r"
proof -
  assume "c \<notin> set x"
  then have "takeWhile (\<lambda>y. y \<noteq> c) (x @ c # r) = x" "dropWhile (\<lambda>y. y \<noteq> c) (x @ c # r) = c # r"
    by (induction x) auto
  then show ?thesis by (simp add: getlines.simps [of c "x @ c # r"])
qed

text \<open>
  \<^verbatim>\<open>std::set<std::string>\<close>: ascending, without duplicates. The separator loop of \<^verbatim>\<open>join\<close> and
  \<^verbatim>\<open>joinCsv\<close> writes a separator only once something has been written.
\<close>

fun set_put :: "string \<Rightarrow> string list \<Rightarrow> string list" where
  "set_put x [] = [x]"
| "set_put x (y # ys) = (if x = y then y # ys else if x < y then x # y # ys else y # set_put x ys)"

definition string_set :: "string list \<Rightarrow> string list" where
  "string_set xs = foldl (\<lambda>acc x. set_put x acc) [] xs"

definition join_with :: "string \<Rightarrow> string list \<Rightarrow> string" where
  "join_with sep xs = foldl (\<lambda>out v. (if out = [] then [] else out @ sep) @ v) [] xs"

lemma set_set_put [simp]: "set (set_put x ys) = insert x (set ys)"
  by (induction ys) auto

lemma set_string_set [simp]: "set (string_set xs) = set xs"
proof -
  have "set (foldl (\<lambda>acc x. set_put x acc) ys xs) = set ys \<union> set xs" for ys
    by (induction xs arbitrary: ys) auto
  from this [of "[]"] show ?thesis by (simp add: string_set_def)
qed

text \<open>A joined list of non-empty items without the separator splits back into the items.\<close>

lemma join_with_Cons:
  assumes "x \<noteq> []" "\<forall>y \<in> set xs. y \<noteq> []"
  shows "join_with sep (x # xs) = x @ concat (map (\<lambda>y. sep @ y) xs)"
proof -
  have "foldl (\<lambda>out v. (if out = [] then [] else out @ sep) @ v) a ys
      = a @ concat (map (\<lambda>y. sep @ y) ys)" if "a \<noteq> []" for a ys
    using that by (induction ys arbitrary: a) auto
  then show ?thesis using assms by (simp add: join_with_def)
qed

lemma getlines_join:
  assumes "\<forall>x \<in> set xs. x \<noteq> [] \<and> c \<notin> set x"
  shows "getlines c (join_with [c] xs) = xs"
proof (cases xs)
  case Nil
  then show ?thesis by (simp add: join_with_def)
next
  case (Cons x ys)
  have "x \<noteq> [] \<Longrightarrow> c \<notin> set x \<Longrightarrow> \<forall>y \<in> set ys. y \<noteq> [] \<and> c \<notin> set y \<Longrightarrow>
      getlines c (x @ concat (map (\<lambda>y. [c] @ y) ys)) = x # ys"
    by (induction ys arbitrary: x) (simp_all add: getlines_single getlines_sep)
  then show ?thesis using assms Cons by (simp add: join_with_Cons)
qed

text \<open>A field name between quotation marks, as the error texts show it.\<close>

definition quoted :: "string \<Rightarrow> string" where
  "quoted k = CHR 0x27 # k @ [CHR 0x27]"

text \<open>The dash of the messages, as the three bytes of its UTF-8 form.\<close>

definition em_dash :: string where
  "em_dash = [CHR 0xE2, CHR 0x80, CHR 0x94]"

section \<open>Numbers as text\<close>

definition digit_char :: "nat \<Rightarrow> char" where
  "digit_char d = (if d < 10 then char_of (48 + d) else char_of (87 + d))"

text \<open>Digits of \<open>n\<close> in base \<open>b + 2\<close>, most significant first: the output of the stream formatters.\<close>

fun digits_in :: "nat \<Rightarrow> nat \<Rightarrow> string" where
  "digits_in b n =
     (if n < b + 2 then [digit_char n] else digits_in b (n div (b + 2)) @ [digit_char (n mod (b + 2))])"

declare digits_in.simps [simp del]

definition to_string :: "int \<Rightarrow> string" where
  "to_string x = (if x < 0 then CHR ''-'' # digits_in 8 (nat (- x)) else digits_in 8 (nat x))"

definition hex_of_nat :: "nat \<Rightarrow> string" where
  "hex_of_nat n = digits_in 14 n"

definition isHex :: "char \<Rightarrow> bool" where
  "isHex c = (let n = of_char c :: nat
              in (48 \<le> n \<and> n \<le> 57) \<or> (97 \<le> n \<and> n \<le> 102) \<or> (65 \<le> n \<and> n \<le> 70))"

definition hex_val :: "char \<Rightarrow> nat" where
  "hex_val c = (let n = of_char c :: nat
                in if n \<le> 57 then n - 48 else if 97 \<le> n then n - 87 else n - 55)"

definition nat_of_hex :: "string \<Rightarrow> nat" where
  "nat_of_hex s = foldl (\<lambda>acc c. 16 * acc + hex_val c) 0 s"

lemma of_char_digit: "d < 16 \<Longrightarrow> (of_char (digit_char d) :: nat) = (if d < 10 then 48 + d else 87 + d)"
  by (simp add: digit_char_def of_char_of)

lemma isHex_digit [simp]: "d < 16 \<Longrightarrow> isHex (digit_char d)"
  by (auto simp: isHex_def of_char_digit Let_def)

lemma hex_val_digit [simp]: "d < 16 \<Longrightarrow> hex_val (digit_char d) = d"
  by (auto simp: hex_val_def of_char_digit Let_def)

lemma digits_in_nonempty [simp]: "digits_in b n \<noteq> []"
  by (subst digits_in.simps) simp

lemma hex_of_nat_isHex: "\<forall>c \<in> set (hex_of_nat n). isHex c"
proof -
  have "\<forall>c \<in> set (digits_in b n). isHex c" if "b = 14" for b
    using that
    by (induction b n rule: digits_in.induct) (subst digits_in.simps, auto)
  then show ?thesis by (simp add: hex_of_nat_def)
qed

lemma nat_of_hex_of_nat [simp]: "nat_of_hex (hex_of_nat n) = n"
proof -
  have "nat_of_hex (digits_in b n) = n" if "b = 14" for b
    using that
    by (induction b n rule: digits_in.induct)
       (subst digits_in.simps, auto simp: nat_of_hex_def)
  then show ?thesis by (simp add: hex_of_nat_def)
qed

section \<open>Fallible operations\<close>

text \<open>
  A C++ function that returns \<^verbatim>\<open>false\<close> and fills \<^verbatim>\<open>err\<close> is a value of \<open>string + 'a\<close>; its
  callers' \<^verbatim>\<open>if (!f(...)) return false\<close> is \<open>bind_res\<close>. A body that is a sequence of such
  statements over one output object is a list of steps run by \<open>run_steps\<close>.
\<close>

type_synonym 'a res = "string + 'a"

fun bind_res :: "('e + 'a) \<Rightarrow> ('a \<Rightarrow> 'e + 'b) \<Rightarrow> 'e + 'b" where
  "bind_res (Inl e) f = Inl e"
| "bind_res (Inr a) f = f a"

fun map_res :: "('a \<Rightarrow> 'b) \<Rightarrow> ('e + 'a) \<Rightarrow> 'e + 'b" where
  "map_res f (Inl e) = Inl e"
| "map_res f (Inr a) = Inr (f a)"

fun run_steps :: "('a \<Rightarrow> 'e + 'a) list \<Rightarrow> 'a \<Rightarrow> 'e + 'a" where
  "run_steps [] a = Inr a"
| "run_steps (f # fs) a = bind_res (f a) (run_steps fs)"

lemma bind_res_Inr: "bind_res m f = Inr b \<longleftrightarrow> (\<exists>a. m = Inr a \<and> f a = Inr b)"
  by (cases m) auto

lemma map_res_Inr: "map_res f m = Inr b \<longleftrightarrow> (\<exists>a. m = Inr a \<and> f a = b)"
  by (cases m) auto

lemma run_steps_append: "run_steps (fs @ gs) a = bind_res (run_steps fs a) (run_steps gs)"
  by (induction fs arbitrary: a) (auto split: sum.splits, metis bind_res.simps sum.exhaust)

lemma run_steps_invariant:
  assumes "run_steps fs a = Inr b" "P a" "\<And>f x y. f \<in> set fs \<Longrightarrow> P x \<Longrightarrow> f x = Inr y \<Longrightarrow> P y"
  shows "P b"
  using assms by (induction fs arbitrary: a) (auto simp: bind_res_Inr)

section \<open>Transition systems\<close>

inductive reach :: "('s \<Rightarrow> bool) \<Rightarrow> ('s \<Rightarrow> 'e \<Rightarrow> 's \<Rightarrow> bool) \<Rightarrow> 's \<Rightarrow> bool"
  for init step where
  reach_init: "init s \<Longrightarrow> reach init step s"
| reach_step: "reach init step s \<Longrightarrow> step s e t \<Longrightarrow> reach init step t"

text \<open>The contract of an inductive invariant; every invariant of a state machine is an interpretation.\<close>

locale run_invariant =
  fixes init :: "'s \<Rightarrow> bool" and step :: "'s \<Rightarrow> 'e \<Rightarrow> 's \<Rightarrow> bool" and inv :: "'s \<Rightarrow> bool"
  assumes inv_init: "init s \<Longrightarrow> inv s"
    and inv_step: "inv s \<Longrightarrow> step s e t \<Longrightarrow> inv t"
begin

lemma reach_inv: "reach init step s \<Longrightarrow> inv s"
  by (induction rule: reach.induct) (auto intro: inv_init inv_step)

end

end
