(* ===== verification/Json_Value.thy ===== *)
theory Json_Value
  imports Proxy_Prelude
begin

text \<open>
  The JSON values the sources pass around (\<^verbatim>\<open>nlohmann::json\<close>, of which \<^verbatim>\<open>LogosMap\<close> and
  \<^verbatim>\<open>LogosList\<close> are other names) and the documented accessors they use. The library's parser and
  printer are never defined here: every operation that parses or prints takes \<open>parse\<close> or
  \<open>dump\<close> as an argument. An object is kept as \<^verbatim>\<open>std::map\<close> keeps it, an association list
  ascending in the key. A number carries its 64 bits and the tag that tells a signed, an unsigned
  and a floating value apart.
\<close>

section \<open>Values and type tests\<close>

datatype json =
    JNull
  | JBool bool
  | JInt i64
  | JUInt u64
  | JFloat "64 word"
  | JStr string
  | JArr "json list"
  | JObj "(string \<times> json) list"

fun is_object :: "json \<Rightarrow> bool" where
  "is_object (JObj _) = True"
| "is_object _ = False"

fun is_array :: "json \<Rightarrow> bool" where
  "is_array (JArr _) = True"
| "is_array _ = False"

fun is_string :: "json \<Rightarrow> bool" where
  "is_string (JStr _) = True"
| "is_string _ = False"

fun is_null :: "json \<Rightarrow> bool" where
  "is_null JNull = True"
| "is_null _ = False"

lemma is_object_iff: "is_object j \<longleftrightarrow> (\<exists>kvs. j = JObj kvs)"
  by (cases j) auto

lemma is_array_iff: "is_array j \<longleftrightarrow> (\<exists>xs. j = JArr xs)"
  by (cases j) auto

lemma is_string_iff: "is_string j \<longleftrightarrow> (\<exists>s. j = JStr s)"
  by (cases j) auto

lemma is_null_iff: "is_null j \<longleftrightarrow> j = JNull"
  by (cases j) auto

section \<open>Objects\<close>

text \<open>\<^verbatim>\<open>std::map::insert_or_assign\<close> on an ascending association list.\<close>

fun map_put :: "string \<Rightarrow> 'v \<Rightarrow> (string \<times> 'v) list \<Rightarrow> (string \<times> 'v) list" where
  "map_put k v [] = [(k, v)]"
| "map_put k v ((k', v') # kvs) =
     (if k = k' then (k, v) # kvs
      else if k < k' then (k, v) # (k', v') # kvs
      else (k', v') # map_put k v kvs)"

lemma map_of_map_put [json_simps, simp]: "map_of (map_put k v kvs) = (map_of kvs)(k \<mapsto> v)"
  by (induction k v kvs rule: map_put.induct) auto

lemma map_put_keys: "fst ` set (map_put k v kvs) = insert k (fst ` set kvs)"
  by (induction k v kvs rule: map_put.induct) auto

lemma sorted_map_put:
  "sorted_wrt (<) (map fst kvs) \<Longrightarrow> sorted_wrt (<) (map fst (map_put k v kvs))"
proof (induction k v kvs rule: map_put.induct)
  case (2 k v k' v' kvs)
  have tail: "\<forall>x \<in> fst ` set kvs. k' < x" and kvs: "sorted_wrt (<) (map fst kvs)"
    using 2(2) by auto
  consider "k = k'" | "k < k'" | "k' < k" by (rule linorder_cases)
  then show ?case
  proof cases
    case 1
    with tail kvs show ?thesis by auto
  next
    case 2
    moreover have "\<forall>x \<in> fst ` set kvs. k < x"
      using tail \<open>k < k'\<close> by (meson less_trans)
    ultimately show ?thesis using tail kvs by auto
  next
    case 3
    then have "k \<noteq> k'" "\<not> k < k'" by auto
    moreover have "\<forall>x \<in> fst ` set (map_put k v kvs). k' < x"
      using tail 3 by (simp add: map_put_keys)
    ultimately show ?thesis using "2.IH" kvs by simp
  qed
qed simp

definition jobj :: "(string \<times> json) list \<Rightarrow> json" where
  "jobj kvs = JObj (foldl (\<lambda>acc (k, v). map_put k v acc) [] kvs)"

text \<open>\<^verbatim>\<open>contains\<close> and \<^verbatim>\<open>operator[]\<close> in one: the field's value, if the value is an object that has it.\<close>

fun jfield :: "json \<Rightarrow> string \<Rightarrow> json option" where
  "jfield (JObj kvs) k = map_of kvs k"
| "jfield _ k = None"

definition contains :: "json \<Rightarrow> string \<Rightarrow> bool" where
  "contains j k \<longleftrightarrow> jfield j k \<noteq> None"

text \<open>\<^verbatim>\<open>j[k] = v\<close>: a null value becomes an object first.\<close>

fun jput :: "json \<Rightarrow> string \<Rightarrow> json \<Rightarrow> json" where
  "jput (JObj kvs) k v = JObj (map_put k v kvs)"
| "jput JNull k v = JObj [(k, v)]"
| "jput j k v = j"

lemma foldl_map_put:
  "map_of (foldl (\<lambda>acc (k, v). map_put k v acc) m kvs) = map_of m ++ map_of (rev kvs)"
  by (induction kvs arbitrary: m) (auto simp: fun_eq_iff map_add_def split: option.splits)

lemma jfield_jobj [json_simps]: "jfield (jobj kvs) k = map_of (rev kvs) k"
  by (simp add: jobj_def foldl_map_put)

lemma is_object_jobj [simp]: "is_object (jobj kvs)"
  by (simp add: jobj_def)

lemma sorted_jobj: "jobj kvs = JObj m \<Longrightarrow> sorted_wrt (<) (map fst m)"
proof -
  have "sorted_wrt (<) (map fst m') \<Longrightarrow>
    sorted_wrt (<) (map fst (foldl (\<lambda>acc (k, v). map_put k v acc) m' kvs))" for m'
    by (induction kvs arbitrary: m') (auto intro: sorted_map_put)
  from this [of "[]"] show "jobj kvs = JObj m \<Longrightarrow> ?thesis"
    by (simp add: jobj_def)
qed

lemma jfield_jput [json_simps]:
  "is_object j \<Longrightarrow> jfield (jput j k v) k' = (if k = k' then Some v else jfield j k')"
  by (cases j) auto

lemma is_object_jput [simp]: "is_object j \<Longrightarrow> is_object (jput j k v)"
  by (cases j) auto

section \<open>Numbers, arrays and defaulted lookups\<close>

fun is_number_integer :: "json \<Rightarrow> bool" where
  "is_number_integer (JInt _) = True"
| "is_number_integer (JUInt _) = True"
| "is_number_integer _ = False"

text \<open>\<^verbatim>\<open>get<int64_t>()\<close> of an integer: an unsigned value above the signed range keeps its bits.\<close>

fun get_int64 :: "json \<Rightarrow> i64" where
  "get_int64 (JInt w) = w"
| "get_int64 (JUInt w) = w"
| "get_int64 _ = 0"

fun jsize :: "json \<Rightarrow> nat" where
  "jsize JNull = 0"
| "jsize (JArr xs) = length xs"
| "jsize (JObj kvs) = length kvs"
| "jsize _ = 1"

text \<open>What a range-based \<^verbatim>\<open>for\<close> visits: elements, member values, or the value itself.\<close>

fun jitems :: "json \<Rightarrow> json list" where
  "jitems JNull = []"
| "jitems (JArr xs) = xs"
| "jitems (JObj kvs) = map snd kvs"
| "jitems j = [j]"

text \<open>
  \<^verbatim>\<open>value(key, default)\<close> throws when the key is present with another type; the exception is a
  value, so that its propagation is a branch of the model.
\<close>

datatype exn = TypeError

definition value_json :: "json \<Rightarrow> string \<Rightarrow> json \<Rightarrow> json" where
  "value_json j k d = (case jfield j k of None \<Rightarrow> d | Some v \<Rightarrow> v)"

definition value_bool :: "json \<Rightarrow> string \<Rightarrow> bool \<Rightarrow> exn + bool" where
  "value_bool j k d =
     (case jfield j k of None \<Rightarrow> Inr d | Some (JBool b) \<Rightarrow> Inr b | Some _ \<Rightarrow> Inl TypeError)"

definition value_string :: "json \<Rightarrow> string \<Rightarrow> string \<Rightarrow> exn + string" where
  "value_string j k d =
     (case jfield j k of None \<Rightarrow> Inr d | Some (JStr s) \<Rightarrow> Inr s | Some _ \<Rightarrow> Inl TypeError)"

section \<open>Results\<close>

text \<open>\<^verbatim>\<open>StdLogosResult\<close>: a flag, a value and an error text.\<close>

record StdLogosResult =
  success :: bool
  result_value :: json
  result_error :: string

definition fail_result :: "string \<Rightarrow> StdLogosResult" where
  "fail_result e = \<lparr>success = False, result_value = JNull, result_error = e\<rparr>"

definition ok_result :: "json \<Rightarrow> StdLogosResult" where
  "ok_result v = \<lparr>success = True, result_value = v, result_error = []\<rparr>"

lemma fail_result_simps [simp]:
  "\<not> success (fail_result e)" "result_value (fail_result e) = JNull" "result_error (fail_result e) = e"
  by (simp_all add: fail_result_def)

lemma ok_result_simps [simp]:
  "success (ok_result v)" "result_value (ok_result v) = v" "result_error (ok_result v) = []"
  by (simp_all add: ok_result_def)

end
