(* ===== verification/Network_Table.thy ===== *)
theory Network_Table
  imports Json_Value
begin

text \<open>
  The tables at the head of \<^verbatim>\<open>src/proxy_config.cpp\<close> and the pure functions around them: network
  profiles, the whitelists, the migration of a retired default, and the redaction of provider
  URLs.
\<close>

section \<open>Network profiles\<close>

record NetworkProfile =
  np_name :: string
  np_chainId :: i64
  np_beaconApiUrl :: string
  np_executionApiUrl :: string

definition networkProfiles :: "NetworkProfile list" where
  "networkProfiles =
    [\<lparr>np_name = ''mainnet'', np_chainId = 1,
      np_beaconApiUrl = ''https://lodestar-mainnet.chainsafe.io'',
      np_executionApiUrl = ''https://eth.drpc.org''\<rparr>,
     \<lparr>np_name = ''sepolia'', np_chainId = 11155111,
      np_beaconApiUrl = ''https://lodestar-sepolia.chainsafe.io'',
      np_executionApiUrl = ''https://rpc.sepolia.ethpandaops.io''\<rparr>,
     \<lparr>np_name = ''hoodi'', np_chainId = 560048,
      np_beaconApiUrl = ''https://lodestar-hoodi.chainsafe.io'',
      np_executionApiUrl = ''https://hoodi.drpc.org''\<rparr>]"

definition networkProfile :: "string \<Rightarrow> NetworkProfile option" where
  "networkProfile name = find (\<lambda>p. np_name p = name) networkProfiles"

section \<open>Whitelists\<close>

definition kNetworks :: "string list" where
  "kNetworks = string_set (map np_name networkProfiles)"

definition kLogLevels :: "string list" where
  "kLogLevels = string_set [''TRACE'', ''DEBUG'', ''INFO'', ''NOTICE'', ''WARN'', ''ERROR'', ''FATAL'', ''NONE'']"

definition kLogFormats :: "string list" where
  "kLogFormats = string_set [''Colors'', ''NoColors'', ''Json'', ''Auto'', ''None'']"

definition kBeaconSources :: "string list" where
  "kBeaconSources = string_set [''module'', ''urls'']"

definition kKeepAliveModes :: "string list" where
  "kKeepAliveModes = string_set [''off'', ''interval'', ''continuous'']"

lemma set_kNetworks: "set kNetworks = {''mainnet'', ''sepolia'', ''hoodi''}"
  by (simp add: kNetworks_def networkProfiles_def)

lemma set_kLogLevels:
  "set kLogLevels = {''TRACE'', ''DEBUG'', ''INFO'', ''NOTICE'', ''WARN'', ''ERROR'', ''FATAL'', ''NONE''}"
  by (simp add: kLogLevels_def)

lemma set_kLogFormats: "set kLogFormats = {''Colors'', ''NoColors'', ''Json'', ''Auto'', ''None''}"
  by (simp add: kLogFormats_def)

lemma set_kBeaconSources: "set kBeaconSources = {''module'', ''urls''}"
  by (simp add: kBeaconSources_def)

lemma set_kKeepAliveModes: "set kKeepAliveModes = {''off'', ''interval'', ''continuous''}"
  by (simp add: kKeepAliveModes_def)

lemmas whitelist_sets =
  set_kNetworks set_kLogLevels set_kLogFormats set_kBeaconSources set_kKeepAliveModes

text \<open>The whitelist is the domain of the table.\<close>

lemma kNetworks_iff: "n \<in> set kNetworks \<longleftrightarrow> (\<exists>p. networkProfile n = Some p)"
  by (auto simp: kNetworks_def networkProfiles_def networkProfile_def)

lemma networkProfile_Some:
  "networkProfile n = Some p \<Longrightarrow> p \<in> set networkProfiles \<and> np_name p = n"
  by (auto simp: networkProfile_def find_Some_iff)

section \<open>Migration of a retired default\<close>

definition retired :: "(string \<times> string) list" where
  "retired = [(''sepolia'', ''https://ethereum-sepolia-rpc.publicnode.com'')]"

text \<open>The execution URL a persisted object names when it names exactly one; empty otherwise.\<close>

fun only_url :: "json \<Rightarrow> string" where
  "only_url (JStr s) = s"
| "only_url (JArr [JStr s]) = s"
| "only_url _ = []"

fun migrate_scan :: "(string \<times> string) list \<Rightarrow> string \<Rightarrow> string \<Rightarrow> string option" where
  "migrate_scan [] nw only = None"
| "migrate_scan ((net, url) # rest) nw only =
     (case networkProfile net of
        None \<Rightarrow> migrate_scan rest nw only
      | Some p \<Rightarrow>
          if net \<noteq> nw \<or> url \<noteq> only \<or> np_executionApiUrl p = [] then migrate_scan rest nw only
          else Some (np_executionApiUrl p))"

text \<open>The new value of \<^verbatim>\<open>persisted\<close> and the flag; an exception when \<^verbatim>\<open>network\<close> is not a string.\<close>

definition migrateRetiredDefaults :: "json \<Rightarrow> exn + json \<times> bool" where
  "migrateRetiredDefaults persisted =
     (case jfield persisted ''executionApiUrls'' of
        None \<Rightarrow> Inr (persisted, False)
      | Some urls \<Rightarrow>
          bind_res (value_string persisted ''network'' []) (\<lambda>nw.
            case migrate_scan retired nw (only_url urls) of
              None \<Rightarrow> Inr (persisted, False)
            | Some url \<Rightarrow> Inr (jput persisted ''executionApiUrls'' (JArr [JStr url]), True)))"

section \<open>Redaction\<close>

definition redactUrl :: "string \<Rightarrow> string" where
  "redactUrl url =
     (case find_str ''://'' url of
        None \<Rightarrow> ''<redacted>''
      | Some schemeEnd \<Rightarrow>
          let scheme = take (schemeEnd + 3) url;
              rest0 = drop (schemeEnd + 3) url;
              rest1 = (case find_char CHR ''@'' rest0 of None \<Rightarrow> rest0 | Some a \<Rightarrow> drop (a + 1) rest0);
              rest2 = (case find_char CHR ''?'' rest1 of None \<Rightarrow> rest1
                       | Some q \<Rightarrow> take q rest1 @ ''?<redacted>'')
          in case find_char CHR ''/'' rest2 of
               None \<Rightarrow> scheme @ rest2
             | Some slash \<Rightarrow> scheme @ take slash rest2 @ ''/<redacted>'')"

definition redactedUrls :: "string list \<Rightarrow> json" where
  "redactedUrls urls = JArr (map (\<lambda>u. JStr (redactUrl u)) urls)"

end
