(* ===== verification/Config_Readers.thy ===== *)
theory Config_Readers
  imports Network_Table
begin

text \<open>
  The field readers and URL checks in the anonymous namespace of \<^verbatim>\<open>src/proxy_config.cpp\<close>, and the
  contract they share: an absent or null field keeps the value the output already has, an encoded
  value reads back, nothing but a good value is stored, and a rejection names the field.
\<close>

section \<open>Definitions\<close>

definition schemeOk :: "string \<Rightarrow> bool" where
  "schemeOk url = list_ex (\<lambda>s. prefix s url) [''http://'', ''https://'', ''ws://'', ''wss://'']"

definition nonnull_field :: "json \<Rightarrow> string \<Rightarrow> json option" where
  "nonnull_field j k =
     (case jfield j k of None \<Rightarrow> None | Some v \<Rightarrow> if is_null v then None else Some v)"

fun collect_strings :: "string \<Rightarrow> json list \<Rightarrow> string list \<Rightarrow> string list res" where
  "collect_strings k [] out = Inr out"
| "collect_strings k (e # es) out =
     (case e of JStr s \<Rightarrow> collect_strings k es (out @ [s])
      | _ \<Rightarrow> Inl (quoted k @ '' must contain only strings''))"

definition readStringList :: "json \<Rightarrow> string \<Rightarrow> string list \<Rightarrow> string list res" where
  "readStringList j k out =
     (case nonnull_field j k of
        None \<Rightarrow> Inr out
      | Some (JStr s) \<Rightarrow> Inr (out @ filter (\<lambda>item. item \<noteq> []) (getlines CHR '','' s))
      | Some (JArr es) \<Rightarrow> collect_strings k es out
      | Some _ \<Rightarrow> Inl (quoted k @ '' must be an array of URL strings''))"

fun check_urls :: "string \<Rightarrow> string list \<Rightarrow> unit res" where
  "check_urls k [] = Inr ()"
| "check_urls k (u # us) =
     (if \<not> schemeOk u then
        Inl (quoted k @ '' entry '' @ quoted u @ '' must use one of the http, https, ws or wss schemes'')
      else if find_char CHR '','' u \<noteq> None then
        Inl (quoted k @ '' entry '' @ quoted u
             @ '' must not contain a comma (the upstream format is comma-separated)'')
      else check_urls k us)"

definition validateUrls :: "string list \<Rightarrow> string \<Rightarrow> bool \<Rightarrow> unit res" where
  "validateUrls urls k required =
     (if required \<and> urls = [] then Inl (quoted k @ '' is required and must contain at least one URL'')
      else check_urls k urls)"

definition readInt :: "json \<Rightarrow> string \<Rightarrow> i64 \<Rightarrow> i64 res" where
  "readInt j k out =
     (case nonnull_field j k of
        None \<Rightarrow> Inr out
      | Some v \<Rightarrow> if \<not> is_number_integer v then Inl (quoted k @ '' must be an integer'')
                  else Inr (get_int64 v))"

definition readBool :: "json \<Rightarrow> string \<Rightarrow> bool \<Rightarrow> bool res" where
  "readBool j k out =
     (case nonnull_field j k of
        None \<Rightarrow> Inr out
      | Some (JBool b) \<Rightarrow> Inr b
      | Some _ \<Rightarrow> Inl (quoted k @ '' must be a boolean''))"

definition readEnum :: "string list \<Rightarrow> json \<Rightarrow> string \<Rightarrow> string \<Rightarrow> string res" where
  "readEnum allowed j k out =
     (case nonnull_field j k of
        None \<Rightarrow> Inr out
      | Some (JStr v) \<Rightarrow>
          if v \<notin> set allowed
          then Inl (quoted k @ '' must be one of: '' @ join_with '', '' allowed @ '' (got '' @ quoted v @ '')'')
          else Inr v
      | Some _ \<Rightarrow> Inl (quoted k @ '' must be a string''))"

definition joinCsv :: "string list \<Rightarrow> string" where
  "joinCsv v = join_with '','' v"

section \<open>The contract of a reader\<close>

locale field_reader =
  fixes read :: "json \<Rightarrow> string \<Rightarrow> 'a \<Rightarrow> 'a res" and enc :: "'a \<Rightarrow> json" and good :: "'a \<Rightarrow> bool"
  assumes read_absent: "nonnull_field j k = None \<Longrightarrow> read j k d = Inr d"
    and read_enc: "jfield j k = Some (enc v) \<Longrightarrow> good v \<Longrightarrow> read j k d = Inr v"
    and read_good: "read j k d = Inr v \<Longrightarrow> good d \<Longrightarrow> good v"
    and read_names: "read j k d = Inl e \<Longrightarrow> prefix (quoted k) e"
begin

text \<open>A reader only ever keeps the default or stores a good value.\<close>

lemma read_cases: "read j k d = Inr v \<Longrightarrow> nonnull_field j k = None \<Longrightarrow> v = d"
  by (simp add: read_absent)

lemma read_error_present: "read j k d = Inl e \<Longrightarrow> nonnull_field j k \<noteq> None"
  using read_absent by fastforce

end

lemma nonnull_field_Some [simp]:
  "jfield j k = Some v \<Longrightarrow> v \<noteq> JNull \<Longrightarrow> nonnull_field j k = Some v"
  by (auto simp: nonnull_field_def is_null_iff)

interpretation int_reader: field_reader readInt JInt "\<lambda>_. True"
  by unfold_locales (auto simp: readInt_def split: option.splits if_splits)

interpretation bool_reader: field_reader readBool JBool "\<lambda>_. True"
  by unfold_locales (auto simp: readBool_def split: option.splits json.splits)

interpretation enum_reader: field_reader "readEnum allowed" JStr "\<lambda>v. v \<in> set allowed" for allowed
  by unfold_locales (auto simp: readEnum_def split: option.splits json.splits if_splits)

section \<open>URL lists\<close>

definition good_url :: "string \<Rightarrow> bool" where
  "good_url u \<longleftrightarrow> schemeOk u \<and> CHR '','' \<notin> set u"

lemma good_url_nonempty: "good_url u \<Longrightarrow> u \<noteq> []"
  by (auto simp: good_url_def schemeOk_def)

lemma check_urls_ok: "check_urls k us = Inr () \<longleftrightarrow> (\<forall>u \<in> set us. good_url u)"
  by (induction us) (auto simp: good_url_def find_char_None)

lemma validateUrls_ok:
  "validateUrls us k required = Inr () \<longleftrightarrow> (required \<longrightarrow> us \<noteq> []) \<and> (\<forall>u \<in> set us. good_url u)"
  by (auto simp: validateUrls_def check_urls_ok)

lemma check_urls_names: "check_urls k us = Inl e \<Longrightarrow> prefix (quoted k) e"
  by (induction us) (auto split: if_splits)

lemma validateUrls_names: "validateUrls us k required = Inl e \<Longrightarrow> prefix (quoted k) e"
  by (auto simp: validateUrls_def check_urls_names split: if_splits)

lemma collect_strings_map [simp]: "collect_strings k (map JStr ss) out = Inr (out @ ss)"
  by (induction ss arbitrary: out) auto

lemma collect_strings_names: "collect_strings k es out = Inl e \<Longrightarrow> prefix (quoted k) e"
  by (induction k es out rule: collect_strings.induct) (auto split: json.splits)

lemma readStringList_names: "readStringList j k out = Inl e \<Longrightarrow> prefix (quoted k) e"
  by (auto simp: readStringList_def collect_strings_names split: option.splits json.splits)

lemma readStringList_absent: "nonnull_field j k = None \<Longrightarrow> readStringList j k out = Inr out"
  by (simp add: readStringList_def)

lemma readStringList_enc:
  "jfield j k = Some (JArr (map JStr ss)) \<Longrightarrow> readStringList j k [] = Inr ss"
  by (simp add: readStringList_def)

text \<open>The upstream form: a comma-joined list of good URLs reads back as the list.\<close>

lemma getlines_joinCsv:
  assumes "\<forall>u \<in> set us. good_url u"
  shows "getlines CHR '','' (joinCsv us) = us"
  using assms
  unfolding joinCsv_def
  using good_url_nonempty by (intro getlines_join) (auto simp: good_url_def)

lemma readStringList_joinCsv:
  assumes "jfield j k = Some (JStr (joinCsv us))" "\<forall>u \<in> set us. good_url u"
  shows "readStringList j k [] = Inr us"
proof -
  have "filter (\<lambda>item. item \<noteq> []) us = us"
    using assms(2) by (auto simp: filter_id_conv dest: good_url_nonempty)
  with assms show ?thesis by (simp add: readStringList_def getlines_joinCsv)
qed

end
