(* ===== verification/Payload.thy ===== *)
theory Payload
  imports Json_Value
begin

text \<open>
  The text that crosses the C interface: return codes, the decoding of callback payloads and
  error messages (\<^verbatim>\<open>decodePayload\<close>, \<^verbatim>\<open>errorMessage\<close> in \<^verbatim>\<open>src/proxy_runtime.cpp\<close>), the hex
  quantities of \<^verbatim>\<open>src/verified_proxy_rpc.cpp\<close> and the base-16 \<^verbatim>\<open>std::stoll\<close> that reads one
  back. \<open>parse\<close> is the JSON parser: \<^term>\<open>Inl\<close> is the text of the exception it throws.
\<close>

section \<open>Return codes and payloads\<close>

text \<open>The codes of the library's C header, \<^verbatim>\<open>verifproxy.h\<close>.\<close>

definition RET_SUCCESS :: int where "RET_SUCCESS = 0"
definition RET_ERROR :: int where "RET_ERROR = -1"
definition RET_CANCELLED :: int where "RET_CANCELLED = -2"
definition RET_DESER_ERROR :: int where "RET_DESER_ERROR = -3"

lemmas ret_codes = RET_SUCCESS_def RET_ERROR_def RET_CANCELLED_def RET_DESER_ERROR_def

definition decodePayload :: "(string \<Rightarrow> string + json) \<Rightarrow> string \<Rightarrow> json \<times> bool" where
  "decodePayload parse raw =
     (if raw = [] then (JNull, False)
      else case parse raw of Inr v \<Rightarrow> (v, True) | Inl _ \<Rightarrow> (JStr raw, False))"

definition errorMessage :: "(string \<Rightarrow> string + json) \<Rightarrow> int \<Rightarrow> string \<Rightarrow> string" where
  "errorMessage parse status raw =
     (let v = fst (decodePayload parse raw);
          msg0 = (case v of JStr s \<Rightarrow> s | _ \<Rightarrow> raw);
          msg = (if msg0 = [] then ''no detail'' else msg0)
      in if status = RET_CANCELLED then ''cancelled: '' @ msg
         else if status = RET_DESER_ERROR then ''bad request: '' @ msg
         else msg)"

lemma errorMessage_nonempty [simp]: "errorMessage parse status raw \<noteq> []"
  by (simp add: errorMessage_def Let_def)

section \<open>Hex quantities\<close>

definition quantityHex :: "u64 \<Rightarrow> string" where
  "quantityHex v = ''0x'' @ hex_of_nat (unat v)"

text \<open>\<^verbatim>\<open>isspace\<close> in the C locale.\<close>

definition isSpace :: "char \<Rightarrow> bool" where
  "isSpace c = (let n = of_char c :: nat in n = 32 \<or> (9 \<le> n \<and> n \<le> 13))"

text \<open>
  \<^verbatim>\<open>std::stoll(s, nullptr, 16)\<close>: white space, an optional sign, an optional \<open>0x\<close> that counts
  only before a digit, then the longest run of digits. \<^term>\<open>None\<close> is an exception: no digit, or
  a value outside the signed range.
\<close>

fun strip_sign :: "string \<Rightarrow> bool \<times> string" where
  "strip_sign (c # cs) =
     (if c = CHR ''-'' then (True, cs) else if c = CHR ''+'' then (False, cs) else (False, c # cs))"
| "strip_sign [] = (False, [])"

fun strip_0x :: "string \<Rightarrow> string" where
  "strip_0x (a # b # c # cs) =
     (if a = CHR ''0'' \<and> (b = CHR ''x'' \<or> b = CHR ''X'') \<and> isHex c then c # cs else a # b # c # cs)"
| "strip_0x cs = cs"

definition stoll16 :: "string \<Rightarrow> int option" where
  "stoll16 s =
     (let (neg, body) = strip_sign (dropWhile isSpace s);
          ds = takeWhile isHex (strip_0x body);
          n = (if neg then - int (nat_of_hex ds) else int (nat_of_hex ds))
      in if ds = [] then None else if fits_i64 n then Some n else None)"

lemma strip_0x_hex:
  "ds \<noteq> [] \<Longrightarrow> \<forall>c \<in> set ds. isHex c \<Longrightarrow> strip_0x (''0x'' @ ds) = ds"
  by (cases ds) auto

lemma stoll16_hex:
  assumes "n < 2 ^ 63"
  shows "stoll16 (''0x'' @ hex_of_nat n) = Some (int n)"
proof -
  have ds: "hex_of_nat n \<noteq> []" "\<forall>c \<in> set (hex_of_nat n). isHex c"
    using hex_of_nat_isHex by (auto simp: hex_of_nat_def)
  have "dropWhile isSpace (''0x'' @ hex_of_nat n) = ''0x'' @ hex_of_nat n"
    by (simp add: isSpace_def)
  moreover have "strip_sign (''0x'' @ hex_of_nat n) = (False, ''0x'' @ hex_of_nat n)"
    by simp
  moreover have "takeWhile isHex (hex_of_nat n) = hex_of_nat n"
    using ds by (simp add: takeWhile_eq_all_conv)
  moreover have "fits_i64 (int n)"
    using assms by (simp add: fits_i64_def)
  ultimately show ?thesis
    using ds strip_0x_hex [OF ds] by (simp add: stoll16_def Let_def del: append_Cons strip_0x.simps takeWhile_eq_all_conv)
qed

section \<open>The sync interval\<close>

definition kBeaconSlotMs :: i64 where
  "kBeaconSlotMs = 12000"

text \<open>
  \<^verbatim>\<open>readSyncIntervalMs\<close>. The argument is what the library's callback delivered before the call
  returned: \<^term>\<open>None\<close> if it did not fire, otherwise a status and a text.
\<close>

definition readSyncIntervalMs :: "(string \<Rightarrow> string + json) \<Rightarrow> (int \<times> string) option \<Rightarrow> i64" where
  "readSyncIntervalMs parse reply =
     (case reply of None \<Rightarrow> kBeaconSlotMs
      | Some (status, text) \<Rightarrow>
          let raw = (if status = RET_SUCCESS then text else []);
              v = fst (decodePayload parse raw);
              ms = (if is_number_integer v then get_int64 v
                    else case v of JStr s \<Rightarrow> (case stoll16 s of Some n \<Rightarrow> word_of_int n | None \<Rightarrow> 0)
                         | _ \<Rightarrow> 0)
          in if 0 < sint ms then ms else kBeaconSlotMs)"

lemma sint_beacon_slot [simp]: "sint kBeaconSlotMs = 12000"
  by (simp add: kBeaconSlotMs_def)

lemma readSyncIntervalMs_pos: "0 < sint (readSyncIntervalMs parse reply)"
  by (auto simp: readSyncIntervalMs_def Let_def split: option.split prod.split)

section \<open>Properties\<close>

lemma digits_in_length: "n < (b + 2) ^ Suc k \<Longrightarrow> length (digits_in b n) \<le> Suc k"
proof (induction k arbitrary: n)
  case 0
  then show ?case by (subst digits_in.simps) simp
next
  case (Suc k)
  show ?case
  proof (cases "n < b + 2")
    case True
    then show ?thesis by (subst digits_in.simps) simp
  next
    case False
    have "n div (b + 2) < (b + 2) ^ Suc k"
      using Suc.prems by (intro less_mult_imp_div_less) (simp add: mult.commute)
    from Suc.IH [OF this] show ?thesis using False by (subst digits_in.simps) simp
  qed
qed

lemma hex_of_nat_length: "n < 2 ^ 64 \<Longrightarrow> length (hex_of_nat n) \<le> 16"
  using digits_in_length [of n 14 15] by (simp add: hex_of_nat_def)

lemma stoll16_hex_large:
  assumes "2 ^ 63 \<le> n"
  shows "stoll16 (''0x'' @ hex_of_nat n) = None"
proof -
  have ds: "hex_of_nat n \<noteq> []" "\<forall>c \<in> set (hex_of_nat n). isHex c"
    using hex_of_nat_isHex by (auto simp: hex_of_nat_def)
  have "dropWhile isSpace (''0x'' @ hex_of_nat n) = ''0x'' @ hex_of_nat n"
    by (simp add: isSpace_def)
  moreover have "strip_sign (''0x'' @ hex_of_nat n) = (False, ''0x'' @ hex_of_nat n)"
    by simp
  moreover have "takeWhile isHex (hex_of_nat n) = hex_of_nat n"
    using ds by (simp add: takeWhile_eq_all_conv)
  moreover have "\<not> fits_i64 (int n)"
    using assms by (simp add: fits_i64_def)
  ultimately show ?thesis
    using ds strip_0x_hex [OF ds] by (simp add: stoll16_def Let_def del: append_Cons strip_0x.simps takeWhile_eq_all_conv)
qed

text \<open>
  A quantity is \<open>0x\<close> and at most sixteen hex digits, never an empty digit string, and reading
  it back in base 16 gives the number exactly, except for the upper half of the unsigned range,
  which the signed reader refuses instead of wrapping.
\<close>

theorem quantity_reads_back:
  "stoll16 (quantityHex v) = (if unat v < 2 ^ 63 then Some (int (unat v)) else None)
   \<and> (\<exists>ds. quantityHex v = ''0x'' @ ds \<and> ds \<noteq> [] \<and> length ds \<le> 16 \<and> list_all isHex ds)"
proof
  show "stoll16 (quantityHex v) = (if unat v < 2 ^ 63 then Some (int (unat v)) else None)"
    using stoll16_hex stoll16_hex_large by (simp add: quantityHex_def del: append_Cons append_Nil)
  have "unat v < 2 ^ 64" using unsigned_less [of v] by (simp only: len_of_numeral_defs) simp
  then show "\<exists>ds. quantityHex v = ''0x'' @ ds \<and> ds \<noteq> [] \<and> length ds \<le> 16 \<and> list_all isHex ds"
    using hex_of_nat_length hex_of_nat_isHex
    by (intro exI [of _ "hex_of_nat (unat v)"]) (simp add: quantityHex_def list_all_iff, simp add: hex_of_nat_def)
qed

text \<open>
  The sync interval is always positive. A slot duration that the library reports as a hex
  quantity is taken as it is; no answer, a failed one, and a duration of zero all give one slot.
\<close>

theorem sync_interval_chosen:
  assumes "reply = Some (RET_SUCCESS, body)" "body \<noteq> []" "parse body = Inr (JStr (quantityHex v))"
    "unat v < 2 ^ 63"
  shows "readSyncIntervalMs parse reply = (if v = 0 then kBeaconSlotMs else v)
    \<and> 0 < sint (readSyncIntervalMs parse other)
    \<and> (status \<noteq> RET_SUCCESS \<longrightarrow> readSyncIntervalMs parse (Some (status, raw)) = kBeaconSlotMs)
    \<and> readSyncIntervalMs parse None = kBeaconSlotMs"
proof -
  have "stoll16 (quantityHex v) = Some (int (unat v))"
    using stoll16_hex assms(4) by (simp add: quantityHex_def del: append_Cons append_Nil)
  moreover have "sint v = int (unat v)"
    using sint_of_nat_i64 [OF assms(4)] by simp
  moreover have "0 < sint v \<longleftrightarrow> v \<noteq> 0"
    using calculation(2) by (simp add: word_neq_0_conv word_less_def)
  moreover have "word_of_int (int (unat v)) = v" by simp
  ultimately have "readSyncIntervalMs parse reply = (if v = 0 then kBeaconSlotMs else v)"
    using assms by (simp add: readSyncIntervalMs_def decodePayload_def Let_def del: of_nat_unat)
  then show ?thesis
    by (simp add: readSyncIntervalMs_pos) (simp add: readSyncIntervalMs_def decodePayload_def Let_def)
qed

theorem sync_interval_chosen_witness:
  "readSyncIntervalMs (\<lambda>_. Inr (JStr (quantityHex 6000))) (Some (RET_SUCCESS, ''q'')) = 6000"
  using sync_interval_chosen [of "Some (RET_SUCCESS, ''q'')" "''q''" "\<lambda>_. Inr (JStr (quantityHex 6000))" 6000]
  by simp

end
