(* ===== verification/Proxy_Config.thy ===== *)
theory Proxy_Config
  imports Config_Readers Payload
begin

text \<open>
  \<^verbatim>\<open>ProxyConfig\<close> of \<^verbatim>\<open>src/proxy_config.h\<close> and \<^verbatim>\<open>src/proxy_config.cpp\<close>: the validated
  configuration, its parsing from JSON (\<^verbatim>\<open>fromJson\<close>, a sequence of guarded assignments to one
  output object) and its three JSON views.
\<close>

section \<open>The configuration\<close>

record ProxyConfig =
  network :: string
  trustedBlockRoot :: string
  executionApiUrls :: "string list"
  beaconApiUrls :: "string list"
  beaconSource :: string
  opExecutionApiUrls :: "string list"
  privateTxUrls :: "string list"
  archiveUrls :: "string list"
  logLevel :: string
  logFormat :: string
  maxBlockWalk :: i64
  maxWindowJumps :: i64
  parallelBlockDownloads :: i64
  maxLightClientUpdates :: i64
  headerStoreLen :: i64
  storageCacheLen :: i64
  codeCacheLen :: i64
  accountCacheLen :: i64
  syncHeaderStore :: bool
  freezeAtSlot :: i64
  callTimeoutMs :: i64
  queueTimeoutMs :: i64
  startTimeoutMs :: i64
  drainTimeoutMs :: i64
  pumpIntervalMs :: i64
  maxInFlight :: i64
  keepAlive :: string
  keepAliveIntervalMs :: i64
  autoStart :: bool
  httpEnabled :: bool
  httpHost :: string
  httpPort :: i64

definition default_config :: ProxyConfig where
  "default_config =
    \<lparr>network = ''mainnet'', trustedBlockRoot = [], executionApiUrls = [], beaconApiUrls = [],
     beaconSource = ''module'', opExecutionApiUrls = [], privateTxUrls = [], archiveUrls = [],
     logLevel = ''INFO'', logFormat = ''Json'',
     maxBlockWalk = 1000, maxWindowJumps = 500, parallelBlockDownloads = 10,
     maxLightClientUpdates = 128, headerStoreLen = 256, storageCacheLen = 256, codeCacheLen = 64,
     accountCacheLen = 128, syncHeaderStore = True, freezeAtSlot = 0,
     callTimeoutMs = 30000, queueTimeoutMs = 30000, startTimeoutMs = 120000, drainTimeoutMs = 2000,
     pumpIntervalMs = 50, maxInFlight = 64, keepAlive = ''interval'',
     keepAliveIntervalMs = kBeaconSlotMs, autoStart = False,
     httpEnabled = False, httpHost = ''127.0.0.1'', httpPort = 8545\<rparr>"

definition expectedChainId :: "ProxyConfig \<Rightarrow> i64" where
  "expectedChainId c = (case networkProfile (network c) of None \<Rightarrow> 0 | Some p \<Rightarrow> np_chainId p)"

section \<open>Parsing\<close>

definition root_ok :: "string \<Rightarrow> bool" where
  "root_ok r \<longleftrightarrow> prefix ''0x'' r \<and> length r = 66 \<and> list_all isHex (drop 2 r)"

definition read_root :: "json \<Rightarrow> ProxyConfig \<Rightarrow> ProxyConfig res" where
  "read_root j c =
     (case jfield j ''trustedBlockRoot'' of
        Some (JStr r) \<Rightarrow>
          if root_ok r then Inr (c\<lparr>trustedBlockRoot := r\<rparr>)
          else Inl (quoted ''trustedBlockRoot'' @ '' must be 0x followed by exactly 64 hex digits (got ''
                    @ quoted r @ '')'')
      | _ \<Rightarrow> Inl (quoted ''trustedBlockRoot'' @ '' is required and must be a 0x-prefixed 32-byte hex string''))"

text \<open>The endpoint defaults and the beacon source, filled in only for absent keys.\<close>

definition fill_from_profile :: "json \<Rightarrow> ProxyConfig \<Rightarrow> ProxyConfig res" where
  "fill_from_profile j c =
     (case networkProfile (network c) of
        None \<Rightarrow> Inr c
      | Some p \<Rightarrow>
          let c1 = (if \<not> contains j ''beaconSource''
                    then c\<lparr>beaconSource :=
                           (if contains j ''beaconApiUrls'' \<and> beaconApiUrls c \<noteq> [np_beaconApiUrl p]
                            then ''urls'' else ''module'')\<rparr>
                    else c);
              c2 = (if \<not> contains j ''beaconApiUrls'' \<and> np_beaconApiUrl p \<noteq> []
                    then c1\<lparr>beaconApiUrls := [np_beaconApiUrl p]\<rparr> else c1);
              c3 = (if \<not> contains j ''executionApiUrls'' \<and> np_executionApiUrl p \<noteq> []
                    then c2\<lparr>executionApiUrls := [np_executionApiUrl p]\<rparr> else c2)
          in Inr c3)"

definition identity_steps :: "json \<Rightarrow> (ProxyConfig \<Rightarrow> ProxyConfig res) list" where
  "identity_steps j =
    [\<lambda>c. map_res (\<lambda>v. c\<lparr>network := v\<rparr>) (readEnum kNetworks j ''network'' (network c)),
     \<lambda>c. map_res (\<lambda>v. c\<lparr>logLevel := v\<rparr>) (readEnum kLogLevels j ''logLevel'' (logLevel c)),
     \<lambda>c. map_res (\<lambda>v. c\<lparr>logFormat := v\<rparr>) (readEnum kLogFormats j ''logFormat'' (logFormat c)),
     read_root j]"

definition backend_read_steps :: "json \<Rightarrow> (ProxyConfig \<Rightarrow> ProxyConfig res) list" where
  "backend_read_steps j =
    [\<lambda>c. map_res (\<lambda>v. c\<lparr>executionApiUrls := v\<rparr>) (readStringList j ''executionApiUrls'' (executionApiUrls c)),
     \<lambda>c. map_res (\<lambda>v. c\<lparr>beaconApiUrls := v\<rparr>) (readStringList j ''beaconApiUrls'' (beaconApiUrls c)),
     fill_from_profile j,
     \<lambda>c. map_res (\<lambda>v. c\<lparr>opExecutionApiUrls := v\<rparr>)
           (readStringList j ''opExecutionApiUrls'' (opExecutionApiUrls c)),
     \<lambda>c. map_res (\<lambda>v. c\<lparr>privateTxUrls := v\<rparr>) (readStringList j ''privateTxUrls'' (privateTxUrls c)),
     \<lambda>c. map_res (\<lambda>v. c\<lparr>archiveUrls := v\<rparr>) (readStringList j ''archiveUrls'' (archiveUrls c))]"

definition backend_check_steps :: "json \<Rightarrow> (ProxyConfig \<Rightarrow> ProxyConfig res) list" where
  "backend_check_steps j =
    [\<lambda>c. map_res (\<lambda>_. c) (validateUrls (executionApiUrls c) ''executionApiUrls'' True),
     \<lambda>c. map_res (\<lambda>v. c\<lparr>beaconSource := v\<rparr>) (readEnum kBeaconSources j ''beaconSource'' (beaconSource c)),
     \<lambda>c. map_res (\<lambda>_. c) (validateUrls (beaconApiUrls c) ''beaconApiUrls'' (beaconSource c = ''urls'')),
     \<lambda>c. map_res (\<lambda>_. c) (validateUrls (opExecutionApiUrls c) ''opExecutionApiUrls'' False),
     \<lambda>c. map_res (\<lambda>_. c) (validateUrls (privateTxUrls c) ''privateTxUrls'' False),
     \<lambda>c. map_res (\<lambda>_. c) (validateUrls (archiveUrls c) ''archiveUrls'' False)]"

definition tuning_steps :: "json \<Rightarrow> (ProxyConfig \<Rightarrow> ProxyConfig res) list" where
  "tuning_steps j =
    (let tuning = value_json j ''tuning'' (JObj []) in
    [\<lambda>c. if is_object tuning then Inr c else Inl (quoted ''tuning'' @ '' must be an object''),
     \<lambda>c. map_res (\<lambda>v. c\<lparr>maxBlockWalk := v\<rparr>) (readInt tuning ''maxBlockWalk'' (maxBlockWalk c)),
     \<lambda>c. map_res (\<lambda>v. c\<lparr>maxWindowJumps := v\<rparr>) (readInt tuning ''maxWindowJumps'' (maxWindowJumps c)),
     \<lambda>c. map_res (\<lambda>v. c\<lparr>parallelBlockDownloads := v\<rparr>)
           (readInt tuning ''parallelBlockDownloads'' (parallelBlockDownloads c)),
     \<lambda>c. map_res (\<lambda>v. c\<lparr>maxLightClientUpdates := v\<rparr>)
           (readInt tuning ''maxLightClientUpdates'' (maxLightClientUpdates c)),
     \<lambda>c. map_res (\<lambda>v. c\<lparr>headerStoreLen := v\<rparr>) (readInt tuning ''headerStoreLen'' (headerStoreLen c)),
     \<lambda>c. map_res (\<lambda>v. c\<lparr>storageCacheLen := v\<rparr>) (readInt tuning ''storageCacheLen'' (storageCacheLen c)),
     \<lambda>c. map_res (\<lambda>v. c\<lparr>codeCacheLen := v\<rparr>) (readInt tuning ''codeCacheLen'' (codeCacheLen c)),
     \<lambda>c. map_res (\<lambda>v. c\<lparr>accountCacheLen := v\<rparr>) (readInt tuning ''accountCacheLen'' (accountCacheLen c)),
     \<lambda>c. map_res (\<lambda>v. c\<lparr>freezeAtSlot := v\<rparr>) (readInt tuning ''freezeAtSlot'' (freezeAtSlot c)),
     \<lambda>c. map_res (\<lambda>v. c\<lparr>syncHeaderStore := v\<rparr>) (readBool tuning ''syncHeaderStore'' (syncHeaderStore c))])"

definition read_host :: "json \<Rightarrow> ProxyConfig \<Rightarrow> ProxyConfig res" where
  "read_host http c =
     (case jfield http ''host'' of
        None \<Rightarrow> Inr c
      | Some (JStr h) \<Rightarrow> Inr (c\<lparr>httpHost := h\<rparr>)
      | Some _ \<Rightarrow> Inl (quoted ''httpServer.host'' @ '' must be a string''))"

definition check_port :: "ProxyConfig \<Rightarrow> ProxyConfig res" where
  "check_port c =
     (if httpEnabled c \<and> (sint (httpPort c) < 1 \<or> 65535 < sint (httpPort c))
      then Inl (quoted ''httpServer.port'' @ '' must be in 1..65535 (got '' @ to_string (sint (httpPort c)) @ '')'')
      else Inr c)"

definition module_steps :: "json \<Rightarrow> (ProxyConfig \<Rightarrow> ProxyConfig res) list" where
  "module_steps j =
    (let http = value_json j ''httpServer'' (JObj []) in
    [\<lambda>c. map_res (\<lambda>v. c\<lparr>callTimeoutMs := v\<rparr>) (readInt j ''callTimeoutMs'' (callTimeoutMs c)),
     \<lambda>c. map_res (\<lambda>v. c\<lparr>queueTimeoutMs := v\<rparr>) (readInt j ''queueTimeoutMs'' (queueTimeoutMs c)),
     \<lambda>c. map_res (\<lambda>v. c\<lparr>startTimeoutMs := v\<rparr>) (readInt j ''startTimeoutMs'' (startTimeoutMs c)),
     \<lambda>c. map_res (\<lambda>v. c\<lparr>drainTimeoutMs := v\<rparr>) (readInt j ''drainTimeoutMs'' (drainTimeoutMs c)),
     \<lambda>c. map_res (\<lambda>v. c\<lparr>pumpIntervalMs := v\<rparr>) (readInt j ''pumpIntervalMs'' (pumpIntervalMs c)),
     \<lambda>c. map_res (\<lambda>v. c\<lparr>maxInFlight := v\<rparr>) (readInt j ''maxInFlight'' (maxInFlight c)),
     \<lambda>c. map_res (\<lambda>v. c\<lparr>keepAliveIntervalMs := v\<rparr>) (readInt j ''keepAliveIntervalMs'' (keepAliveIntervalMs c)),
     \<lambda>c. map_res (\<lambda>v. c\<lparr>autoStart := v\<rparr>) (readBool j ''autoStart'' (autoStart c)),
     \<lambda>c. map_res (\<lambda>v. c\<lparr>keepAlive := v\<rparr>) (readEnum kKeepAliveModes j ''keepAlive'' (keepAlive c)),
     \<lambda>c. if is_object http then Inr c else Inl (quoted ''httpServer'' @ '' must be an object''),
     \<lambda>c. map_res (\<lambda>v. c\<lparr>httpEnabled := v\<rparr>) (readBool http ''enabled'' (httpEnabled c)),
     \<lambda>c. map_res (\<lambda>v. c\<lparr>httpPort := v\<rparr>) (readInt http ''port'' (httpPort c)),
     read_host http,
     check_port])"

definition must_be_positive :: "string \<Rightarrow> (ProxyConfig \<Rightarrow> i64) \<Rightarrow> ProxyConfig \<Rightarrow> ProxyConfig res" where
  "must_be_positive k get c =
     (if sint (get c) \<le> 0 then Inl (quoted k @ '' must be positive'') else Inr c)"

definition bound_steps :: "(ProxyConfig \<Rightarrow> ProxyConfig res) list" where
  "bound_steps =
    [must_be_positive ''callTimeoutMs'' callTimeoutMs,
     must_be_positive ''queueTimeoutMs'' queueTimeoutMs,
     must_be_positive ''startTimeoutMs'' startTimeoutMs,
     must_be_positive ''maxInFlight'' maxInFlight,
     must_be_positive ''pumpIntervalMs'' pumpIntervalMs,
     must_be_positive ''keepAliveIntervalMs'' keepAliveIntervalMs,
     \<lambda>c. Inr (c\<lparr>keepAliveIntervalMs := i64_max (keepAliveIntervalMs c) kBeaconSlotMs\<rparr>)]"

definition fromJson :: "json \<Rightarrow> ProxyConfig res" where
  "fromJson j =
     (if \<not> is_object j then Inl ''config must be a JSON object''
      else run_steps (identity_steps j @ backend_read_steps j @ backend_check_steps j 
               @ tuning_steps j @ module_steps j @ bound_steps)
             default_config)"

section \<open>Views\<close>

definition upstream_fields :: "ProxyConfig \<Rightarrow> (string \<times> json) list" where
  "upstream_fields c =
     [(''eth2Network'', JStr (network c)),
      (''trustedBlockRoot'', JStr (trustedBlockRoot c)),
      (''executionApiUrls'', JStr (joinCsv (executionApiUrls c))),
      (''beaconApiUrls'', JStr (joinCsv (beaconApiUrls c)))]
     @ (if opExecutionApiUrls c \<noteq> [] then [(''opExecutionApiUrls'', JStr (joinCsv (opExecutionApiUrls c)))] else [])
     @ (if privateTxUrls c \<noteq> [] then [(''privateTxUrls'', JStr (joinCsv (privateTxUrls c)))] else [])
     @ (if archiveUrls c \<noteq> [] then [(''archiveUrls'', JStr (joinCsv (archiveUrls c)))] else [])
     @ [(''logLevel'', JStr (logLevel c)),
        (''logFormat'', JStr (logFormat c)),
        (''maxBlockWalk'', JInt (maxBlockWalk c)),
        (''maxWindowJumps'', JInt (maxWindowJumps c)),
        (''parallelBlockDownloads'', JInt (parallelBlockDownloads c)),
        (''maxLightClientUpdates'', JInt (maxLightClientUpdates c)),
        (''headerStoreLen'', JInt (headerStoreLen c)),
        (''storageCacheLen'', JInt (storageCacheLen c)),
        (''codeCacheLen'', JInt (codeCacheLen c)),
        (''accountCacheLen'', JInt (accountCacheLen c)),
        (''syncHeaderStore'', JBool (syncHeaderStore c)),
        (''freezeAtSlot'', JInt (freezeAtSlot c))]"

definition toUpstreamJson :: "(json \<Rightarrow> string) \<Rightarrow> ProxyConfig \<Rightarrow> string" where
  "toUpstreamJson dump c = dump (jobj (upstream_fields c))"

definition url_view :: "bool \<Rightarrow> string list \<Rightarrow> json" where
  "url_view redact us = (if redact then redactedUrls us else JArr (map JStr us))"

definition tuning_view :: "ProxyConfig \<Rightarrow> json" where
  "tuning_view c = jobj
     [(''maxBlockWalk'', JInt (maxBlockWalk c)),
      (''maxWindowJumps'', JInt (maxWindowJumps c)),
      (''parallelBlockDownloads'', JInt (parallelBlockDownloads c)),
      (''maxLightClientUpdates'', JInt (maxLightClientUpdates c)),
      (''headerStoreLen'', JInt (headerStoreLen c)),
      (''storageCacheLen'', JInt (storageCacheLen c)),
      (''codeCacheLen'', JInt (codeCacheLen c)),
      (''accountCacheLen'', JInt (accountCacheLen c)),
      (''syncHeaderStore'', JBool (syncHeaderStore c)),
      (''freezeAtSlot'', JInt (freezeAtSlot c))]"

definition asJson :: "bool \<Rightarrow> ProxyConfig \<Rightarrow> json" where
  "asJson redact c = jobj
     [(''network'', JStr (network c)),
      (''trustedBlockRoot'', JStr (trustedBlockRoot c)),
      (''chainId'', JInt (expectedChainId c)),
      (''executionApiUrls'', url_view redact (executionApiUrls c)),
      (''beaconApiUrls'', url_view redact (beaconApiUrls c)),
      (''beaconSource'', JStr (beaconSource c)),
      (''opExecutionApiUrls'', url_view redact (opExecutionApiUrls c)),
      (''privateTxUrls'', url_view redact (privateTxUrls c)),
      (''archiveUrls'', url_view redact (archiveUrls c)),
      (''logLevel'', JStr (logLevel c)),
      (''logFormat'', JStr (logFormat c)),
      (''tuning'', tuning_view c),
      (''callTimeoutMs'', JInt (callTimeoutMs c)),
      (''queueTimeoutMs'', JInt (queueTimeoutMs c)),
      (''startTimeoutMs'', JInt (startTimeoutMs c)),
      (''drainTimeoutMs'', JInt (drainTimeoutMs c)),
      (''pumpIntervalMs'', JInt (pumpIntervalMs c)),
      (''maxInFlight'', JInt (maxInFlight c)),
      (''keepAlive'', JStr (keepAlive c)),
      (''keepAliveIntervalMs'', JInt (keepAliveIntervalMs c)),
      (''autoStart'', JBool (autoStart c)),
      (''httpServer'', jobj [(''enabled'', JBool (httpEnabled c)), (''host'', JStr (httpHost c)),
                             (''port'', JInt (httpPort c))])]"

definition raw_config :: "ProxyConfig \<Rightarrow> json" where
  "raw_config c = asJson False c"

definition redacted_config :: "ProxyConfig \<Rightarrow> json" where
  "redacted_config c = asJson True c"

end
