(* ===== verification/Config_Facts.thy ===== *)
theory Config_Facts
  imports Proxy_Config
begin

text \<open>
  What \<^verbatim>\<open>ProxyConfig::fromJson\<close> guarantees of an accepted configuration (\<open>valid_config\<close>), that
  its unredacted view parses back to the same configuration, and what the two other views show.
\<close>

section \<open>Accepted configurations\<close>

definition valid_identity :: "ProxyConfig \<Rightarrow> bool" where
  "valid_identity c \<longleftrightarrow> network c \<in> set kNetworks \<and> logLevel c \<in> set kLogLevels
     \<and> logFormat c \<in> set kLogFormats \<and> root_ok (trustedBlockRoot c)"

definition valid_backends :: "ProxyConfig \<Rightarrow> bool" where
  "valid_backends c \<longleftrightarrow> executionApiUrls c \<noteq> [] \<and> list_all good_url (executionApiUrls c)
     \<and> beaconSource c \<in> set kBeaconSources
     \<and> (beaconSource c = ''urls'' \<longrightarrow> beaconApiUrls c \<noteq> []) \<and> list_all good_url (beaconApiUrls c)
     \<and> list_all good_url (opExecutionApiUrls c) \<and> list_all good_url (privateTxUrls c)
     \<and> list_all good_url (archiveUrls c)"

definition valid_module :: "ProxyConfig \<Rightarrow> bool" where
  "valid_module c \<longleftrightarrow> keepAlive c \<in> set kKeepAliveModes
     \<and> (httpEnabled c \<longrightarrow> 1 \<le> sint (httpPort c) \<and> sint (httpPort c) \<le> 65535)"

definition valid_bounds :: "ProxyConfig \<Rightarrow> bool" where
  "valid_bounds c \<longleftrightarrow> 0 < sint (callTimeoutMs c) \<and> 0 < sint (queueTimeoutMs c)
     \<and> 0 < sint (startTimeoutMs c) \<and> 0 < sint (maxInFlight c) \<and> 0 < sint (pumpIntervalMs c)
     \<and> sint kBeaconSlotMs \<le> sint (keepAliveIntervalMs c)"

definition valid_config :: "ProxyConfig \<Rightarrow> bool" where
  "valid_config c \<longleftrightarrow> valid_identity c \<and> valid_backends c \<and> valid_module c \<and> valid_bounds c"

lemmas valid_defs = valid_identity_def valid_backends_def valid_module_def valid_bounds_def

section \<open>Each phase establishes its part, later phases keep it\<close>

lemma default_whitelisted:
  "network default_config \<in> set kNetworks" "logLevel default_config \<in> set kLogLevels"
  "logFormat default_config \<in> set kLogFormats"
  by (simp_all add: default_config_def whitelist_sets)

lemma read_root_Inr: "read_root j c = Inr d \<longleftrightarrow>
  (\<exists>r. jfield j ''trustedBlockRoot'' = Some (JStr r) \<and> root_ok r \<and> d = c\<lparr>trustedBlockRoot := r\<rparr>)"
  by (auto simp: read_root_def split: option.splits json.splits)

lemma identity_establishes:
  "run_steps (identity_steps j) default_config = Inr c \<Longrightarrow> valid_identity c"
  by (auto simp: identity_steps_def bind_res_Inr map_res_Inr read_root_Inr valid_identity_def
      intro: enum_reader.read_good default_whitelisted)

lemma backend_check_establishes:
  "run_steps (backend_check_steps j) c = Inr d \<Longrightarrow> beaconSource c \<in> set kBeaconSources \<Longrightarrow> valid_backends d"
  by (auto simp: backend_check_steps_def bind_res_Inr map_res_Inr validateUrls_ok valid_backends_def
      list_all_iff intro: enum_reader.read_good)

lemma fill_from_profile_Inr: "\<exists>d. fill_from_profile j c = Inr d"
  by (simp add: fill_from_profile_def Let_def split: option.split)

lemma check_port_Inr: "check_port c = Inr d \<longleftrightarrow>
  d = c \<and> (httpEnabled c \<longrightarrow> 1 \<le> sint (httpPort c) \<and> sint (httpPort c) \<le> 65535)"
  by (auto simp: check_port_def)

lemma read_host_Inr: "read_host http c = Inr d \<Longrightarrow> d = c \<or> (\<exists>h. d = c\<lparr>httpHost := h\<rparr>)"
  by (auto simp: read_host_def split: option.splits json.splits)

lemma must_be_positive_Inr: "must_be_positive k get c = Inr d \<longleftrightarrow> d = c \<and> 0 < sint (get c)"
  by (auto simp: must_be_positive_def)

lemmas step_simps = bind_res_Inr map_res_Inr check_port_Inr must_be_positive_Inr read_root_Inr

lemma bound_establishes: "run_steps bound_steps c = Inr d \<Longrightarrow> valid_bounds d"
  by (auto simp: bound_steps_def step_simps valid_bounds_def)

lemma module_establishes:
  "run_steps (module_steps j) c = Inr d \<Longrightarrow> keepAlive c \<in> set kKeepAliveModes \<Longrightarrow> valid_module d"
  by (auto simp: module_steps_def Let_def step_simps valid_module_def
      dest!: read_host_Inr intro: enum_reader.read_good split: if_splits)

lemma identity_kept:
  assumes "run_steps (backend_read_steps j @ backend_check_steps j @ tuning_steps j @ module_steps j @ bound_steps) c = Inr d"
    and "valid_identity c"
  shows "valid_identity d"
  using assms
  by (rule run_steps_invariant)
     (auto simp: backend_read_steps_def backend_check_steps_def tuning_steps_def module_steps_def
       bound_steps_def Let_def step_simps fill_from_profile_def valid_identity_def
       dest!: read_host_Inr split: option.splits if_splits)

lemma backends_kept:
  assumes "run_steps (tuning_steps j @ module_steps j @ bound_steps) c = Inr d" and "valid_backends c"
  shows "valid_backends d"
  using assms
  by (rule run_steps_invariant)
     (auto simp: tuning_steps_def module_steps_def bound_steps_def Let_def step_simps valid_backends_def
       dest!: read_host_Inr split: if_splits)

lemma module_kept: "run_steps bound_steps c = Inr d \<Longrightarrow> valid_module c \<Longrightarrow> valid_module d"
  by (erule run_steps_invariant)
     (auto simp: bound_steps_def step_simps valid_module_def)

lemma source_kept:
  assumes "run_steps (identity_steps j @ backend_read_steps j) c = Inr d"
    and "beaconSource c \<in> set kBeaconSources"
  shows "beaconSource d \<in> set kBeaconSources"
  using assms
  by (rule run_steps_invariant)
     (auto simp: identity_steps_def backend_read_steps_def step_simps fill_from_profile_def Let_def
       set_kBeaconSources split: option.splits if_splits)

lemma keepAlive_kept:
  assumes "run_steps (identity_steps j @ backend_read_steps j @ backend_check_steps j @ tuning_steps j) c = Inr d"
    and "keepAlive c = m"
  shows "keepAlive d = m"
  using assms
  by (rule run_steps_invariant)
     (auto simp: identity_steps_def backend_read_steps_def backend_check_steps_def tuning_steps_def
       step_simps fill_from_profile_def Let_def split: option.splits if_splits)

text \<open>Every phase together.\<close>

lemma fromJson_valid:
  assumes "fromJson j = Inr c"
  shows "valid_config c"
proof -
  from assms obtain c1 c2 c3 c4 c5 where
    s1: "run_steps (identity_steps j) default_config = Inr c1" and
    s2: "run_steps (backend_read_steps j) c1 = Inr c2" and
    s3: "run_steps (backend_check_steps j) c2 = Inr c3" and
    s4: "run_steps (tuning_steps j) c3 = Inr c4" and
    s5: "run_steps (module_steps j) c4 = Inr c5" and
    s6: "run_steps bound_steps c5 = Inr c"
    by (auto simp: fromJson_def run_steps_append bind_res_Inr split: if_splits)
  have "valid_identity c"
    by (rule identity_kept [of j c1]) (simp_all add: run_steps_append s2 s3 s4 s5 s6 identity_establishes [OF s1])
  moreover have "beaconSource c2 \<in> set kBeaconSources"
    by (rule source_kept [of j default_config])
       (simp add: run_steps_append s1 s2, simp add: default_config_def set_kBeaconSources)
  then have "valid_backends c"
    using backend_check_establishes [OF s3] backends_kept [of j c3 c] by (simp add: run_steps_append s4 s5 s6)
  moreover have "keepAlive c4 = ''interval''"
    by (rule keepAlive_kept [of j default_config])
       (simp add: run_steps_append s1 s2 s3 s4, simp add: default_config_def)
  then have "valid_module c"
    using module_establishes [OF s5] module_kept [OF s6] by (simp add: set_kKeepAliveModes)
  moreover have "valid_bounds c"
    by (rule bound_establishes [OF s6])
  ultimately show ?thesis
    by (simp add: valid_config_def)
qed

section \<open>The unredacted view parses back\<close>

lemma raw_fields:
  "jfield (raw_config c) ''network'' = Some (JStr (network c))"
  "jfield (raw_config c) ''trustedBlockRoot'' = Some (JStr (trustedBlockRoot c))"
  "jfield (raw_config c) ''executionApiUrls'' = Some (JArr (map JStr (executionApiUrls c)))"
  "jfield (raw_config c) ''beaconApiUrls'' = Some (JArr (map JStr (beaconApiUrls c)))"
  "jfield (raw_config c) ''beaconSource'' = Some (JStr (beaconSource c))"
  "jfield (raw_config c) ''opExecutionApiUrls'' = Some (JArr (map JStr (opExecutionApiUrls c)))"
  "jfield (raw_config c) ''privateTxUrls'' = Some (JArr (map JStr (privateTxUrls c)))"
  "jfield (raw_config c) ''archiveUrls'' = Some (JArr (map JStr (archiveUrls c)))"
  "jfield (raw_config c) ''logLevel'' = Some (JStr (logLevel c))"
  "jfield (raw_config c) ''logFormat'' = Some (JStr (logFormat c))"
  "jfield (raw_config c) ''tuning'' = Some (tuning_view c)"
  by (simp_all add: raw_config_def asJson_def json_simps url_view_def)

lemma raw_module_fields:
  "jfield (raw_config c) ''callTimeoutMs'' = Some (JInt (callTimeoutMs c))"
  "jfield (raw_config c) ''queueTimeoutMs'' = Some (JInt (queueTimeoutMs c))"
  "jfield (raw_config c) ''startTimeoutMs'' = Some (JInt (startTimeoutMs c))"
  "jfield (raw_config c) ''drainTimeoutMs'' = Some (JInt (drainTimeoutMs c))"
  "jfield (raw_config c) ''pumpIntervalMs'' = Some (JInt (pumpIntervalMs c))"
  "jfield (raw_config c) ''maxInFlight'' = Some (JInt (maxInFlight c))"
  "jfield (raw_config c) ''keepAlive'' = Some (JStr (keepAlive c))"
  "jfield (raw_config c) ''keepAliveIntervalMs'' = Some (JInt (keepAliveIntervalMs c))"
  "jfield (raw_config c) ''autoStart'' = Some (JBool (autoStart c))"
  "jfield (raw_config c) ''httpServer'' =
     Some (jobj [(''enabled'', JBool (httpEnabled c)), (''host'', JStr (httpHost c)), (''port'', JInt (httpPort c))])"
  by (simp_all add: raw_config_def asJson_def json_simps)

lemma tuning_fields:
  "jfield (tuning_view c) ''maxBlockWalk'' = Some (JInt (maxBlockWalk c))"
  "jfield (tuning_view c) ''maxWindowJumps'' = Some (JInt (maxWindowJumps c))"
  "jfield (tuning_view c) ''parallelBlockDownloads'' = Some (JInt (parallelBlockDownloads c))"
  "jfield (tuning_view c) ''maxLightClientUpdates'' = Some (JInt (maxLightClientUpdates c))"
  "jfield (tuning_view c) ''headerStoreLen'' = Some (JInt (headerStoreLen c))"
  "jfield (tuning_view c) ''storageCacheLen'' = Some (JInt (storageCacheLen c))"
  "jfield (tuning_view c) ''codeCacheLen'' = Some (JInt (codeCacheLen c))"
  "jfield (tuning_view c) ''accountCacheLen'' = Some (JInt (accountCacheLen c))"
  "jfield (tuning_view c) ''syncHeaderStore'' = Some (JBool (syncHeaderStore c))"
  "jfield (tuning_view c) ''freezeAtSlot'' = Some (JInt (freezeAtSlot c))"
  by (simp_all add: tuning_view_def json_simps)

lemma is_object_views [simp]: "is_object (raw_config c)" "is_object (tuning_view c)"
  by (simp_all add: raw_config_def asJson_def tuning_view_def)

lemma readInt_JInt: "jfield j k = Some (JInt v) \<Longrightarrow> readInt j k d = Inr v"
  by (rule int_reader.read_enc) simp_all

lemma readBool_JBool: "jfield j k = Some (JBool v) \<Longrightarrow> readBool j k d = Inr v"
  by (rule bool_reader.read_enc) simp_all

lemma readEnum_JStr: "jfield j k = Some (JStr v) \<Longrightarrow> v \<in> set allowed \<Longrightarrow> readEnum allowed j k d = Inr v"
  by (rule enum_reader.read_enc)

lemmas reader_evals = readInt_JInt readBool_JBool readEnum_JStr readStringList_enc

lemma identity_of_raw:
  "valid_identity c \<Longrightarrow> run_steps (identity_steps (raw_config c)) d = Inr
     (d\<lparr>network := network c, logLevel := logLevel c, logFormat := logFormat c,
        trustedBlockRoot := trustedBlockRoot c\<rparr>)"
  by (simp add: identity_steps_def reader_evals raw_fields read_root_def valid_identity_def)

lemma fill_of_raw: "fill_from_profile (raw_config c) d = Inr d"
  by (simp add: fill_from_profile_def contains_def raw_fields split: option.split)

lemma backend_read_of_raw:
  "executionApiUrls d = [] \<Longrightarrow> beaconApiUrls d = [] \<Longrightarrow> opExecutionApiUrls d = [] \<Longrightarrow>
   privateTxUrls d = [] \<Longrightarrow> archiveUrls d = [] \<Longrightarrow>
   run_steps (backend_read_steps (raw_config c)) d = Inr
     (d\<lparr>executionApiUrls := executionApiUrls c, beaconApiUrls := beaconApiUrls c,
        opExecutionApiUrls := opExecutionApiUrls c, privateTxUrls := privateTxUrls c,
        archiveUrls := archiveUrls c\<rparr>)"
  by (simp add: backend_read_steps_def reader_evals raw_fields fill_of_raw)

lemma validateUrls_good [simp]:
  "list_all good_url us \<Longrightarrow> (required \<longrightarrow> us \<noteq> []) \<Longrightarrow> validateUrls us k required = Inr ()"
  by (simp add: validateUrls_ok list_all_iff)

lemma backend_check_of_raw:
  "valid_backends c \<Longrightarrow> executionApiUrls d = executionApiUrls c \<Longrightarrow> beaconApiUrls d = beaconApiUrls c \<Longrightarrow>
   opExecutionApiUrls d = opExecutionApiUrls c \<Longrightarrow> privateTxUrls d = privateTxUrls c \<Longrightarrow>
   archiveUrls d = archiveUrls c \<Longrightarrow>
   run_steps (backend_check_steps (raw_config c)) d = Inr (d\<lparr>beaconSource := beaconSource c\<rparr>)"
  by (simp add: backend_check_steps_def reader_evals raw_fields valid_backends_def)

lemma tuning_of_raw:
  "run_steps (tuning_steps (raw_config c)) d = Inr
     (d\<lparr>maxBlockWalk := maxBlockWalk c, maxWindowJumps := maxWindowJumps c,
        parallelBlockDownloads := parallelBlockDownloads c, maxLightClientUpdates := maxLightClientUpdates c,
        headerStoreLen := headerStoreLen c, storageCacheLen := storageCacheLen c,
        codeCacheLen := codeCacheLen c, accountCacheLen := accountCacheLen c,
        freezeAtSlot := freezeAtSlot c, syncHeaderStore := syncHeaderStore c\<rparr>)"
  by (simp add: tuning_steps_def value_json_def raw_fields tuning_fields reader_evals)

lemma module_of_raw:
  "valid_module c \<Longrightarrow> run_steps (module_steps (raw_config c)) d = Inr
     (d\<lparr>callTimeoutMs := callTimeoutMs c, queueTimeoutMs := queueTimeoutMs c,
        startTimeoutMs := startTimeoutMs c, drainTimeoutMs := drainTimeoutMs c,
        pumpIntervalMs := pumpIntervalMs c, maxInFlight := maxInFlight c,
        keepAliveIntervalMs := keepAliveIntervalMs c, autoStart := autoStart c, keepAlive := keepAlive c,
        httpEnabled := httpEnabled c, httpPort := httpPort c, httpHost := httpHost c\<rparr>)"
  by (auto simp: module_steps_def value_json_def raw_module_fields reader_evals json_simps
      read_host_def check_port_def valid_module_def)

lemma bounds_of_valid: "valid_bounds c \<Longrightarrow> run_steps bound_steps c = Inr c"
  by (auto simp: bound_steps_def must_be_positive_def valid_bounds_def i64_max_def)

lemma fromJson_raw:
  assumes "valid_config c"
  shows "fromJson (raw_config c) = Inr c"
proof -
  have v: "valid_identity c" "valid_backends c" "valid_module c" "valid_bounds c"
    using assms by (simp_all add: valid_config_def)
  then show ?thesis
    by (cases c) (simp add: fromJson_def run_steps_append identity_of_raw backend_read_of_raw backend_check_of_raw
        tuning_of_raw module_of_raw bounds_of_valid default_config_def)
qed

section \<open>The minimal configuration\<close>

text \<open>The two fields a caller must give, and the configuration they resolve to.\<close>

definition minimal_json :: "string \<Rightarrow> string \<Rightarrow> json" where
  "minimal_json nw r = jobj [(''network'', JStr nw), (''trustedBlockRoot'', JStr r)]"

definition minimal_config :: "NetworkProfile \<Rightarrow> string \<Rightarrow> ProxyConfig" where
  "minimal_config p r = default_config\<lparr>network := np_name p, trustedBlockRoot := r,
     executionApiUrls := [np_executionApiUrl p], beaconApiUrls := [np_beaconApiUrl p]\<rparr>"

lemma profile_cases:
  assumes "networkProfile nw = Some p"
  obtains "nw = ''mainnet''" "p = networkProfiles ! 0" | "nw = ''sepolia''" "p = networkProfiles ! 1"
    | "nw = ''hoodi''" "p = networkProfiles ! 2"
  using assms by (auto simp: networkProfile_def networkProfiles_def split: if_splits)

lemma profile_urls_good:
  "networkProfile nw = Some p \<Longrightarrow> good_url (np_executionApiUrl p) \<and> good_url (np_beaconApiUrl p)"
  by (erule profile_cases) (simp_all add: networkProfiles_def good_url_def schemeOk_def)

lemma read_absent_minimal:
  "jfield (minimal_json nw r) k = None \<Longrightarrow> readInt (minimal_json nw r) k d = Inr d"
  "jfield (minimal_json nw r) k = None \<Longrightarrow> readBool (minimal_json nw r) k b = Inr b"
  "jfield (minimal_json nw r) k = None \<Longrightarrow> readEnum allowed (minimal_json nw r) k s = Inr s"
  "jfield (minimal_json nw r) k = None \<Longrightarrow> readStringList (minimal_json nw r) k us = Inr us"
  by (simp_all add: readInt_def readBool_def readEnum_def readStringList_def nonnull_field_def)

lemma read_empty_object:
  "readInt (JObj []) k d = Inr d" "readBool (JObj []) k b = Inr b"
  by (simp_all add: readInt_def readBool_def nonnull_field_def)

lemma minimal_fields:
  "jfield (minimal_json nw r) k =
     (if k = ''trustedBlockRoot'' then Some (JStr r) else if k = ''network'' then Some (JStr nw) else None)"
  by (simp add: minimal_json_def json_simps)

lemma is_object_minimal: "is_object (minimal_json nw r)"
  by (simp add: minimal_json_def)

lemma identity_of_minimal:
  assumes "networkProfile nw = Some p" "root_ok r"
  shows "run_steps (identity_steps (minimal_json nw r)) default_config
    = Inr (default_config\<lparr>network := nw, trustedBlockRoot := r\<rparr>)"
proof -
  have "nw \<in> set kNetworks" using assms by (auto simp: kNetworks_iff)
  then show ?thesis
    using assms(2)
    by (simp add: identity_steps_def readEnum_JStr read_absent_minimal minimal_fields read_root_def default_config_def)
qed

lemma backends_of_minimal:
  assumes "networkProfile nw = Some p" and c: "c = default_config\<lparr>network := nw, trustedBlockRoot := r\<rparr>"
    and d: "d = c\<lparr>executionApiUrls := [np_executionApiUrl p], beaconApiUrls := [np_beaconApiUrl p]\<rparr>"
  shows "run_steps (backend_read_steps (minimal_json nw r)) c = Inr d"
    and "run_steps (backend_check_steps (minimal_json nw r)) d = Inr d"
proof -
  have "good_url (np_executionApiUrl p)" "good_url (np_beaconApiUrl p)"
    using profile_urls_good [OF assms(1)] by simp_all
  moreover from this have "np_executionApiUrl p \<noteq> []" "np_beaconApiUrl p \<noteq> []"
    using good_url_nonempty by blast+
  ultimately show "run_steps (backend_read_steps (minimal_json nw r)) c = Inr d"
    and "run_steps (backend_check_steps (minimal_json nw r)) d = Inr d"
    using assms(1)
    by (simp_all add: backend_read_steps_def backend_check_steps_def read_absent_minimal minimal_fields
        fill_from_profile_def contains_def c d default_config_def)
qed

lemma knobs_of_minimal:
  assumes "\<not> httpEnabled c"
  shows "run_steps (tuning_steps (minimal_json nw r)) c = Inr c"
    and "run_steps (module_steps (minimal_json nw r)) c = Inr c"
  using assms
  by (simp_all add: tuning_steps_def module_steps_def value_json_def minimal_fields read_absent_minimal
      read_empty_object read_host_def check_port_def)

lemma fromJson_minimal_eval:
  assumes "networkProfile nw = Some p" "root_ok r"
  shows "fromJson (minimal_json nw r) = Inr (minimal_config p r)"
proof -
  let ?c = "default_config\<lparr>network := nw, trustedBlockRoot := r\<rparr>"
  let ?d = "?c\<lparr>executionApiUrls := [np_executionApiUrl p], beaconApiUrls := [np_beaconApiUrl p]\<rparr>"
  have "valid_bounds ?d" "\<not> httpEnabled ?d"
    by (simp_all add: valid_bounds_def default_config_def)
  moreover have "np_name p = nw"
    using networkProfile_Some [OF assms(1)] by simp
  ultimately show ?thesis
    using identity_of_minimal [OF assms] backends_of_minimal [OF assms(1) refl refl, of r]
    by (simp add: fromJson_def run_steps_append minimal_config_def knobs_of_minimal bounds_of_valid
        is_object_minimal)
qed

definition zero_root :: string where
  "zero_root = ''0x'' @ replicate 64 CHR ''0''"

lemma root_ok_zero [simp]: "root_ok zero_root"
  by (simp add: root_ok_def zero_root_def isHex_def list_all_iff)

lemma mainnet_profile: "networkProfile ''mainnet'' = Some (networkProfiles ! 0)"
  by (simp add: networkProfile_def networkProfiles_def)

lemmas fromJson_mainnet = fromJson_minimal_eval [OF mainnet_profile root_ok_zero]

end
