(* ===== verification/Config_Properties.thy ===== *)
theory Config_Properties
  imports Config_Facts
begin

text \<open>
  The properties of the configuration component, each with a concrete instance: what acceptance
  guarantees, what persistence preserves, what the library is handed, what a caller's own URLs
  decide, which field a rejection names, and what the redacted view hides.
\<close>

section \<open>Acceptance\<close>

text \<open>
  C12: A configuration that \<^verbatim>\<open>fromJson\<close> accepts can be handed to the library: the network and the
  log level, whose bad values end the host process, and every other enumeration are whitelisted;
  the trusted root is \<open>0x\<close> and 64 hex digits; at least one execution URL is there, and a beacon URL
  unless the module supplies them; every URL has an accepted scheme and no comma; an enabled
  port is a port; the timeouts and the in-flight ceiling are positive and the heartbeat is no
  faster than one slot.
\<close>

theorem accepted_config_safe:
  assumes "fromJson j = Inr c"
  shows "network c \<in> {''mainnet'', ''sepolia'', ''hoodi''}
    \<and> logLevel c \<in> {''TRACE'', ''DEBUG'', ''INFO'', ''NOTICE'', ''WARN'', ''ERROR'', ''FATAL'', ''NONE''}
    \<and> logFormat c \<in> {''Colors'', ''NoColors'', ''Json'', ''Auto'', ''None''}
    \<and> keepAlive c \<in> {''off'', ''interval'', ''continuous''}
    \<and> (\<exists>ds. trustedBlockRoot c = ''0x'' @ ds \<and> length ds = 64 \<and> list_all isHex ds)
    \<and> executionApiUrls c \<noteq> [] \<and> (beaconSource c = ''module'' \<or> beaconApiUrls c \<noteq> [])
    \<and> (\<forall>u \<in> set (executionApiUrls c @ beaconApiUrls c @ opExecutionApiUrls c @ privateTxUrls c @ archiveUrls c).
          schemeOk u \<and> CHR '','' \<notin> set u)
    \<and> (httpEnabled c \<longrightarrow> 1 \<le> sint (httpPort c) \<and> sint (httpPort c) \<le> 65535)
    \<and> (\<forall>knob \<in> {callTimeoutMs, queueTimeoutMs, startTimeoutMs, maxInFlight, pumpIntervalMs}. 0 < sint (knob c))
    \<and> 12000 \<le> sint (keepAliveIntervalMs c)"
proof -
  have v: "valid_identity c" "valid_backends c" "valid_module c" "valid_bounds c"
    using fromJson_valid [OF assms] by (simp_all add: valid_config_def)
  have "\<exists>ds. trustedBlockRoot c = ''0x'' @ ds \<and> length ds = 64 \<and> list_all isHex ds"
    using v(1) by (auto simp: valid_identity_def root_ok_def prefix_def)
  moreover have "\<forall>u \<in> set (executionApiUrls c @ beaconApiUrls c @ opExecutionApiUrls c @ privateTxUrls c @ archiveUrls c).
      good_url u"
    using v(2) by (simp add: valid_backends_def list_all_iff ball_Un)
  moreover have "beaconSource c = ''module'' \<or> beaconApiUrls c \<noteq> []" "executionApiUrls c \<noteq> []"
    using v(2) by (auto simp: valid_backends_def set_kBeaconSources)
  ultimately show ?thesis
    using v(1,3,4)
    by (simp only: valid_identity_def valid_module_def valid_bounds_def whitelist_sets good_url_def) simp
qed

theorem accepted_config_safe_witness:
  "fromJson (minimal_json ''mainnet'' zero_root) = Inr (minimal_config (networkProfiles ! 0) zero_root)
    \<and> 12000 \<le> sint (keepAliveIntervalMs (minimal_config (networkProfiles ! 0) zero_root))"
  using accepted_config_safe [OF fromJson_mainnet] fromJson_mainnet by blast

text \<open>
  C13: What \<^verbatim>\<open>configure\<close> persists, the unredacted view of an accepted configuration, is accepted
  again when it is loaded and yields exactly the same configuration: a reload changes no endpoint,
  no timeout and no beacon source.
\<close>

theorem config_reload_roundtrip:
  assumes "fromJson j = Inr c"
  shows "fromJson (raw_config c) = Inr c"
  by (rule fromJson_raw [OF fromJson_valid [OF assms]])

theorem config_reload_roundtrip_witness:
  "fromJson (raw_config (minimal_config (networkProfiles ! 0) zero_root))
    = Inr (minimal_config (networkProfiles ! 0) zero_root)"
  by (rule config_reload_roundtrip [OF fromJson_mainnet])

text \<open>
  A supported network and a well-formed trusted root are a whole configuration: the endpoint
  pair comes from the network's own row of the table, the beacon source is the module, and every
  other field is the default.
\<close>

theorem minimal_config_suffices:
  assumes "networkProfile nw = Some p" "root_ok r"
  shows "fromJson (minimal_json nw r) = Inr (minimal_config p r)
    \<and> expectedChainId (minimal_config p r) = np_chainId p
    \<and> beaconSource (minimal_config p r) = ''module''"
  using assms networkProfile_Some [OF assms(1)]
  by (simp add: fromJson_minimal_eval minimal_config_def expectedChainId_def default_config_def)

theorem minimal_config_suffices_witness:
  "fromJson (minimal_json ''hoodi'' zero_root) = Inr (minimal_config (networkProfiles ! 2) zero_root)
    \<and> expectedChainId (minimal_config (networkProfiles ! 2) zero_root) = 560048"
proof -
  have "networkProfile ''hoodi'' = Some (networkProfiles ! 2)"
    by (simp add: networkProfile_def networkProfiles_def)
  from minimal_config_suffices [OF this root_ok_zero] show ?thesis
    by (simp add: networkProfiles_def)
qed

section \<open>What the library is handed\<close>

lemma upstream_field_mandatory:
  "map_of (rev (upstream_fields c)) ''eth2Network'' = Some (JStr (network c))"
  "map_of (rev (upstream_fields c)) ''logLevel'' = Some (JStr (logLevel c))"
  "map_of (rev (upstream_fields c)) ''executionApiUrls'' = Some (JStr (joinCsv (executionApiUrls c)))"
  "map_of (rev (upstream_fields c)) ''beaconApiUrls'' = Some (JStr (joinCsv (beaconApiUrls c)))"
  by (simp_all add: upstream_fields_def)

lemma upstream_field_optional:
  "map_of (rev (upstream_fields c)) ''opExecutionApiUrls'' =
     (if opExecutionApiUrls c = [] then None else Some (JStr (joinCsv (opExecutionApiUrls c))))"
  "map_of (rev (upstream_fields c)) ''privateTxUrls'' =
     (if privateTxUrls c = [] then None else Some (JStr (joinCsv (privateTxUrls c))))"
  "map_of (rev (upstream_fields c)) ''archiveUrls'' =
     (if archiveUrls c = [] then None else Some (JStr (joinCsv (archiveUrls c))))"
  by (simp_all add: upstream_fields_def)

text \<open>
  C37: The configuration text for the library carries the whitelisted network and log level, and
  every URL list as one comma-separated string that splits back into exactly the URLs that were
  validated; the optional lists appear only when they are non-empty.
\<close>

theorem upstream_view_faithful:
  assumes "fromJson j = Inr c"
  shows "\<exists>u. toUpstreamJson dump c = dump u
    \<and> jfield u ''eth2Network'' = Some (JStr (network c)) \<and> network c \<in> set kNetworks
    \<and> jfield u ''logLevel'' = Some (JStr (logLevel c)) \<and> logLevel c \<in> set kLogLevels
    \<and> (\<exists>s. jfield u ''executionApiUrls'' = Some (JStr s) \<and> getlines CHR '','' s = executionApiUrls c)
    \<and> (\<exists>s. jfield u ''beaconApiUrls'' = Some (JStr s) \<and> getlines CHR '','' s = beaconApiUrls c)
    \<and> (\<forall>(k, get) \<in> {(''opExecutionApiUrls'', opExecutionApiUrls), (''privateTxUrls'', privateTxUrls),
                      (''archiveUrls'', archiveUrls)}.
         if get c = [] then jfield u k = None
         else \<exists>s. jfield u k = Some (JStr s) \<and> getlines CHR '','' s = get c)"
proof (intro exI conjI)
  have v: "valid_identity c" "valid_backends c"
    using fromJson_valid [OF assms] by (simp_all add: valid_config_def)
  have csv: "getlines CHR '','' (joinCsv us) = us"
    if "us \<in> {executionApiUrls c, beaconApiUrls c, opExecutionApiUrls c, privateTxUrls c, archiveUrls c}" for us
    using that v(2) by (intro getlines_joinCsv) (auto simp: valid_backends_def list_all_iff)
  show "toUpstreamJson dump c = dump (jobj (upstream_fields c))"
    by (simp add: toUpstreamJson_def)
  show "network c \<in> set kNetworks" "logLevel c \<in> set kLogLevels"
    using v(1) by (simp_all add: valid_identity_def)
  show "jfield (jobj (upstream_fields c)) ''executionApiUrls'' = Some (JStr (joinCsv (executionApiUrls c)))"
    "jfield (jobj (upstream_fields c)) ''beaconApiUrls'' = Some (JStr (joinCsv (beaconApiUrls c)))"
    by (simp_all add: json_simps upstream_field_mandatory)
  show "getlines CHR '','' (joinCsv (executionApiUrls c)) = executionApiUrls c"
    "getlines CHR '','' (joinCsv (beaconApiUrls c)) = beaconApiUrls c"
    using csv by simp_all
  show "\<forall>(k, get) \<in> {(''opExecutionApiUrls'', opExecutionApiUrls), (''privateTxUrls'', privateTxUrls),
        (''archiveUrls'', archiveUrls)}.
      if get c = [] then jfield (jobj (upstream_fields c)) k = None
      else \<exists>s. jfield (jobj (upstream_fields c)) k = Some (JStr s) \<and> getlines CHR '','' s = get c"
    unfolding ball_simps prod.case jfield_jobj upstream_field_optional
    by (intro conjI TrueI) (simp_all add: csv)
qed (simp_all add: json_simps upstream_field_mandatory)

theorem upstream_view_faithful_witness:
  "\<exists>u. jfield u ''eth2Network'' = Some (JStr ''mainnet'')
     \<and> (\<exists>s. jfield u ''executionApiUrls'' = Some (JStr s) \<and> getlines CHR '','' s = [''https://eth.drpc.org''])"
  using upstream_view_faithful [OF fromJson_mainnet, of "\<lambda>_. ''text''"]
  by (elim exE conjE) (intro exI conjI; simp add: minimal_config_def default_config_def networkProfiles_def)

section \<open>The caller's own endpoints\<close>

text \<open>The endpoint lists and the beacon source after the phase that reads them.\<close>

lemma fill_keeps_given:
  assumes "fill_from_profile j c = Inr d" "contains j ''beaconApiUrls''"
  shows "beaconApiUrls d = beaconApiUrls c" "network d = network c"
    and "networkProfile (network c) = Some p \<Longrightarrow> \<not> contains j ''beaconSource'' \<Longrightarrow>
      beaconSource d = (if beaconApiUrls c = [np_beaconApiUrl p] then ''module'' else ''urls'')"
  using assms by (auto simp: fill_from_profile_def Let_def split: option.splits)

lemma backend_read_beacon:
  assumes "run_steps (backend_read_steps j) c = Inr d" "beaconApiUrls c = []" "contains j ''beaconApiUrls''"
  shows "readStringList j ''beaconApiUrls'' [] = Inr (beaconApiUrls d)" "network d = network c"
    and "networkProfile (network c) = Some p \<Longrightarrow> \<not> contains j ''beaconSource'' \<Longrightarrow>
      beaconSource d = (if beaconApiUrls d = [np_beaconApiUrl p] then ''module'' else ''urls'')"
proof -
  from assms(1,2) obtain us es e ops txs ars where
    r: "readStringList j ''beaconApiUrls'' [] = Inr us" and
    f: "fill_from_profile j (c\<lparr>executionApiUrls := es, beaconApiUrls := us\<rparr>) = Inr e" and
    d: "d = e\<lparr>opExecutionApiUrls := ops, privateTxUrls := txs, archiveUrls := ars\<rparr>"
    by (auto simp: backend_read_steps_def bind_res_Inr map_res_Inr)
  show "readStringList j ''beaconApiUrls'' [] = Inr (beaconApiUrls d)" "network d = network c"
    and "networkProfile (network c) = Some p \<Longrightarrow> \<not> contains j ''beaconSource'' \<Longrightarrow>
      beaconSource d = (if beaconApiUrls d = [np_beaconApiUrl p] then ''module'' else ''urls'')"
    using r d fill_keeps_given [OF f assms(3)] by simp_all
qed

lemma later_steps_keep_beacon:
  assumes "run_steps (backend_check_steps j @ tuning_steps j @ module_steps j @ bound_steps) c = Inr d"
  shows "beaconApiUrls d = beaconApiUrls c \<and> network d = network c"
  using assms
  by (rule run_steps_invariant)
     (auto simp: backend_check_steps_def tuning_steps_def module_steps_def bound_steps_def Let_def step_simps
       dest!: read_host_Inr split: if_splits)

lemma later_steps_keep_source:
  assumes "run_steps (backend_check_steps j @ tuning_steps j @ module_steps j @ bound_steps) c = Inr d"
    and "\<not> contains j ''beaconSource''"
  shows "beaconSource d = beaconSource c"
proof -
  have "nonnull_field j ''beaconSource'' = None"
    using assms(2) by (simp add: contains_def nonnull_field_def)
  then show ?thesis
    using assms(1)
    by (elim run_steps_invariant)
       (auto simp: backend_check_steps_def tuning_steps_def module_steps_def bound_steps_def Let_def step_simps
         enum_reader.read_absent dest!: read_host_Inr split: if_splits)
qed

text \<open>
  A caller that names beacon URLs keeps exactly those URLs, and without an explicit source the
  configuration resolves to those URLs unless they are the network's own default, in which case it
  resolves to the beacon module: a hand-set provider is never replaced silently.
\<close>

theorem caller_beacon_urls_win:
  assumes "fromJson j = Inr c" "contains j ''beaconApiUrls''" "\<not> contains j ''beaconSource''"
  shows "readStringList j ''beaconApiUrls'' [] = Inr (beaconApiUrls c)
    \<and> (\<exists>p. networkProfile (network c) = Some p
         \<and> beaconSource c = (if beaconApiUrls c = [np_beaconApiUrl p] then ''module'' else ''urls''))"
proof -
  from assms(1) obtain c1 c2 where
    s1: "run_steps (identity_steps j) default_config = Inr c1" and
    s2: "run_steps (backend_read_steps j) c1 = Inr c2" and
    s3: "run_steps (backend_check_steps j @ tuning_steps j @ module_steps j @ bound_steps) c2 = Inr c"
    by (auto simp: fromJson_def run_steps_append [of "identity_steps j"]
        run_steps_append [of "backend_read_steps j"] bind_res_Inr split: if_splits)
  have "beaconApiUrls c1 = []"
    using s1 by (auto simp: identity_steps_def bind_res_Inr map_res_Inr read_root_Inr default_config_def)
  moreover obtain p where "networkProfile (network c1) = Some p"
    using identity_establishes [OF s1] by (auto simp: valid_identity_def kNetworks_iff)
  ultimately show ?thesis
    using backend_read_beacon [OF s2 _ assms(2)] later_steps_keep_beacon [OF s3]
      later_steps_keep_source [OF s3 assms(3)] assms(3)
    by auto
qed

text \<open>A concrete caller with a beacon URL of its own.\<close>

definition own_json :: json where
  "own_json = jobj [(''network'', JStr ''mainnet''), (''trustedBlockRoot'', JStr zero_root),
     (''beaconApiUrls'', JArr [JStr ''https://beacon.example''])]"

lemma own_fields: "jfield own_json k =
  (if k = ''beaconApiUrls'' then Some (JArr [JStr ''https://beacon.example''])
   else if k = ''trustedBlockRoot'' then Some (JStr zero_root)
   else if k = ''network'' then Some (JStr ''mainnet'') else None)"
  by (simp add: own_json_def json_simps)

lemmas config_eval = readEnum_def readInt_def readBool_def readStringList_def nonnull_field_def
  identity_steps_def backend_read_steps_def backend_check_steps_def tuning_steps_def module_steps_def
  bound_steps_def read_root_def fill_from_profile_def contains_def value_json_def read_host_def
  check_port_def must_be_positive_def default_config_def whitelist_sets networkProfile_def
  networkProfiles_def validateUrls_ok good_url_def schemeOk_def Let_def

lemma own_accepted: "\<exists>c. fromJson own_json = Inr c"
  by (simp add: fromJson_def own_fields config_eval) (simp add: own_json_def)

theorem caller_beacon_urls_win_witness:
  "\<exists>c. fromJson own_json = Inr c \<and> beaconApiUrls c = [''https://beacon.example''] \<and> beaconSource c = ''urls''"
proof -
  obtain c where c: "fromJson own_json = Inr c" using own_accepted by blast
  have given: "contains own_json ''beaconApiUrls''" "\<not> contains own_json ''beaconSource''"
    by (simp_all add: contains_def own_fields)
  have "readStringList own_json ''beaconApiUrls'' [] = Inr [''https://beacon.example'']"
    by (simp add: readStringList_def nonnull_field_def own_fields)
  with caller_beacon_urls_win [OF c given] show ?thesis
    using c by (auto simp: networkProfile_def networkProfiles_def split: if_splits)
qed

section \<open>Rejection\<close>

text \<open>The fields \<^verbatim>\<open>fromJson\<close> reads.\<close>

definition config_keys :: "string list" where
  "config_keys = [''network'', ''logLevel'', ''logFormat'', ''trustedBlockRoot'', ''executionApiUrls'',
     ''beaconApiUrls'', ''opExecutionApiUrls'', ''privateTxUrls'', ''archiveUrls'', ''beaconSource'', ''tuning'',
     ''maxBlockWalk'', ''maxWindowJumps'', ''parallelBlockDownloads'', ''maxLightClientUpdates'', ''headerStoreLen'',
     ''storageCacheLen'', ''codeCacheLen'', ''accountCacheLen'', ''freezeAtSlot'', ''syncHeaderStore'',
     ''callTimeoutMs'', ''queueTimeoutMs'', ''startTimeoutMs'', ''drainTimeoutMs'', ''pumpIntervalMs'',
     ''maxInFlight'', ''keepAliveIntervalMs'', ''autoStart'', ''keepAlive'', ''httpServer'', ''enabled'', ''port'',
     ''httpServer.host'', ''httpServer.port'']"

definition names_field :: "string \<Rightarrow> bool" where
  "names_field e \<longleftrightarrow> list_ex (\<lambda>k. prefix (quoted k) e) config_keys"

lemma names_fieldI: "prefix (quoted k) e \<Longrightarrow> k \<in> set config_keys \<Longrightarrow> names_field e"
  by (auto simp: names_field_def list_ex_iff)

lemma run_steps_Inl: "run_steps fs a = Inl e \<Longrightarrow> \<exists>f \<in> set fs. \<exists>x. f x = Inl e"
proof (induction fs arbitrary: a)
  case (Cons f fs)
  then show ?case by (cases "f a") auto
qed simp

lemma map_res_Inl [simp]: "map_res f m = Inl e \<longleftrightarrow> m = Inl e"
  by (cases m) auto

lemma reader_names:
  "readInt j k d = Inl e \<Longrightarrow> k \<in> set config_keys \<Longrightarrow> names_field e"
  "readBool j k b = Inl e \<Longrightarrow> k \<in> set config_keys \<Longrightarrow> names_field e"
  "readEnum allowed j k s = Inl e \<Longrightarrow> k \<in> set config_keys \<Longrightarrow> names_field e"
  "readStringList j k us = Inl e \<Longrightarrow> k \<in> set config_keys \<Longrightarrow> names_field e"
  "validateUrls us k required = Inl e \<Longrightarrow> k \<in> set config_keys \<Longrightarrow> names_field e"
  by (blast intro: names_fieldI int_reader.read_names bool_reader.read_names enum_reader.read_names
      readStringList_names validateUrls_names)+

lemma quoted_names: "k \<in> set config_keys \<Longrightarrow> names_field (quoted k @ e)"
  by (rule names_fieldI [of k]) simp_all

lemma small_step_names:
  "read_root j c = Inl e \<Longrightarrow> names_field e"
  "read_host http c = Inl e \<Longrightarrow> names_field e"
  "check_port c = Inl e \<Longrightarrow> names_field e"
  "must_be_positive k get c = Inl e \<Longrightarrow> k \<in> set config_keys \<Longrightarrow> names_field e"
  by (auto simp: read_root_def read_host_def check_port_def must_be_positive_def
      config_keys_def intro!: quoted_names split: option.splits json.splits if_splits)

lemma fill_not_Inl [simp]: "fill_from_profile j c \<noteq> Inl e"
  using fill_from_profile_Inr [of j c] by auto

text \<open>
  Every rejection is specific: it either says that the configuration is not an object or opens
  with the quoted name of one of the fields that were read.
\<close>

theorem rejection_names_field:
  assumes "fromJson j = Inl e"
  shows "e = ''config must be a JSON object'' \<or> names_field e"
proof (cases "is_object j")
  case True
  with assms obtain f x where
    "f \<in> set (identity_steps j @ backend_read_steps j @ backend_check_steps j @ tuning_steps j @ module_steps j @ bound_steps)"
    and "f x = Inl e"
    by (auto simp: fromJson_def dest: run_steps_Inl)
  then have "names_field e"
    unfolding identity_steps_def backend_read_steps_def backend_check_steps_def tuning_steps_def
      module_steps_def bound_steps_def Let_def set_append set_simps Un_iff insert_iff empty_iff
    by (elim disjE)
       (auto simp: config_keys_def intro: reader_names small_step_names quoted_names split: if_splits)
  then show ?thesis ..
qed (use assms in \<open>simp add: fromJson_def\<close>)

theorem rejection_names_field_witness:
  "\<exists>e. fromJson (jobj [(''network'', JStr ''goerli'')]) = Inl e \<and> names_field e"
proof -
  obtain e where e: "fromJson (jobj [(''network'', JStr ''goerli'')]) = Inl e"
    "e \<noteq> ''config must be a JSON object''"
    by (simp add: fromJson_def config_eval json_simps quoted_def)
  with rejection_names_field show ?thesis by blast
qed

end
