(* ===== verification/Redaction_Properties.thy ===== *)
theory Redaction_Properties
  imports Config_Facts
begin

text \<open>
  What the redacted view hides, what it still shows, and the migration of a persisted retired
  default.
\<close>

section \<open>Redaction of one URL\<close>

text \<open>The two halves of \<^verbatim>\<open>redactUrl\<close> after the scheme: user information, then query and path.\<close>

definition drop_userinfo :: "string \<Rightarrow> string" where
  "drop_userinfo r = (case find_char CHR ''@'' r of None \<Rightarrow> r | Some a \<Rightarrow> drop (a + 1) r)"

definition redact_tail :: "string \<Rightarrow> string" where
  "redact_tail r =
     (let r2 = (case find_char CHR ''?'' r of None \<Rightarrow> r | Some q \<Rightarrow> take q r @ ''?<redacted>'')
      in case find_char CHR ''/'' r2 of None \<Rightarrow> r2 | Some slash \<Rightarrow> take slash r2 @ ''/<redacted>'')"

lemma find_str_at:
  "CHR '':'' \<notin> set s \<Longrightarrow> find_str ''://'' (s @ CHR '':'' # CHR ''/'' # CHR ''/'' # r) = Some (length s)"
  by (induction s) auto

lemma redactUrl_split:
  "CHR '':'' \<notin> set s \<Longrightarrow> redactUrl (s @ ''://'' @ r) = s @ ''://'' @ redact_tail (drop_userinfo r)"
  by (simp add: redactUrl_def redact_tail_def drop_userinfo_def Let_def find_str_at split: option.split)

text \<open>The marker that stands for everything after the host.\<close>

fun tail_marker :: "string \<Rightarrow> string" where
  "tail_marker [] = []"
| "tail_marker (c # cs) = (if c = CHR ''/'' then ''/<redacted>'' else ''?<redacted>'')"

lemma redact_tail_host:
  assumes "CHR ''/'' \<notin> set h" "CHR ''?'' \<notin> set h" "t = [] \<or> hd t = CHR ''/'' \<or> hd t = CHR ''?''"
  shows "redact_tail (h @ t) = h @ tail_marker t"
proof -
  consider "t = []" | u where "t = CHR ''/'' # u" | u where "t = CHR ''?'' # u"
    using assms(3) by (cases t) auto
  then show ?thesis
  proof cases
    case 1
    then show ?thesis
      using assms by (simp add: redact_tail_def find_char_None [THEN iffD2])
  next
    case 2
    have "find_char CHR ''/'' (h @ CHR ''/'' # w) = Some (length h)" for w
      by (rule find_char_append [OF assms(1)])
    then show ?thesis
      using 2 find_char_append_notin [OF assms(2), of "CHR ''/'' # u"]
      by (simp add: redact_tail_def Let_def split: option.split)
  next
    case 3
    have "find_char CHR ''?'' (h @ CHR ''?'' # w) = Some (length h)" for w
      by (rule find_char_append [OF assms(2)])
    moreover have "find_char CHR ''/'' (h @ ''?<redacted>'') = None"
      using assms(1) by (simp only: find_char_None) simp
    ultimately show ?thesis
      using 3 by (simp add: redact_tail_def Let_def)
  qed
qed

lemma drop_userinfo_none: "CHR ''@'' \<notin> set r \<Longrightarrow> drop_userinfo r = r"
  by (simp add: drop_userinfo_def find_char_None [THEN iffD2])

lemma drop_userinfo_at: "CHR ''@'' \<notin> set u \<Longrightarrow> drop_userinfo (u @ CHR ''@'' # r) = r"
  by (simp add: drop_userinfo_def find_char_append)



text \<open>
  An \<open>@\<close> after the authority is taken for the end of user information: a URL whose path holds
  one is shown from that point on, so what follows the \<open>@\<close> is disclosed and the host is lost.
\<close>

theorem redactUrl_at_in_path:
  assumes "CHR '':'' \<notin> set s" "CHR ''@'' \<notin> set (h @ ''/'' @ key)"
    and "CHR ''/'' \<notin> set secret" "CHR ''?'' \<notin> set secret"
  shows "redactUrl (s @ ''://'' @ h @ ''/'' @ key @ ''@'' @ secret) = s @ ''://'' @ secret"
proof -
  have "drop_userinfo (h @ ''/'' @ key @ ''@'' @ secret) = secret"
    using drop_userinfo_at [OF assms(2), of secret] by simp
  moreover have "redact_tail secret = secret"
    using redact_tail_host [OF assms(3,4), of "[]"] by simp
  ultimately show ?thesis
    by (simp only: redactUrl_split [OF assms(1)])
qed

theorem redactUrl_at_in_path_witness:
  "redactUrl (''https'' @ ''://'' @ ''rpc.example'' @ ''/'' @ ''v2'' @ ''@'' @ ''SECRET'') = ''https'' @ ''://'' @ ''SECRET''"
  by (rule redactUrl_at_in_path) simp_all

section \<open>The redacted view\<close>

definition url_keys :: "string list" where
  "url_keys = [''executionApiUrls'', ''beaconApiUrls'', ''opExecutionApiUrls'', ''privateTxUrls'', ''archiveUrls'']"

lemma redactedUrls_alt: "redactedUrls us = JArr (map JStr (map redactUrl us))"
  by (simp add: redactedUrls_def)

lemma redacted_other_field:
  "k \<notin> set url_keys \<Longrightarrow> jfield (redacted_config c) k = jfield (raw_config c) k"
  by (simp add: redacted_config_def raw_config_def asJson_def json_simps url_keys_def)

text \<open>
  The redacted view is the unredacted one with every URL replaced by its redacted form: the
  other fields are unchanged, and two configurations whose URLs redact to the same text are
  indistinguishable through it.
\<close>

theorem redacted_view_noninterference:
  assumes "map redactUrl ex = map redactUrl ex'" "map redactUrl be = map redactUrl be'"
    "map redactUrl opx = map redactUrl opx'" "map redactUrl tx = map redactUrl tx'"
    "map redactUrl ar = map redactUrl ar'"
  shows "redacted_config (c\<lparr>executionApiUrls := ex, beaconApiUrls := be, opExecutionApiUrls := opx,
           privateTxUrls := tx, archiveUrls := ar\<rparr>)
         = redacted_config (c\<lparr>executionApiUrls := ex', beaconApiUrls := be', opExecutionApiUrls := opx',
           privateTxUrls := tx', archiveUrls := ar'\<rparr>)
       \<and> (\<forall>k. k \<notin> set url_keys \<longrightarrow> jfield (redacted_config c) k = jfield (raw_config c) k)"
  using assms
  by (simp add: redacted_other_field)
     (simp add: redacted_config_def asJson_def json_simps url_view_def tuning_view_def expectedChainId_def
       redactedUrls_alt del: map_map list.map_comp map_eq_conv)

theorem redacted_view_noninterference_witness:
  "redacted_config (default_config\<lparr>executionApiUrls := [''https://a.example/KEY1''], beaconApiUrls := [],
     opExecutionApiUrls := [], privateTxUrls := [], archiveUrls := []\<rparr>)
   = redacted_config (default_config\<lparr>executionApiUrls := [''https://a.example/KEY2''], beaconApiUrls := [],
     opExecutionApiUrls := [], privateTxUrls := [], archiveUrls := []\<rparr>)"
  by (rule redacted_view_noninterference [THEN conjunct1]) (simp_all add: redactUrl_def Let_def)

section \<open>Migration\<close>

lemma migrate_scan_retired:
  "migrate_scan retired nw only =
     (if nw = ''sepolia'' \<and> only = ''https://ethereum-sepolia-rpc.publicnode.com''
      then Some ''https://rpc.sepolia.ethpandaops.io'' else None)"
  by (simp add: retired_def networkProfile_def networkProfiles_def)

text \<open>
  A persisted object is rewritten only when its network is sepolia and its whole execution
  list is the retired default; then exactly that field changes, to the current default, and a
  second migration finds nothing to do.
\<close>

theorem migration_precise:
  assumes "migrateRetiredDefaults p = Inr (q, changed)"
  shows "if changed
    then jfield p ''network'' = Some (JStr ''sepolia'')
      \<and> (\<exists>v. jfield p ''executionApiUrls'' = Some v \<and> only_url v = ''https://ethereum-sepolia-rpc.publicnode.com'')
      \<and> (\<forall>k. jfield q k = (if k = ''executionApiUrls'' then Some (JArr [JStr ''https://rpc.sepolia.ethpandaops.io''])
                           else jfield p k))
      \<and> migrateRetiredDefaults q = Inr (q, False)
    else q = p"
proof (cases "jfield p ''executionApiUrls''")
  case None
  with assms show ?thesis by (simp add: migrateRetiredDefaults_def)
next
  case (Some v)
  then have obj: "is_object p" by (cases p) simp_all
  show ?thesis
  proof (cases "jfield p ''network'' = Some (JStr ''sepolia'') \<and> only_url v = ''https://ethereum-sepolia-rpc.publicnode.com''")
    case True
    with assms Some have q: "q = jput p ''executionApiUrls'' (JArr [JStr ''https://rpc.sepolia.ethpandaops.io''])"
      and changed
      by (auto simp: migrateRetiredDefaults_def value_string_def migrate_scan_retired)
    then show ?thesis
      using True Some obj
      by (simp add: jfield_jput migrateRetiredDefaults_def value_string_def migrate_scan_retired)
  next
    case False
    with assms Some have "q = p" "\<not> changed"
      by (auto simp: migrateRetiredDefaults_def value_string_def migrate_scan_retired
          split: option.splits json.splits if_splits)
    then show ?thesis by simp
  qed
qed

theorem migration_precise_witness:
  "\<exists>q. migrateRetiredDefaults (jobj [(''network'', JStr ''sepolia''),
       (''executionApiUrls'', JArr [JStr ''https://ethereum-sepolia-rpc.publicnode.com''])]) = Inr (q, True)
     \<and> migrateRetiredDefaults q = Inr (q, False)"
proof -
  let ?p = "jobj [(''network'', JStr ''sepolia''),
       (''executionApiUrls'', JArr [JStr ''https://ethereum-sepolia-rpc.publicnode.com''])]"
  obtain q where q: "migrateRetiredDefaults ?p = Inr (q, True)"
    by (simp add: migrateRetiredDefaults_def value_string_def migrate_scan_retired json_simps)
  with migration_precise [OF q] show ?thesis by auto
qed

end
