(* ===== verification/Beacon_Sources.thy ===== *)
theory Beacon_Sources
  imports Config_Readers
begin

text \<open>
  Where beacon data comes from: the provider list of the beacon module
  (\<^verbatim>\<open>beaconUrlsFromModule\<close> in \<^verbatim>\<open>src/proxy_config.cpp\<close> and the bridge in
  \<^verbatim>\<open>src/beacon_bridge_module.cpp\<close>), and the one-shot HTTP client of \<^verbatim>\<open>src/beacon_client.cpp\<close> with
  the \<^verbatim>\<open>fetchFinalizedRoot\<close> operation built on it. The remote module, the HTTP transfer and the JSON
  parser are arguments.
\<close>

section \<open>Provider lists\<close>

text \<open>\<^verbatim>\<open>json::parse(raw, nullptr, false)\<close>: a text that does not parse is a discarded value, \<^term>\<open>None\<close>.\<close>

definition parse_discard :: "(string \<Rightarrow> string + json) \<Rightarrow> string \<Rightarrow> json option" where
  "parse_discard parse s = (case parse s of Inl _ \<Rightarrow> None | Inr v \<Rightarrow> Some v)"

text \<open>One turn of the provider loop: whether the element contributes a URL, or an exception.\<close>

definition provider_url :: "json \<Rightarrow> exn + string option" where
  "provider_url p =
     (if \<not> is_object p then Inr None
      else map_res (\<lambda>enabled. if enabled
                     then (case jfield p ''endpoint'' of Some (JStr u) \<Rightarrow> Some u | _ \<Rightarrow> None)
                     else None)
             (value_bool p ''enabled'' False))"

fun provider_urls :: "json list \<Rightarrow> exn + string list" where
  "provider_urls [] = Inr []"
| "provider_urls (p # ps) =
     bind_res (provider_url p) (\<lambda>u.
       map_res (\<lambda>us. (case u of None \<Rightarrow> us | Some x \<Rightarrow> x # us)) (provider_urls ps))"

definition proxied :: "json \<Rightarrow> exn + bool" where
  "proxied c = map_res (\<lambda>b. b \<or> (case jfield c ''proxy'' of Some (JStr s) \<Rightarrow> s \<noteq> [] | _ \<Rightarrow> False))
     (value_bool c ''proxyRequired'' False)"

definition urls_of_config :: "json \<Rightarrow> exn + string list res" where
  "urls_of_config c =
     bind_res (proxied c) (\<lambda>px.
       if px then Inr (Inl ''this chain is set to go through a proxy there, which the verified proxy cannot use'')
       else bind_res (provider_urls (jitems (value_json c ''providers'' (JArr [])))) (\<lambda>urls.
         if urls = [] then Inr (Inl ''no enabled provider for this chain'')
         else Inr (map_res (\<lambda>_. urls) (validateUrls urls ''beacon_api_module provider'' True))))"

definition beaconUrlsFromModule :: "json option \<Rightarrow> exn + string list res" where
  "beaconUrlsFromModule answer =
     (case answer of
        None \<Rightarrow> Inr (Inl ''malformed answer'')
      | Some a \<Rightarrow>
          if \<not> is_object a then Inr (Inl ''malformed answer'')
          else bind_res (value_bool a ''ok'' False) (\<lambda>ok.
            case jfield a ''config'' of
              Some (JObj kvs) \<Rightarrow>
                if ok then urls_of_config (JObj kvs)
                else map_res Inl (value_string a ''error'' ''malformed answer'')
            | _ \<Rightarrow> map_res Inl (value_string a ''error'' ''malformed answer'')))"

section \<open>The bridge\<close>

record CallError =
  ce_code :: string
  ce_message :: string

definition describe :: "CallError \<Rightarrow> string" where
  "describe e = (if ce_message e = [] then ce_code e else ce_code e @ '': '' @ ce_message e)"

text \<open>The beacon module as the bridge calls it: the error of each call, if any, and the second call's text.\<close>

record beacon_module =
  bm_init_defaults :: "CallError option"
  bm_get_config :: "i64 \<Rightarrow> CallError option \<times> string"

definition bridge_urls :: "(string \<Rightarrow> string + json) \<Rightarrow> beacon_module \<Rightarrow> i64 \<Rightarrow> exn + string list res" where
  "bridge_urls parse m chainId =
     (case bm_init_defaults m of
        Some e \<Rightarrow> Inr (Inl (''beacon_api_module is unreachable ('' @ describe e @ '')''))
      | None \<Rightarrow>
          (case bm_get_config m chainId of
             (Some e, _) \<Rightarrow> Inr (Inl (''beacon_api_module is unreachable ('' @ describe e @ '')''))
           | (None, text) \<Rightarrow>
               map_res (\<lambda>r. case r of
                   Inl err \<Rightarrow> Inl (''beacon_api_module, chain '' @ to_string (sint chainId) @ '': '' @ err)
                 | Inr urls \<Rightarrow> Inr urls)
                 (beaconUrlsFromModule (parse_discard parse text))))"

section \<open>The one-shot HTTP client\<close>

fun find_first_not_of :: "char list \<Rightarrow> string \<Rightarrow> nat option" where
  "find_first_not_of cs [] = None"
| "find_first_not_of cs (x # xs) = (if x \<notin> set cs then Some 0 else map_option Suc (find_first_not_of cs xs))"

definition find_last_not_of :: "char list \<Rightarrow> string \<Rightarrow> nat option" where
  "find_last_not_of cs s = map_option (\<lambda>i. length s - 1 - i) (find_first_not_of cs (rev s))"

definition blanks :: string where
  "blanks = [CHR '' '', CHR 0x09, CHR 0x0D, CHR 0x0A]"

definition trim :: "string \<Rightarrow> string" where
  "trim s =
     (case find_first_not_of blanks s of
        None \<Rightarrow> []
      | Some b \<Rightarrow> (case find_last_not_of blanks s of
                    None \<Rightarrow> []
                  | Some e \<Rightarrow> take (e - b + 1) (drop b s)))"

definition isHttpUrl :: "string \<Rightarrow> bool" where
  "isHttpUrl url \<longleftrightarrow> prefix ''http://'' url \<or> prefix ''https://'' url"

function pop_slashes :: "string \<Rightarrow> string" where
  "pop_slashes b = (if b \<noteq> [] \<and> last b = CHR ''/'' then pop_slashes (butlast b) else b)"
  by pat_completeness auto
termination
  by (relation "measure length") auto

declare pop_slashes.simps [simp del]

definition finalizedHeaderUrl :: "string \<Rightarrow> string" where
  "finalizedHeaderUrl base = pop_slashes base @ ''/eth/v1/beacon/headers/finalized''"

text \<open>The root and the slot text; an empty root is a payload of another shape.\<close>

definition object_field :: "json \<Rightarrow> string \<Rightarrow> json option" where
  "object_field j k = (case jfield j k of Some (JObj kvs) \<Rightarrow> Some (JObj kvs) | _ \<Rightarrow> None)"

definition slot_of :: "json \<Rightarrow> string" where
  "slot_of data =
     (case Option.bind (object_field data ''header'') (\<lambda>h. object_field h ''message'') of
        None \<Rightarrow> []
      | Some m \<Rightarrow> (case jfield m ''slot'' of Some (JStr s) \<Rightarrow> s | _ \<Rightarrow> []))"

definition parseFinalizedRoot :: "(string \<Rightarrow> string + json) \<Rightarrow> string \<Rightarrow> string \<times> string" where
  "parseFinalizedRoot parse body =
     (case parse_discard parse body of
        None \<Rightarrow> ([], [])
      | Some doc \<Rightarrow>
          (case object_field doc ''data'' of
             None \<Rightarrow> ([], [])
           | Some data \<Rightarrow>
               (case jfield data ''root'' of Some (JStr r) \<Rightarrow> (r, slot_of data) | _ \<Rightarrow> ([], []))))"

record HttpResponse =
  http_status :: int
  http_body :: string
  http_error :: string

text \<open>
  The transfer. What \<^verbatim>\<open>libcurl\<close> does is an argument: whether it gives a handle, and for a URL the
  pieces of the body it delivers, also before it fails, the text of its error and the response code.
\<close>

record curl =
  cu_handle :: bool
  cu_chunks :: "string \<Rightarrow> string list"
  cu_error :: "string \<Rightarrow> string option"
  cu_code :: "string \<Rightarrow> int"

definition appendBody :: "string \<Rightarrow> string \<Rightarrow> string" where
  "appendBody body chunk = body @ chunk"

definition httpGet :: "curl \<Rightarrow> string \<Rightarrow> HttpResponse" where
  "httpGet cu url =
     (let out = \<lparr>http_status = 0, http_body = [], http_error = []\<rparr> in
      if \<not> cu_handle cu then out\<lparr>http_error := ''could not initialise HTTP client''\<rparr>
      else
        let out1 = out\<lparr>http_body := foldl appendBody (http_body out) (cu_chunks cu url)\<rparr>
        in case cu_error cu url of
             Some e \<Rightarrow> out1\<lparr>http_error := e\<rparr>
           | None \<Rightarrow> out1\<lparr>http_status := cu_code cu url\<rparr>)"

lemma foldl_appendBody: "foldl appendBody body chunks = body @ concat chunks"
  by (induction chunks arbitrary: body) (simp_all add: appendBody_def)

text \<open>A response of status 200 is a whole body: the transfer did not fail.\<close>

lemma httpGet_ok:
  assumes "http_error (httpGet cu url) = []" "http_status (httpGet cu url) \<noteq> 0"
  shows "cu_handle cu" "cu_error cu url = None" "http_status (httpGet cu url) = cu_code cu url"
    "http_body (httpGet cu url) = concat (cu_chunks cu url)"
  using assms by (auto simp: httpGet_def Let_def foldl_appendBody split: if_splits option.splits)

text \<open>\<^verbatim>\<open>fetchFinalizedRoot\<close>: the result, and the URLs requested on the way.\<close>

definition fetchFinalizedRoot ::
  "curl \<Rightarrow> (string \<Rightarrow> string + json) \<Rightarrow> string \<Rightarrow> StdLogosResult \<times> string list" where
  "fetchFinalizedRoot cu parse beaconUrl =
     (let base = trim beaconUrl in
      if base = [] then (fail_result ''beacon URL is required'', [])
      else if \<not> isHttpUrl base then (fail_result (''beacon URL must be http(s): '' @ base), [])
      else
        let url = finalizedHeaderUrl base; res = httpGet cu url in
        if http_error res \<noteq> [] then (fail_result (''beacon request failed: '' @ http_error res), [url])
        else if http_status res \<noteq> 200
        then (fail_result (''beacon returned HTTP '' @ to_string (http_status res)), [url])
        else
          let (root, slot) = parseFinalizedRoot parse (http_body res) in
          if root = [] then (fail_result ''beacon response did not contain data.root'', [url])
          else (ok_result (jobj [(''root'', JStr root), (''slot'', JStr slot), (''source'', JStr url)]), [url]))"

section \<open>The bridge's contract\<close>

text \<open>
  The interface \<^verbatim>\<open>BeaconBridge\<close>: when it returns, either there are URLs the library accepts, or
  there are none and the reason is not empty.
\<close>

locale beacon_bridge =
  fixes urls :: "i64 \<Rightarrow> exn + string list res"
  assumes urls_good: "urls chain = Inr (Inr us) \<Longrightarrow> us \<noteq> [] \<and> (\<forall>u \<in> set us. good_url u)"
    and urls_reason: "urls chain = Inr (Inl e) \<Longrightarrow> e \<noteq> []"
begin

lemma urls_split: "urls chain = Inr (Inr us) \<Longrightarrow> getlines CHR '','' (joinCsv us) = us"
  using urls_good getlines_joinCsv by blast

end

lemma urls_of_config_good:
  "urls_of_config c = Inr (Inr us) \<Longrightarrow> us \<noteq> [] \<and> (\<forall>u \<in> set us. good_url u)"
  by (auto simp: urls_of_config_def bind_res_Inr map_res_Inr validateUrls_ok split: if_splits)

lemma urls_from_answer:
  assumes "beaconUrlsFromModule answer = Inr (Inr us)"
  shows "\<exists>a c. answer = Some a \<and> jfield a ''ok'' = Some (JBool True) \<and> jfield a ''config'' = Some c
       \<and> is_object c \<and> urls_of_config c = Inr (Inr us)"
proof -
  from assms obtain a ok where a: "answer = Some a" "value_bool a ''ok'' False = Inr ok"
    by (auto simp: beaconUrlsFromModule_def bind_res_Inr split: option.splits if_splits)
  have err: "map_res Inl m \<noteq> Inr (Inr us)" for m :: "exn + string"
    by (cases m) simp_all
  from assms a err obtain kvs where c: "jfield a ''config'' = Some (JObj kvs)" "ok"
      "urls_of_config (JObj kvs) = Inr (Inr us)"
    by (cases "jfield a ''config''"; cases "the (jfield a ''config'')")
       (simp_all add: beaconUrlsFromModule_def split: if_splits)
  moreover from a c(2) have "jfield a ''ok'' = Some (JBool True)"
    by (auto simp: value_bool_def split: option.splits json.splits)
  ultimately show ?thesis using a(1) by auto
qed

lemma relabel_error_Inr:
  "(case r of Inl err \<Rightarrow> Inl (f err) | Inr u \<Rightarrow> Inr u) = Inr us \<longleftrightarrow> r = Inr us"
  "(case r of Inl err \<Rightarrow> Inl (f err) | Inr u \<Rightarrow> Inr u) = Inl e \<longleftrightarrow> (\<exists>x. r = Inl x \<and> f x = e)"
  by (cases r; auto)+

lemma bridge_urls_Inr:
  "bridge_urls parse m chain = Inr (Inr us) \<longleftrightarrow>
     bm_init_defaults m = None \<and> (\<exists>body. bm_get_config m chain = (None, body)
       \<and> beaconUrlsFromModule (parse_discard parse body) = Inr (Inr us))"
  by (auto simp: bridge_urls_def map_res_Inr relabel_error_Inr split: option.splits prod.splits)

interpretation module_bridge: beacon_bridge "bridge_urls parse m" for parse m
proof
  fix chain us
  assume "bridge_urls parse m chain = Inr (Inr us)"
  then show "us \<noteq> [] \<and> (\<forall>u \<in> set us. good_url u)"
    using urls_from_answer urls_of_config_good by (metis bridge_urls_Inr)
next
  fix chain e
  assume "bridge_urls parse m chain = Inr (Inl e)"
  then show "e \<noteq> []"
    by (auto simp: bridge_urls_def map_res_Inr relabel_error_Inr split: option.splits prod.splits)
qed

section \<open>Properties\<close>

text \<open>The text endpoint of an enabled provider; the enabled endpoints of a list, in order.\<close>

definition endpoint_if_enabled :: "json \<Rightarrow> string option" where
  "endpoint_if_enabled p =
     (if jfield p ''enabled'' = Some (JBool True)
      then (case jfield p ''endpoint'' of Some (JStr u) \<Rightarrow> Some u | _ \<Rightarrow> None) else None)"

definition enabled_endpoints :: "json list \<Rightarrow> string list" where
  "enabled_endpoints ps = List.map_filter endpoint_if_enabled ps"

lemma provider_url_Inr: "provider_url p = Inr u \<Longrightarrow> u = endpoint_if_enabled p"
  by (cases p)
     (auto simp: provider_url_def map_res_Inr value_bool_def endpoint_if_enabled_def split: option.splits json.splits)

lemma provider_urls_Inr: "provider_urls ps = Inr us \<Longrightarrow> us = enabled_endpoints ps"
  by (induction ps arbitrary: us)
     (auto simp: enabled_endpoints_def map_filter_simps bind_res_Inr map_res_Inr dest!: provider_url_Inr)


definition one_provider :: json where
  "one_provider = jobj [(''ok'', JBool True), (''config'', jobj [(''providers'',
     JArr [jobj [(''enabled'', JBool False), (''endpoint'', JStr ''https://off.example'')],
           jobj [(''enabled'', JBool True), (''endpoint'', JStr ''https://on.example'')]])])]"


text \<open>
  An answer whose \<^verbatim>\<open>ok\<close> field is present with a type other than a boolean is not reported as
  malformed: the lookup throws, whatever else the answer holds.
\<close>

theorem mistyped_ok_throws:
  assumes "jfield a ''ok'' = Some v" "\<forall>b. v \<noteq> JBool b"
  shows "beaconUrlsFromModule (Some a) = Inl TypeError"
proof -
  have "is_object a" using assms(1) by (cases a) simp_all
  with assms show ?thesis
    by (auto simp: beaconUrlsFromModule_def value_bool_def split: json.splits)
qed

theorem mistyped_ok_throws_witness:
  "beaconUrlsFromModule (Some (jobj [(''ok'', JStr ''yes'')])) = Inl TypeError"
  by (rule mistyped_ok_throws [of _ "JStr ''yes''"]) (simp_all add: json_simps)

lemma first_not_of_dropWhile:
  "find_first_not_of cs s = (if dropWhile (\<lambda>c. c \<in> set cs) s = [] then None
     else Some (length (takeWhile (\<lambda>c. c \<in> set cs) s)))"
  by (induction s) auto

lemma trim_alt:
  "trim s = rev (dropWhile (\<lambda>c. c \<in> set blanks) (rev (dropWhile (\<lambda>c. c \<in> set blanks) s)))"
proof (cases "dropWhile (\<lambda>c. c \<in> set blanks) s")
  case Nil
  then show ?thesis by (simp only: trim_def first_not_of_dropWhile) simp
next
  case (Cons x xs)
  define P where "P = (\<lambda>c. c \<in> set blanks)"
  define body where "body = dropWhile P s"
  have body: "body \<noteq> []" "\<not> P (hd body)"
    using Cons hd_dropWhile [of P s] by (simp_all only: body_def P_def) simp_all
  have s: "s = takeWhile P s @ body" by (simp add: body_def)
  have nb: "dropWhile P (rev body) \<noteq> []"
    using body by (auto simp: dropWhile_eq_Nil_conv)
  have rs: "takeWhile P (rev s) = takeWhile P (rev body)" "dropWhile P (rev s) \<noteq> []"
  proof -
    have "rev s = rev body @ rev (takeWhile P s)"
      by (metis s rev_append)
    moreover have "hd body \<in> set (rev body)" using body by simp
    ultimately show "takeWhile P (rev s) = takeWhile P (rev body)" "dropWhile P (rev s) \<noteq> []"
      using body(2) nb by (metis takeWhile_append1, metis dropWhile_append1 append_is_Nil_conv)
  qed
  have len: "length (takeWhile P (rev body)) + length (dropWhile P (rev body)) = length body"
    by (metis length_append length_rev takeWhile_dropWhile_id)
  have lens: "length s = length (takeWhile P s) + length body"
    by (metis s length_append)
  have "take (length (dropWhile P (rev body))) body = rev (dropWhile P (rev body))"
    by (metis rev_append rev_rev_ident append_eq_conv_conj length_rev takeWhile_dropWhile_id)
  moreover have "drop (length (takeWhile P s)) s = body"
    by (metis s append_eq_conv_conj)
  moreover have "0 < length (dropWhile P (rev body))" using nb by simp
  moreover have "find_first_not_of blanks s = Some (length (takeWhile P s))"
    using body(1) by (simp only: first_not_of_dropWhile body_def P_def if_False)
  moreover have "find_last_not_of blanks s = Some (length s - 1 - length (takeWhile P (rev body)))"
    using rs by (simp only: find_last_not_of_def first_not_of_dropWhile flip: P_def) simp
  moreover have "length s - 1 - length (takeWhile P (rev body)) - length (takeWhile P s) + 1
      = length (dropWhile P (rev body))"
    using len lens \<open>0 < length (dropWhile P (rev body))\<close> by linarith
  ultimately have "trim s = rev (dropWhile P (rev body))"
    by (simp only: trim_def option.case)
  then show ?thesis by (simp only: body_def P_def)
qed

lemma pop_slashes_append: "pop_slashes (b @ replicate n CHR ''/'') = pop_slashes b"
proof (induction n)
  case (Suc n)
  have "b @ replicate (Suc n) CHR ''/'' = (b @ replicate n CHR ''/'') @ [CHR ''/'']"
    by (simp add: replicate_append_same)
  moreover have "pop_slashes (w @ [CHR ''/'']) = pop_slashes w" for w
    by (simp add: pop_slashes.simps [of "w @ [CHR ''/'']"])
  ultimately have "pop_slashes (b @ replicate (Suc n) CHR ''/'') = pop_slashes (b @ replicate n CHR ''/'')"
    by (simp only:)
  with Suc.IH show ?case by simp
qed simp

lemma pop_slashes_no_slash: "pop_slashes b \<noteq> w @ [CHR ''/'']"
proof (induction b rule: pop_slashes.induct)
  case (1 b)
  then show ?case by (subst pop_slashes.simps) auto
qed

text \<open>
  The address asked for the finalized header does not depend on trailing slashes of the base
  and joins base and path with exactly one; and white space around the operator's input is
  stripped, and only there.
\<close>

theorem finalized_url_shape:
  "finalizedHeaderUrl (b @ replicate n CHR ''/'') = finalizedHeaderUrl b
   \<and> (\<exists>stem. finalizedHeaderUrl b = stem @ ''/eth/v1/beacon/headers/finalized'' \<and> \<not> suffix ''/'' stem)
   \<and> trim s = rev (dropWhile (\<lambda>c. c \<in> set blanks) (rev (dropWhile (\<lambda>c. c \<in> set blanks) s)))"
  using pop_slashes_append pop_slashes_no_slash [of b] trim_alt by (auto simp: finalizedHeaderUrl_def suffix_def)


definition sample_curl :: curl where
  "sample_curl = \<lparr>cu_handle = True, cu_chunks = (\<lambda>_. [''{'', ''}'']), cu_error = (\<lambda>_. None), cu_code = (\<lambda>_. 200)\<rparr>"


end
