(* ===== verification/Resource_Budget.thy ===== *)
theory Resource_Budget
  imports Proxy_Prelude
begin

text \<open>
  \<^verbatim>\<open>src/resource_budget.h\<close> and \<^verbatim>\<open>src/resource_budget.cpp\<close>: the file-descriptor budget. The
  operating system's answers (the limit call, the directory listing) are arguments; the Linux
  branch of the preprocessor conditionals is the one modelled.
\<close>

section \<open>Definitions\<close>

record DescriptorSnapshot =
  softLimit :: i64
  openCount :: i64

definition unknown_snapshot :: DescriptorSnapshot where
  "unknown_snapshot = \<lparr>softLimit = -1, openCount = -1\<rparr>"

text \<open>
  \<^verbatim>\<open>getrlimit\<close> as the argument: \<^term>\<open>None\<close> when it fails, otherwise the unsigned limit;
  \<^verbatim>\<open>RLIM_INFINITY\<close> is the largest unsigned value.
\<close>

definition RLIM_INFINITY :: u64 where
  "RLIM_INFINITY = -1"

definition posixSoftLimit :: "u64 option \<Rightarrow> i64" where
  "posixSoftLimit rlim =
     (case rlim of None \<Rightarrow> -1
      | Some cur \<Rightarrow>
          if cur = RLIM_INFINITY then -1
          else if (2 ^ 63 - 1 :: u64) < cur then -1
          else cur)"

definition descriptorReserve :: "i64 \<Rightarrow> i64" where
  "descriptorReserve soft =
     (if sint soft \<le> 0 then 0 else i64_min 128 (i64_max 16 (i64_div soft 4)))"

definition descriptorOperationCapacity :: "DescriptorSnapshot \<Rightarrow> i64 \<Rightarrow> i64" where
  "descriptorOperationCapacity snapshot perOp =
     (if sint (softLimit snapshot) < 0 \<or> sint (openCount snapshot) < 0 \<or> sint perOp \<le> 0 then -1
      else let available = softLimit snapshot - openCount snapshot
                             - descriptorReserve (softLimit snapshot)
           in i64_max 0 (i64_div available perOp))"

text \<open>
  The directory scan of \<^verbatim>\<open>/proc/self/fd\<close>: \<^term>\<open>None\<close> when it cannot be opened, otherwise
  the names it lists, which include the scan's own descriptor.
\<close>

definition count_fd_entries :: "string list \<Rightarrow> i64" where
  "count_fd_entries entries =
     foldl (\<lambda>count d. if d = ''.'' \<or> d = ''..'' then count else count + 1) 0 entries"

definition currentProcessDescriptorSnapshot :: "u64 option \<Rightarrow> string list option \<Rightarrow> DescriptorSnapshot" where
  "currentProcessDescriptorSnapshot rlim listing =
     (let snapshot = unknown_snapshot\<lparr>softLimit := posixSoftLimit rlim\<rparr>
      in case listing of None \<Rightarrow> snapshot
         | Some entries \<Rightarrow> snapshot\<lparr>openCount := i64_max 0 (count_fd_entries entries - 1)\<rparr>)"

section \<open>The reserve\<close>

lemma sint_reserve:
  "sint (descriptorReserve soft) =
     (if sint soft \<le> 0 then 0 else min 128 (max 16 (sint soft div 4)))"
  by (auto simp: descriptorReserve_def i64_simps sdiv_nonneg)

lemma reserve_bounds:
  "0 \<le> sint (descriptorReserve soft) \<and> sint (descriptorReserve soft) \<le> 128"
  by (auto simp: sint_reserve)

text \<open>No intermediate difference overflows once the open count is a count the kernel can report.\<close>

lemma available_exact:
  assumes "0 \<le> sint (softLimit snap)" "0 \<le> sint (openCount snap)" "sint (openCount snap) < 2 ^ 62"
  shows "sint (softLimit snap - openCount snap - descriptorReserve (softLimit snap))
    = sint (softLimit snap) - sint (openCount snap) - sint (descriptorReserve (softLimit snap))"
proof -
  have d: "sint (softLimit snap - openCount snap) = sint (softLimit snap) - sint (openCount snap)"
    using assms sint_i64_range [of "softLimit snap"] by (intro sint_diff_i64) (simp add: fits_i64_def)
  then show ?thesis
    using assms reserve_bounds [of "softLimit snap"] sint_i64_range [of "softLimit snap"]
    by (subst sint_diff_i64) (simp_all add: fits_i64_def)
qed

lemma capacity_unknown_iff:
  "sint (descriptorOperationCapacity snap perOp) < 0 \<longleftrightarrow>
     sint (softLimit snap) < 0 \<or> sint (openCount snap) < 0 \<or> sint perOp \<le> 0"
  by (simp add: descriptorOperationCapacity_def Let_def)

lemma capacity_exact:
  assumes "0 \<le> sint (softLimit snap)" "0 \<le> sint (openCount snap)" "sint (openCount snap) < 2 ^ 62"
    "0 < sint perOp"
  shows "sint (descriptorOperationCapacity snap perOp) =
    max 0 ((sint (softLimit snap) - sint (openCount snap) - sint (descriptorReserve (softLimit snap)))
      sdiv sint perOp)"
  using assms by (simp add: descriptorOperationCapacity_def Let_def i64_simps available_exact)

section \<open>Properties\<close>

lemma capacity_nat_bounds:
  fixes a p :: int
  assumes "0 < p" "0 < max 0 (a sdiv p)"
  shows "max 0 (a sdiv p) * p \<le> a \<and> a < (max 0 (a sdiv p) + 1) * p"
proof -
  have a: "0 < a"
    using assms sdiv_neg_le_0 [of a p] by (metis less_max_iff_disj linorder_not_le order.irrefl)
  then have "a sdiv p = a div p" using assms(1) by (simp add: sdiv_nonneg)
  moreover have "a div p * p \<le> a" "a < (a div p + 1) * p"
    using assms(1) div_mult_mod_eq [of a p] pos_mod_bound [OF assms(1), of a] pos_mod_sign [OF assms(1), of a]
    unfolding distrib_right mult_1 by linarith+
  ultimately show ?thesis using assms by simp
qed

text \<open>
  When the budget is known and the capacity is positive, that many operations at the given
  cost, the descriptors already open and the reserve fit under the soft limit together, and one
  more operation would not; the reserve is between 16 and 128 on any positive limit. The
  arithmetic does not overflow for any open count the system can report.
\<close>

theorem capacity_fits_limit:
  assumes "0 \<le> sint (softLimit snap)" "0 \<le> sint (openCount snap)" "sint (openCount snap) < 2 ^ 62"
    "0 < sint perOp"
    and n: "n = sint (descriptorOperationCapacity snap perOp)" "0 < n"
  shows "n * sint perOp + sint (openCount snap) + sint (descriptorReserve (softLimit snap)) \<le> sint (softLimit snap)
    \<and> sint (softLimit snap)
        < (n + 1) * sint perOp + sint (openCount snap) + sint (descriptorReserve (softLimit snap))
    \<and> 16 \<le> sint (descriptorReserve (softLimit snap)) \<and> sint (descriptorReserve (softLimit snap)) \<le> 128"
proof -
  define a where "a = sint (softLimit snap) - sint (openCount snap) - sint (descriptorReserve (softLimit snap))"
  have "n = max 0 (a sdiv sint perOp)"
    using n(1) capacity_exact [OF assms(1-4)] by (simp only: a_def)
  with capacity_nat_bounds [OF assms(4), of a] n(2)
  have b: "n * sint perOp \<le> a" "a < (n + 1) * sint perOp" by simp_all
  then have "0 < a" using n(2) assms(4) by (smt (verit) mult_pos_pos)
  then have "0 < sint (softLimit snap)"
    using assms(2) reserve_bounds [of "softLimit snap"] by (simp add: a_def)
  then show ?thesis
    using b by (auto simp: a_def sint_reserve)
qed

theorem capacity_fits_limit_witness:
  "4 * (12 :: int) + 30 + 64 \<le> 256
   \<and> sint (descriptorOperationCapacity \<lparr>softLimit = 256, openCount = 30\<rparr> 12) = 13"
proof -
  have c: "sint (descriptorOperationCapacity \<lparr>softLimit = 256, openCount = 30\<rparr> 12) = 13"
    by (simp add: capacity_exact sint_reserve sdiv_nonneg)
  have "13 * sint (12 :: i64) + sint (30 :: i64) + sint (descriptorReserve 256) \<le> sint (256 :: i64)"
    using capacity_fits_limit [of "\<lparr>softLimit = 256, openCount = 30\<rparr>" 12 13] c by simp
  then show ?thesis using c by (simp add: sint_reserve)
qed

lemma count_fd_entries_eq:
  "count_fd_entries entries = of_nat (length (filter (\<lambda>d. d \<noteq> ''.'' \<and> d \<noteq> ''..'') entries))"
proof -
  have "foldl (\<lambda>count d. if d = ''.'' \<or> d = ''..'' then count else count + 1) c entries
      = c + of_nat (length (filter (\<lambda>d. d \<noteq> ''.'' \<and> d \<noteq> ''..'') entries))" for c :: i64
    by (induction entries arbitrary: c) auto
  from this [of 0] show ?thesis by (simp add: count_fd_entries_def)
qed

lemma sint_posixSoftLimit:
  "sint (posixSoftLimit rlim) =
     (case rlim of None \<Rightarrow> -1 | Some cur \<Rightarrow> if unat cur < 2 ^ 63 then int (unat cur) else -1)"
proof (cases rlim)
  case None
  then show ?thesis by (simp add: posixSoftLimit_def)
next
  case (Some cur)
  have gt: "(2 ^ 63 - 1 :: u64) < cur \<longleftrightarrow> \<not> unat cur < 2 ^ 63"
    by (simp add: word_less_nat_alt) arith
  have inf: "cur = RLIM_INFINITY \<Longrightarrow> \<not> unat cur < 2 ^ 63"
    by (simp add: RLIM_INFINITY_def unsigned_minus_1_eq_mask mask_eq_exp_minus_1)
  have "sint cur = int (unat cur)" if "unat cur < 2 ^ 63"
  proof -
    from sint_of_nat_i64 [OF that] show ?thesis by simp
  qed
  with gt inf show ?thesis using Some by (auto simp: posixSoftLimit_def)
qed

text \<open>
  The open count is the number of descriptors before the query: the listing without its two
  dot entries and without the descriptor the scan itself holds. A limit that is infinite, too
  large for the signed type or not reported is \<open>-1\<close>, so the capacity is then unknown and never a
  number.
\<close>

theorem snapshot_counts_descriptors:
  assumes "length fds < 2 ^ 62" "\<forall>d \<in> set (scan # fds). d \<noteq> ''.'' \<and> d \<noteq> ''..''"
    and snap: "snap = currentProcessDescriptorSnapshot rlim (Some (''.'' # ''..'' # fds @ [scan]))"
  shows "sint (openCount snap) = int (length fds)
    \<and> sint (softLimit snap) =
        (case rlim of None \<Rightarrow> -1 | Some cur \<Rightarrow> if unat cur < 2 ^ 63 then int (unat cur) else -1)
    \<and> (sint (softLimit snap) = -1 \<longrightarrow> descriptorOperationCapacity snap perOp = -1)"
proof -
  have "filter (\<lambda>d. d \<noteq> ''.'' \<and> d \<noteq> ''..'') fds = fds"
    using assms(2) by (simp add: filter_id_conv)
  then have len: "of_nat (length (filter (\<lambda>d. d \<noteq> ''.'' \<and> d \<noteq> ''..'') (''.'' # ''..'' # fds @ [scan]))) - 1
      = (of_nat (length fds) :: i64)"
    using assms(2) by simp
  have "sint (word_of_int (int (length fds)) :: i64) = int (length fds)"
    using assms(1) by (intro sint_of_int_i64) (simp add: fits_i64_def)
  then have "sint (openCount snap) = int (length fds)"
    by (simp only: snap currentProcessDescriptorSnapshot_def count_fd_entries_eq len Let_def option.case
        unknown_snapshot_def DescriptorSnapshot.simps) simp
  moreover have "sint (softLimit snap) =
      (case rlim of None \<Rightarrow> -1 | Some cur \<Rightarrow> if unat cur < 2 ^ 63 then int (unat cur) else -1)"
    by (simp add: snap currentProcessDescriptorSnapshot_def Let_def sint_posixSoftLimit)
  ultimately show ?thesis
    by (simp add: descriptorOperationCapacity_def)
qed

theorem snapshot_counts_descriptors_witness:
  "sint (openCount (currentProcessDescriptorSnapshot (Some 1024)
     (Some [''.'', ''..'', ''0'', ''1'', ''2'', ''3'']))) = 3"
  using snapshot_counts_descriptors [of "[''0'', ''1'', ''2'']" "''3''" _ "Some 1024"] by simp

end
