(* ===== verification/Runtime_State.thy ===== *)
theory Runtime_State
  imports Proxy_Config Resource_Budget
begin

text \<open>
  The part of \<^verbatim>\<open>ProxyRuntime\<close> (\<^verbatim>\<open>src/proxy_runtime.h\<close>, \<^verbatim>\<open>src/proxy_runtime.cpp\<close>) every other
  part uses: its life-cycle state, the emitted events, the configuration of the run and the two
  flags that end one. The runtime's members are split over records that extend one another, one
  per component; an operation of a component works on any extension of its record. The counters
  that only count occurrences (\<^verbatim>\<open>int64_t\<close>) are integers and the ids and tickets (\<^verbatim>\<open>uint64_t\<close>)
  naturals: none can reach the end of its range. Values that come from a configuration or from the
  operating system keep their 64 bits. A time is an integer of milliseconds.
\<close>

section \<open>Types\<close>

datatype State = Idle | Starting | Running | Degraded | Draining | Stopped | Failed

datatype AdmissionBlock = BlockNone | BlockConcurrency | BlockDescriptors

datatype Kind = User | Heartbeat | Sync | OpSync

datatype SyncPhase = PhaseIdle | PhaseEth | PhaseEthDone | PhaseOp | PhaseOpDone

definition stateName :: "State \<Rightarrow> string" where
  "stateName s = (case s of
      Idle \<Rightarrow> ''uninitialized''
    | Starting \<Rightarrow> ''starting''
    | Running \<Rightarrow> ''running''
    | Degraded \<Rightarrow> ''degraded''
    | Draining \<Rightarrow> ''stopping''
    | Stopped \<Rightarrow> ''stopped''
    | Failed \<Rightarrow> ''error'')"

lemma stateName_inj: "stateName s = stateName t \<longleftrightarrow> s = t"
  by (cases s; cases t) (simp_all add: stateName_def)

record rt_core =
  m_state :: State
  m_lastError :: string
  m_cfg :: ProxyConfig
  m_emit :: bool
  m_events :: "(string \<times> json) list"
  m_stopRequested :: bool
  m_shutdown :: bool

section \<open>Operations\<close>

text \<open>An event goes out only when the host installed an emitter; its payload is printed by the library.\<close>

definition emit :: "string \<Rightarrow> json \<Rightarrow> 'a rt_core_scheme \<Rightarrow> 'a rt_core_scheme" where
  [rt_defs]: "emit name payload r = (if m_emit r then r\<lparr>m_events := m_events r @ [(name, payload)]\<rparr> else r)"

definition state_change :: "State \<Rightarrow> State \<Rightarrow> string \<Rightarrow> json" where
  "state_change prev s err = jobj ([(''state'', JStr (stateName s)), (''previous'', JStr (stateName prev))]
     @ (if err \<noteq> [] then [(''error'', JStr err)] else []))"

definition setState :: "State \<Rightarrow> string \<Rightarrow> 'a rt_core_scheme \<Rightarrow> 'a rt_core_scheme" where
  [rt_defs]: "setState s err r =
     (let prev = m_state r;
          r1 = r\<lparr>m_state := s\<rparr>;
          r2 = (if err \<noteq> [] then r1\<lparr>m_lastError := err\<rparr> else r1)
      in if prev = s then r2 else emit ''proxyStateChanged'' (state_change prev s err) r2)"

definition keepAliveEnabled :: "'a rt_core_scheme \<Rightarrow> bool" where
  "keepAliveEnabled r \<longleftrightarrow> keepAlive (m_cfg r) \<noteq> ''off''"

definition running :: "'a rt_core_scheme \<Rightarrow> bool" where
  "running r \<longleftrightarrow> m_state r = Running"

definition live :: "'a rt_core_scheme \<Rightarrow> bool" where
  "live r \<longleftrightarrow> m_state r = Running \<or> m_state r = Degraded"

text \<open>What \<^term>\<open>emit\<close> and \<^term>\<open>setState\<close> leave alone.\<close>

lemma emit_frame [simp]:
  "m_state (emit n p r) = m_state r" "m_cfg (emit n p r) = m_cfg r" "m_emit (emit n p r) = m_emit r"
  "m_stopRequested (emit n p r) = m_stopRequested r" "m_shutdown (emit n p r) = m_shutdown r"
  "m_lastError (emit n p r) = m_lastError r" "rt_core.more (emit n p r) = rt_core.more r"
  by (simp_all add: emit_def)

lemma setState_frame [simp]:
  "m_state (setState s e r) = s" "m_cfg (setState s e r) = m_cfg r" "m_emit (setState s e r) = m_emit r"
  "m_stopRequested (setState s e r) = m_stopRequested r" "m_shutdown (setState s e r) = m_shutdown r"
  "m_lastError (setState s e r) = (if e = [] then m_lastError r else e)"
  "rt_core.more (setState s e r) = rt_core.more r"
  by (simp_all add: setState_def Let_def)

lemma setState_events:
  "m_events (setState s e r) =
     m_events r @ (if m_state r \<noteq> s \<and> m_emit r then [(''proxyStateChanged'', state_change (m_state r) s e)] else [])"
  by (simp add: setState_def emit_def Let_def)

end
