(* ===== verification/Runtime_Admission.thy ===== *)
theory Runtime_Admission
  imports Runtime_State
begin

text \<open>
  The admission control of \<^verbatim>\<open>ProxyRuntime\<close>: the concurrent-call ceiling, the descriptor budget
  and the queue of waiting callers (\<^verbatim>\<open>admissionBlockLocked\<close>, \<^verbatim>\<open>waitForAdmission\<close>, \<^verbatim>\<open>tryAdmit\<close>,
  \<^verbatim>\<open>releaseAdmission\<close>, \<^verbatim>\<open>removeAdmissionTicketLocked\<close>). Everything here runs under
  \<^verbatim>\<open>m_admissionMu\<close>; the wait is the part before its loop and one turn of the loop, so that other
  threads may run in between. The descriptor query and the clock are arguments.
\<close>

section \<open>State and operations\<close>

record rt_admission = rt_core +
  m_admissionQueue :: "nat list"
  m_nextAdmissionTicket :: nat
  m_admissionEpoch :: nat
  m_admitted :: int
  m_effectiveMaxInFlight :: i64
  m_descriptorsPerCall :: i64
  m_resourceRejections :: int
  m_callsQueued :: int
  m_queueTimeouts :: int
  m_queuedNow :: int

text \<open>The number of calls the descriptor budget can carry.\<close>

definition reservableCalls :: "DescriptorSnapshot \<Rightarrow> i64 \<Rightarrow> i64" where
  "reservableCalls snap perCall =
     (let available = softLimit snap - descriptorReserve (softLimit snap) - openCount snap
      in if 0 < sint available then i64_div available perCall else 0)"

definition admissionBlockLocked ::
  "DescriptorSnapshot \<Rightarrow> 'a rt_admission_scheme \<Rightarrow> AdmissionBlock \<times> string" where
  "admissionBlockLocked snap r =
     (let admitted = m_admitted r; effective = m_effectiveMaxInFlight r in
      if sint effective \<le> admitted then
        (BlockConcurrency,
         ''the concurrent call ceiling is busy (effective max '' @ to_string (sint effective)
           @ '', configured max '' @ to_string (sint (maxInFlight (m_cfg r))) @ '')'')
      else if 0 \<le> sint (softLimit snap) \<and> 0 \<le> sint (openCount snap)
              \<and> sint (reservableCalls snap (m_descriptorsPerCall r)) \<le> admitted then
        (BlockDescriptors,
         ''OS file-descriptor budget is exhausted (open '' @ to_string (sint (openCount snap)) @ '' of ''
           @ to_string (sint (softLimit snap)) @ '', reserving ''
           @ to_string (sint (descriptorReserve (softLimit snap))) @ '' for the host)'')
      else (BlockNone, []))"

definition removeAdmissionTicketLocked :: "nat \<Rightarrow> 'a rt_admission_scheme \<Rightarrow> bool \<times> 'a rt_admission_scheme" where
  [rt_defs]: "removeAdmissionTicketLocked ticket r =
     (if ticket \<notin> set (m_admissionQueue r) then (False, r)
      else (True, r\<lparr>m_admissionQueue := remove1 ticket (m_admissionQueue r),
                    m_queuedNow := m_queuedNow r - 1\<rparr>))"

text \<open>The local variables a waiting caller keeps across the turns of its loop.\<close>

record waiter =
  w_ticket :: nat
  w_epoch :: nat
  w_deadline :: int
  w_blocker :: string
  w_blockedBy :: AdmissionBlock

datatype admission = Admitted | Refused string | Waiting waiter

definition stopping :: "'a rt_core_scheme \<Rightarrow> bool" where
  "stopping r \<longleftrightarrow> m_stopRequested r \<or> m_shutdown r"

text \<open>The deadline is \<open>now\<close> plus the queue timeout of the configuration.\<close>

definition admission_enter ::
  "DescriptorSnapshot \<Rightarrow> int \<Rightarrow> 'a rt_admission_scheme \<Rightarrow> admission \<times> 'a rt_admission_scheme" where
  "admission_enter snap now r =
     (if stopping r then (Refused ''proxy shutting down'', r)
      else
        let (blockedBy, blocker) =
              (if m_admissionQueue r = [] then admissionBlockLocked snap r
               else (BlockConcurrency, ''earlier calls are waiting in the admission queue''))
        in if blockedBy = BlockNone then (Admitted, r\<lparr>m_admitted := m_admitted r + 1\<rparr>)
           else
             let ticket = m_nextAdmissionTicket r in
             (Waiting \<lparr>w_ticket = ticket, w_epoch = m_admissionEpoch r,
                       w_deadline = now + sint (queueTimeoutMs (m_cfg r)),
                       w_blocker = blocker, w_blockedBy = blockedBy\<rparr>,
              r\<lparr>m_nextAdmissionTicket := ticket + 1,
                m_admissionQueue := m_admissionQueue r @ [ticket],
                m_queuedNow := m_queuedNow r + 1,
                m_callsQueued := m_callsQueued r + 1\<rparr>))"

definition queue_timeout_error :: "'a rt_admission_scheme \<Rightarrow> string \<Rightarrow> string" where
  "queue_timeout_error r blocker =
     ''admission queue timed out after '' @ to_string (sint (queueTimeoutMs (m_cfg r)))
       @ ''ms waiting for capacity'' @ (if blocker \<noteq> [] then ''; last blocker: '' @ blocker else [])"

text \<open>One turn of the loop.\<close>

definition admission_poll ::
  "DescriptorSnapshot \<Rightarrow> int \<Rightarrow> waiter \<Rightarrow> 'a rt_admission_scheme \<Rightarrow> admission \<times> 'a rt_admission_scheme" where
  "admission_poll snap now w r =
     (if stopping r \<or> w_epoch w \<noteq> m_admissionEpoch r then
        (Refused ''proxy shutting down'', snd (removeAdmissionTicketLocked (w_ticket w) r))
      else
        let front = (m_admissionQueue r \<noteq> [] \<and> hd (m_admissionQueue r) = w_ticket w);
            (blockedBy, blocker) =
              (if front then admissionBlockLocked snap r else (w_blockedBy w, w_blocker w))
        in if front \<and> blockedBy = BlockNone then
             (Admitted, r\<lparr>m_admissionQueue := tl (m_admissionQueue r), m_queuedNow := m_queuedNow r - 1,
                          m_admitted := m_admitted r + 1\<rparr>)
           else if w_deadline w \<le> now then
             let r1 = snd (removeAdmissionTicketLocked (w_ticket w) r);
                 r2 = r1\<lparr>m_queueTimeouts := m_queueTimeouts r1 + 1\<rparr>;
                 r3 = (if blockedBy = BlockDescriptors
                       then r2\<lparr>m_resourceRejections := m_resourceRejections r2 + 1\<rparr> else r2)
             in (Refused (queue_timeout_error r blocker), r3)
           else (Waiting (w\<lparr>w_blocker := blocker, w_blockedBy := blockedBy\<rparr>), r))"

text \<open>
  The whole wait. Each wake-up names what the other threads did to the state while the caller
  slept, and what the clock and the query say then.
\<close>

record 'r wakeup =
  wk_interfere :: "'r \<Rightarrow> 'r"
  wk_snapshot :: DescriptorSnapshot
  wk_now :: int

fun waitLoop ::
  "'a rt_admission_scheme wakeup list \<Rightarrow> waiter \<Rightarrow> 'a rt_admission_scheme \<Rightarrow> admission \<times> 'a rt_admission_scheme" where
  "waitLoop [] w r = (Waiting w, r)"
| "waitLoop (k # ks) w r =
     (case admission_poll (wk_snapshot k) (wk_now k) w (wk_interfere k r) of
        (Waiting w', r') \<Rightarrow> waitLoop ks w' r'
      | other \<Rightarrow> other)"

definition waitForAdmission ::
  "DescriptorSnapshot \<Rightarrow> int \<Rightarrow> 'a rt_admission_scheme wakeup list \<Rightarrow> 'a rt_admission_scheme
     \<Rightarrow> admission \<times> 'a rt_admission_scheme" where
  "waitForAdmission snap now ks r =
     (case admission_enter snap now r of
        (Waiting w, r') \<Rightarrow> waitLoop ks w r'
      | other \<Rightarrow> other)"

definition tryAdmit :: "DescriptorSnapshot \<Rightarrow> 'a rt_admission_scheme \<Rightarrow> string option \<times> 'a rt_admission_scheme" where
  "tryAdmit snap r =
     (if m_admissionQueue r \<noteq> [] then (Some ''user calls are waiting for admission'', r)
      else let (blockedBy, blocker) = admissionBlockLocked snap r in
           if blockedBy \<noteq> BlockNone then (Some blocker, r)
           else (None, r\<lparr>m_admitted := m_admitted r + 1\<rparr>))"

definition releaseAdmission :: "'a rt_admission_scheme \<Rightarrow> 'a rt_admission_scheme" where
  [rt_defs]: "releaseAdmission r =
     (if 0 < m_admitted r then r\<lparr>m_admitted := m_admitted r - 1\<rparr> else r)"

end
