(* ===== verification/Runtime_Calls.thy ===== *)
theory Runtime_Calls
  imports Runtime_Admission
begin

text \<open>
  The calls of \<^verbatim>\<open>ProxyRuntime\<close>: the slots a caller waits on, the command queue, the list of live
  slots that shutdown releases (\<^verbatim>\<open>prunePendingLocked\<close>, \<^verbatim>\<open>failAllPending\<close>), the caller's side of
  \<^verbatim>\<open>call\<close> and the accounting of a finished call. A slot is shared by its id: it is owned by the
  caller waiting on it, by the queued command and by the box handed to the library, and the weak
  entry in \<^verbatim>\<open>m_pending\<close> has expired once none of them is left.
\<close>

section \<open>State\<close>

record CallSlot =
  slot_done :: bool
  slot_status :: int
  slot_result :: string
  slot_id :: nat
  slot_method :: string
  slot_params :: string
  slot_kind :: Kind

text \<open>
  \<open>m_queue\<close> holds the commands by the id of the slot they capture, \<open>m_boxes\<close> the ids of the boxes
  the library may still call back, \<open>m_leakedBoxes\<close> those no context is left for, and \<open>m_waiters\<close>
  the slots that a caller of \<^verbatim>\<open>call\<close> holds.
\<close>

record rt_calls = rt_admission +
  m_slots :: "nat \<Rightarrow> CallSlot"
  m_nextId :: nat
  m_queue :: "nat list"
  m_pending :: "nat list"
  m_boxes :: "nat list"
  m_leakedBoxes :: "nat list"
  m_waiters :: "nat list"
  m_inFlight :: int
  m_leaked :: int
  m_callsTotal :: int
  m_callsFailed :: int

definition owned :: "'a rt_calls_scheme \<Rightarrow> nat \<Rightarrow> bool" where
  "owned r i \<longleftrightarrow> i \<in> set (m_queue r) \<or> i \<in> set (m_boxes r) \<or> i \<in> set (m_leakedBoxes r) \<or> i \<in> set (m_waiters r)"

definition expired :: "'a rt_calls_scheme \<Rightarrow> nat \<Rightarrow> bool" where
  "expired r i \<longleftrightarrow> \<not> owned r i"

definition new_slot :: "nat \<Rightarrow> string \<Rightarrow> string \<Rightarrow> Kind \<Rightarrow> CallSlot" where
  "new_slot i method params kind =
     \<lparr>slot_done = False, slot_status = -1, slot_result = [], slot_id = i,
      slot_method = method, slot_params = params, slot_kind = kind\<rparr>"

text \<open>\<^verbatim>\<open>make_shared<CallSlot>\<close> with the next id; the id of the new slot is the second result.\<close>

definition alloc_slot :: "string \<Rightarrow> string \<Rightarrow> Kind \<Rightarrow> 'a rt_calls_scheme \<Rightarrow> nat \<times> 'a rt_calls_scheme" where
  [rt_defs]: "alloc_slot method params kind r =
     (let i = m_nextId r in
      (i, r\<lparr>m_nextId := i + 1, m_slots := (m_slots r)(i := new_slot i method params kind)\<rparr>))"

lemma alloc_slot_eq:
  "alloc_slot method params kind r =
     (m_nextId r, r\<lparr>m_nextId := m_nextId r + 1, m_slots := (m_slots r)(m_nextId r := new_slot (m_nextId r) method params kind)\<rparr>)"
  by (simp add: alloc_slot_def Let_def)

section \<open>The pending list\<close>

definition kPendingSweepAt :: nat where
  "kPendingSweepAt = 256"

definition pruned :: "'a rt_calls_scheme \<Rightarrow> nat list \<Rightarrow> nat list" where
  "pruned r ps =
     (let front = dropWhile (expired r) ps
      in if length front < kPendingSweepAt then front else filter (\<lambda>i. \<not> expired r i) front)"

definition prunePendingLocked :: "'a rt_calls_scheme \<Rightarrow> 'a rt_calls_scheme" where
  [rt_defs]: "prunePendingLocked r = r\<lparr>m_pending := pruned r (m_pending r)\<rparr>"

definition finish_slot :: "int \<Rightarrow> string \<Rightarrow> CallSlot \<Rightarrow> CallSlot" where
  "finish_slot status res s = (if slot_done s then s else s\<lparr>slot_done := True, slot_status := status, slot_result := res\<rparr>)"

text \<open>The loop over the swapped-out list: live and unfinished slots are finished with an error.\<close>

fun fail_each :: "string \<Rightarrow> nat list \<Rightarrow> 'a rt_calls_scheme \<Rightarrow> 'a rt_calls_scheme" where
  "fail_each why [] r = r"
| "fail_each why (i # is) r =
     (if expired r i \<or> slot_done (m_slots r i) then fail_each why is r
      else fail_each why is
             (r\<lparr>m_slots := (m_slots r)(i := finish_slot RET_ERROR why (m_slots r i)), m_leaked := m_leaked r + 1\<rparr>))"

definition failAllPending :: "string \<Rightarrow> 'a rt_calls_scheme \<Rightarrow> 'a rt_calls_scheme" where
  "failAllPending why r = fail_each why (m_pending r) (r\<lparr>m_pending := [], m_queue := []\<rparr>)"

section \<open>A caller's side\<close>

text \<open>\<^verbatim>\<open>call\<close> up to the admission: the two refusals that need no lock.\<close>

definition call_precheck :: "json \<Rightarrow> 'a rt_core_scheme \<Rightarrow> string option" where
  "call_precheck params r =
     (if \<not> running r \<and> m_state r \<noteq> Degraded then Some ''proxy not running''
      else if \<not> is_array params then Some ''params must be a JSON array''
      else None)"

text \<open>The section under \<^verbatim>\<open>m_mu\<close>: the command is queued unless a stop came first.\<close>

definition call_enqueue :: "string \<Rightarrow> string \<Rightarrow> 'a rt_calls_scheme \<Rightarrow> (string + nat) \<times> 'a rt_calls_scheme" where
  "call_enqueue method params r =
     (let (i, r1) = alloc_slot method params User r
      in if stopping r1 then (Inl ''proxy shutting down'', releaseAdmission r1)
         else let r2 = prunePendingLocked r1 in
              (Inr i, r2\<lparr>m_pending := m_pending r2 @ [i], m_queue := m_queue r2 @ [i],
                         m_waiters := m_waiters r2 @ [i]\<rparr>))"

text \<open>What the caller returns once its slot is done, and the text when it is not.\<close>

definition slot_outcome :: "(string \<Rightarrow> string + json) \<Rightarrow> CallSlot \<Rightarrow> StdLogosResult" where
  "slot_outcome parse s =
     (if slot_status s \<noteq> RET_SUCCESS then fail_result (errorMessage parse (slot_status s) (slot_result s))
      else ok_result (fst (decodePayload parse (slot_result s))))"

definition call_timeout_text :: "nat \<Rightarrow> 'a rt_calls_scheme \<Rightarrow> string" where
  "call_timeout_text i r =
     ''call('' @ [CHR 0x22] @ slot_method (m_slots r i) @ [CHR 0x22] @ '', id '' @ to_string (int (slot_id (m_slots r i)))
       @ '') timed out after '' @ to_string (sint (callTimeoutMs (m_cfg r))) @ ''ms''"

text \<open>The end of the caller's wait: it reads its slot and lets go of it.\<close>

definition call_finish ::
  "(string \<Rightarrow> string + json) \<Rightarrow> (string \<Rightarrow> 'a rt_calls_scheme \<Rightarrow> string) \<Rightarrow> nat \<Rightarrow> 'a rt_calls_scheme
     \<Rightarrow> StdLogosResult \<times> 'a rt_calls_scheme" where
  "call_finish parse report i r =
     (if slot_done (m_slots r i) then slot_outcome parse (m_slots r i) else fail_result (report (call_timeout_text i r) r),
      r\<lparr>m_waiters := remove1 i (m_waiters r)\<rparr>)"

section \<open>The proxy thread's side\<close>

text \<open>A queued command, up to its entry into the library.\<close>

definition dispatch_front :: "'a rt_calls_scheme \<Rightarrow> (nat \<times> 'a rt_calls_scheme) option" where
  "dispatch_front r =
     (case m_queue r of
        [] \<Rightarrow> None
      | i # is \<Rightarrow> Some (i, r\<lparr>m_queue := is, m_boxes := m_boxes r @ [i], m_inFlight := m_inFlight r + 1,
                            m_callsTotal := m_callsTotal r + 1\<rparr>))"

definition noteFinished :: "bool \<Rightarrow> 'a rt_calls_scheme \<Rightarrow> 'a rt_calls_scheme" where
  "noteFinished ok r =
     (let r1 = releaseAdmission (r\<lparr>m_inFlight := m_inFlight r - 1\<rparr>)
      in if \<not> ok then r1\<lparr>m_callsFailed := m_callsFailed r1 + 1\<rparr> else r1)"

section \<open>Frames\<close>

text \<open>What the operations so far leave alone.\<close>

lemma releaseAdmission_frame [simp]:
  "m_cfg (releaseAdmission r) = m_cfg r" "m_emit (releaseAdmission r) = m_emit r"
  "m_stopRequested (releaseAdmission r) = m_stopRequested r"
  "m_shutdown (releaseAdmission r) = m_shutdown r" "m_state (releaseAdmission r) = m_state r"
  "m_lastError (releaseAdmission r) = m_lastError r" "m_events (releaseAdmission r) = m_events r"
  "m_admissionQueue (releaseAdmission r) = m_admissionQueue r"
  "m_nextAdmissionTicket (releaseAdmission r) = m_nextAdmissionTicket r"
  "m_admissionEpoch (releaseAdmission r) = m_admissionEpoch r"
  "m_effectiveMaxInFlight (releaseAdmission r) = m_effectiveMaxInFlight r"
  "m_descriptorsPerCall (releaseAdmission r) = m_descriptorsPerCall r"
  "m_queuedNow (releaseAdmission r) = m_queuedNow r" "m_slots (releaseAdmission r) = m_slots r"
  "m_nextId (releaseAdmission r) = m_nextId r" "m_queue (releaseAdmission r) = m_queue r"
  "m_pending (releaseAdmission r) = m_pending r" "m_boxes (releaseAdmission r) = m_boxes r"
  "m_leakedBoxes (releaseAdmission r) = m_leakedBoxes r" "m_waiters (releaseAdmission r) = m_waiters r"
  "m_inFlight (releaseAdmission r) = m_inFlight r" "m_leaked (releaseAdmission r) = m_leaked r"
  "m_callsTotal (releaseAdmission r) = m_callsTotal r"
  "m_callsFailed (releaseAdmission r) = m_callsFailed r"
  by (simp_all add: releaseAdmission_def)

lemma setState_rest [simp]:
  "m_admissionQueue (setState s e r) = m_admissionQueue r"
  "m_nextAdmissionTicket (setState s e r) = m_nextAdmissionTicket r"
  "m_admissionEpoch (setState s e r) = m_admissionEpoch r" "m_admitted (setState s e r) = m_admitted r"
  "m_effectiveMaxInFlight (setState s e r) = m_effectiveMaxInFlight r"
  "m_descriptorsPerCall (setState s e r) = m_descriptorsPerCall r"
  "m_queuedNow (setState s e r) = m_queuedNow r" "m_slots (setState s e r) = m_slots r"
  "m_nextId (setState s e r) = m_nextId r" "m_queue (setState s e r) = m_queue r"
  "m_pending (setState s e r) = m_pending r" "m_boxes (setState s e r) = m_boxes r"
  "m_leakedBoxes (setState s e r) = m_leakedBoxes r" "m_waiters (setState s e r) = m_waiters r"
  "m_inFlight (setState s e r) = m_inFlight r" "m_leaked (setState s e r) = m_leaked r"
  "m_callsTotal (setState s e r) = m_callsTotal r" "m_callsFailed (setState s e r) = m_callsFailed r"
  by (simp_all add: setState_def emit_def Let_def)

lemma emit_rest [simp]:
  "m_admissionQueue (emit n p r) = m_admissionQueue r"
  "m_nextAdmissionTicket (emit n p r) = m_nextAdmissionTicket r"
  "m_admissionEpoch (emit n p r) = m_admissionEpoch r" "m_admitted (emit n p r) = m_admitted r"
  "m_effectiveMaxInFlight (emit n p r) = m_effectiveMaxInFlight r"
  "m_descriptorsPerCall (emit n p r) = m_descriptorsPerCall r" "m_queuedNow (emit n p r) = m_queuedNow r"
  "m_slots (emit n p r) = m_slots r" "m_nextId (emit n p r) = m_nextId r"
  "m_queue (emit n p r) = m_queue r" "m_pending (emit n p r) = m_pending r"
  "m_boxes (emit n p r) = m_boxes r" "m_leakedBoxes (emit n p r) = m_leakedBoxes r"
  "m_waiters (emit n p r) = m_waiters r" "m_inFlight (emit n p r) = m_inFlight r"
  "m_leaked (emit n p r) = m_leaked r" "m_callsTotal (emit n p r) = m_callsTotal r"
  "m_callsFailed (emit n p r) = m_callsFailed r"
  by (simp_all add: emit_def)

lemma prune_frame [simp]:
  "m_cfg (prunePendingLocked r) = m_cfg r" "m_emit (prunePendingLocked r) = m_emit r"
  "m_stopRequested (prunePendingLocked r) = m_stopRequested r"
  "m_shutdown (prunePendingLocked r) = m_shutdown r" "m_state (prunePendingLocked r) = m_state r"
  "m_lastError (prunePendingLocked r) = m_lastError r" "m_events (prunePendingLocked r) = m_events r"
  "m_admissionQueue (prunePendingLocked r) = m_admissionQueue r"
  "m_nextAdmissionTicket (prunePendingLocked r) = m_nextAdmissionTicket r"
  "m_admissionEpoch (prunePendingLocked r) = m_admissionEpoch r"
  "m_admitted (prunePendingLocked r) = m_admitted r"
  "m_effectiveMaxInFlight (prunePendingLocked r) = m_effectiveMaxInFlight r"
  "m_descriptorsPerCall (prunePendingLocked r) = m_descriptorsPerCall r"
  "m_queuedNow (prunePendingLocked r) = m_queuedNow r" "m_slots (prunePendingLocked r) = m_slots r"
  "m_nextId (prunePendingLocked r) = m_nextId r" "m_queue (prunePendingLocked r) = m_queue r"
  "m_boxes (prunePendingLocked r) = m_boxes r" "m_leakedBoxes (prunePendingLocked r) = m_leakedBoxes r"
  "m_waiters (prunePendingLocked r) = m_waiters r" "m_inFlight (prunePendingLocked r) = m_inFlight r"
  "m_leaked (prunePendingLocked r) = m_leaked r" "m_callsTotal (prunePendingLocked r) = m_callsTotal r"
  "m_callsFailed (prunePendingLocked r) = m_callsFailed r"
  by (simp_all add: prunePendingLocked_def)

lemma noteFinished_frame [simp]:
  "m_cfg (noteFinished ok r) = m_cfg r" "m_emit (noteFinished ok r) = m_emit r"
  "m_stopRequested (noteFinished ok r) = m_stopRequested r"
  "m_shutdown (noteFinished ok r) = m_shutdown r" "m_state (noteFinished ok r) = m_state r"
  "m_lastError (noteFinished ok r) = m_lastError r" "m_events (noteFinished ok r) = m_events r"
  "m_admissionQueue (noteFinished ok r) = m_admissionQueue r"
  "m_nextAdmissionTicket (noteFinished ok r) = m_nextAdmissionTicket r"
  "m_admissionEpoch (noteFinished ok r) = m_admissionEpoch r"
  "m_effectiveMaxInFlight (noteFinished ok r) = m_effectiveMaxInFlight r"
  "m_descriptorsPerCall (noteFinished ok r) = m_descriptorsPerCall r"
  "m_queuedNow (noteFinished ok r) = m_queuedNow r" "m_slots (noteFinished ok r) = m_slots r"
  "m_nextId (noteFinished ok r) = m_nextId r" "m_queue (noteFinished ok r) = m_queue r"
  "m_pending (noteFinished ok r) = m_pending r" "m_boxes (noteFinished ok r) = m_boxes r"
  "m_leakedBoxes (noteFinished ok r) = m_leakedBoxes r" "m_waiters (noteFinished ok r) = m_waiters r"
  "m_leaked (noteFinished ok r) = m_leaked r" "m_callsTotal (noteFinished ok r) = m_callsTotal r"
  by (simp_all add: noteFinished_def Let_def)

lemma noteFinished_simps [simp]:
  "m_inFlight (noteFinished ok r) = m_inFlight r - 1"
  "m_admitted (noteFinished ok r) = (if 0 < m_admitted r then m_admitted r - 1 else m_admitted r)"
  by (simp_all add: noteFinished_def Let_def) (simp add: releaseAdmission_def)

end
