(* ===== verification/Runtime_Health.thy ===== *)
theory Runtime_Health
  imports Runtime_Calls
begin

text \<open>
  The health of a run: the heartbeat's outcome (\<^verbatim>\<open>noteHeartbeat\<close>, \<^verbatim>\<open>noteHead\<close>), the light-client
  sync cycle (\<^verbatim>\<open>noteSync\<close>, \<^verbatim>\<open>finishSyncCycle\<close>) and the release of a waiting \<^verbatim>\<open>start\<close>
  (\<^verbatim>\<open>releaseStart\<close>). The clocks are arguments: \<open>secs\<close> is the wall clock in seconds.
\<close>

section \<open>State\<close>

record rt_health = rt_calls +
  m_heartbeatInFlight :: bool
  m_heartbeatStreak :: int
  m_heartbeatFailures :: int
  m_headBlockNumber :: string
  m_headUpdatedAt :: int
  m_syncPhase :: SyncPhase
  m_syncOk :: bool
  m_syncError :: string
  m_syncCycleStart :: int
  m_nextSync :: int
  m_syncIntervalMs :: i64
  m_syncIntervalReported :: i64
  m_syncFailures :: int
  m_syncStreak :: int
  m_lastSyncError :: string
  m_lastSyncedAt :: int
  m_startReleased :: bool
  m_startDone :: bool
  m_startOk :: bool
  m_startError :: string

definition kDegradeAfter :: int where
  "kDegradeAfter = 3"

definition kFirstSyncRetryMs :: int where
  "kFirstSyncRetryMs = 2000"

section \<open>Heartbeat\<close>

definition noteHead :: "(string \<Rightarrow> string + json) \<Rightarrow> int \<Rightarrow> CallSlot \<Rightarrow> 'a rt_health_scheme \<Rightarrow> 'a rt_health_scheme" where
  "noteHead parse secs slot r =
     (case fst (decodePayload parse (slot_result slot)) of
        JObj kvs \<Rightarrow>
          (case jfield (JObj kvs) ''number'' of
             Some (JStr hex) \<Rightarrow>
               if hex = [] then r else r\<lparr>m_headBlockNumber := hex, m_headUpdatedAt := secs\<rparr>
           | _ \<Rightarrow> r)
      | _ \<Rightarrow> r)"

definition noteHeartbeat ::
  "(string \<Rightarrow> string + json) \<Rightarrow> int \<Rightarrow> CallSlot \<Rightarrow> 'a rt_health_scheme \<Rightarrow> 'a rt_health_scheme" where
  "noteHeartbeat parse secs slot r =
     (if slot_status slot = RET_SUCCESS then
        let r1 = noteHead parse secs slot (r\<lparr>m_heartbeatStreak := 0\<rparr>)
        in if m_state r1 = Degraded \<and> m_syncStreak r1 < kDegradeAfter then setState Running [] r1 else r1
      else
        let r1 = r\<lparr>m_heartbeatFailures := m_heartbeatFailures r + 1, m_heartbeatStreak := m_heartbeatStreak r + 1\<rparr>
        in if kDegradeAfter \<le> m_heartbeatStreak r1 \<and> m_state r1 = Running
           then setState Degraded (errorMessage parse (slot_status slot) (slot_result slot)) r1 else r1)"

section \<open>Sync\<close>

definition noteSync :: "(string \<Rightarrow> string + json) \<Rightarrow> CallSlot \<Rightarrow> 'a rt_health_scheme \<Rightarrow> 'a rt_health_scheme" where
  "noteSync parse slot r =
     (let ok = (slot_status slot = RET_SUCCESS) in
      r\<lparr>m_syncOk := ok,
        m_syncError := (if ok then [] else slot_method slot @ '': '' @ errorMessage parse (slot_status slot) (slot_result slot)),
        m_syncPhase := (if slot_kind slot = OpSync then PhaseOpDone else PhaseEthDone)\<rparr>)"

definition start_payload :: "bool \<Rightarrow> string \<Rightarrow> 'a rt_core_scheme \<Rightarrow> json" where
  "start_payload ok err r = jobj ([(''success'', JBool ok)]
     @ (if ok then [(''chainId'', JInt (expectedChainId (m_cfg r)))] else [(''error'', JStr err)]))"

definition releaseStart :: "bool \<Rightarrow> string \<Rightarrow> 'a rt_health_scheme \<Rightarrow> 'a rt_health_scheme" where
  "releaseStart ok err r =
     (if m_startReleased r then r
      else
        let r1 = r\<lparr>m_startReleased := True\<rparr>;
            r2 = (if ok then setState Running [] r1 else r1);
            r3 = r2\<lparr>m_startDone := True, m_startOk := ok, m_startError := (if ok then m_startError r2 else err)\<rparr>
        in emit ''proxyStarted'' (start_payload ok err r3) r3)"

definition finishSyncCycle :: "int \<Rightarrow> bool \<Rightarrow> string \<Rightarrow> 'a rt_health_scheme \<Rightarrow> 'a rt_health_scheme" where
  "finishSyncCycle secs ok err r =
     (let r0 = r\<lparr>m_syncPhase := PhaseIdle\<rparr> in
      if ok then
        let r1 = r0\<lparr>m_syncStreak := 0, m_nextSync := m_syncCycleStart r0 + sint (m_syncIntervalMs r0),
                    m_lastSyncedAt := secs\<rparr>
        in if \<not> m_startReleased r1 then releaseStart True [] r1
           else if m_state r1 = Degraded \<and> m_heartbeatStreak r1 < kDegradeAfter then setState Running [] r1
           else r1
      else
        let r1 = r0\<lparr>m_syncFailures := m_syncFailures r0 + 1, m_syncStreak := m_syncStreak r0 + 1,
                    m_lastSyncError := err,
                    m_nextSync := m_syncCycleStart r0
                      + (if m_startReleased r0 then sint (m_syncIntervalMs r0) else kFirstSyncRetryMs)\<rparr>
        in if kDegradeAfter \<le> m_syncStreak r1 \<and> m_state r1 = Running then setState Degraded err r1 else r1)"

section \<open>Frames\<close>

lemma setState_health [simp]:
  "m_syncPhase (setState s e r) = m_syncPhase r" "m_syncOk (setState s e r) = m_syncOk r"
  "m_syncStreak (setState s e r) = m_syncStreak r" "m_syncFailures (setState s e r) = m_syncFailures r"
  "m_syncIntervalMs (setState s e r) = m_syncIntervalMs r"
  "m_heartbeatInFlight (setState s e r) = m_heartbeatInFlight r"
  "m_heartbeatStreak (setState s e r) = m_heartbeatStreak r"
  "m_heartbeatFailures (setState s e r) = m_heartbeatFailures r"
  "m_startReleased (setState s e r) = m_startReleased r" "m_startDone (setState s e r) = m_startDone r"
  "m_startOk (setState s e r) = m_startOk r" "m_startError (setState s e r) = m_startError r"
  by (simp_all add: setState_def emit_def Let_def)

lemma noteHead_frame [simp]:
  "m_cfg (noteHead parse secs slot r) = m_cfg r" "m_emit (noteHead parse secs slot r) = m_emit r"
  "m_stopRequested (noteHead parse secs slot r) = m_stopRequested r"
  "m_shutdown (noteHead parse secs slot r) = m_shutdown r"
  "m_state (noteHead parse secs slot r) = m_state r"
  "m_lastError (noteHead parse secs slot r) = m_lastError r"
  "m_events (noteHead parse secs slot r) = m_events r"
  "m_admissionQueue (noteHead parse secs slot r) = m_admissionQueue r"
  "m_nextAdmissionTicket (noteHead parse secs slot r) = m_nextAdmissionTicket r"
  "m_admissionEpoch (noteHead parse secs slot r) = m_admissionEpoch r"
  "m_admitted (noteHead parse secs slot r) = m_admitted r"
  "m_effectiveMaxInFlight (noteHead parse secs slot r) = m_effectiveMaxInFlight r"
  "m_descriptorsPerCall (noteHead parse secs slot r) = m_descriptorsPerCall r"
  "m_queuedNow (noteHead parse secs slot r) = m_queuedNow r"
  "m_slots (noteHead parse secs slot r) = m_slots r" "m_nextId (noteHead parse secs slot r) = m_nextId r"
  "m_queue (noteHead parse secs slot r) = m_queue r"
  "m_pending (noteHead parse secs slot r) = m_pending r"
  "m_boxes (noteHead parse secs slot r) = m_boxes r"
  "m_leakedBoxes (noteHead parse secs slot r) = m_leakedBoxes r"
  "m_waiters (noteHead parse secs slot r) = m_waiters r"
  "m_inFlight (noteHead parse secs slot r) = m_inFlight r"
  "m_leaked (noteHead parse secs slot r) = m_leaked r"
  "m_callsTotal (noteHead parse secs slot r) = m_callsTotal r"
  "m_callsFailed (noteHead parse secs slot r) = m_callsFailed r"
  "m_syncPhase (noteHead parse secs slot r) = m_syncPhase r"
  "m_syncOk (noteHead parse secs slot r) = m_syncOk r"
  "m_syncStreak (noteHead parse secs slot r) = m_syncStreak r"
  "m_syncFailures (noteHead parse secs slot r) = m_syncFailures r"
  "m_syncIntervalMs (noteHead parse secs slot r) = m_syncIntervalMs r"
  "m_heartbeatInFlight (noteHead parse secs slot r) = m_heartbeatInFlight r"
  "m_heartbeatStreak (noteHead parse secs slot r) = m_heartbeatStreak r"
  "m_heartbeatFailures (noteHead parse secs slot r) = m_heartbeatFailures r"
  "m_startReleased (noteHead parse secs slot r) = m_startReleased r"
  "m_startDone (noteHead parse secs slot r) = m_startDone r"
  "m_startOk (noteHead parse secs slot r) = m_startOk r"
  "m_startError (noteHead parse secs slot r) = m_startError r"
  by (simp_all add: noteHead_def split: json.split option.split)

lemma noteHeartbeat_frame [simp]:
  "m_cfg (noteHeartbeat parse secs slot r) = m_cfg r"
  "m_emit (noteHeartbeat parse secs slot r) = m_emit r"
  "m_stopRequested (noteHeartbeat parse secs slot r) = m_stopRequested r"
  "m_shutdown (noteHeartbeat parse secs slot r) = m_shutdown r"
  "m_admissionQueue (noteHeartbeat parse secs slot r) = m_admissionQueue r"
  "m_nextAdmissionTicket (noteHeartbeat parse secs slot r) = m_nextAdmissionTicket r"
  "m_admissionEpoch (noteHeartbeat parse secs slot r) = m_admissionEpoch r"
  "m_admitted (noteHeartbeat parse secs slot r) = m_admitted r"
  "m_effectiveMaxInFlight (noteHeartbeat parse secs slot r) = m_effectiveMaxInFlight r"
  "m_descriptorsPerCall (noteHeartbeat parse secs slot r) = m_descriptorsPerCall r"
  "m_queuedNow (noteHeartbeat parse secs slot r) = m_queuedNow r"
  "m_slots (noteHeartbeat parse secs slot r) = m_slots r"
  "m_nextId (noteHeartbeat parse secs slot r) = m_nextId r"
  "m_queue (noteHeartbeat parse secs slot r) = m_queue r"
  "m_pending (noteHeartbeat parse secs slot r) = m_pending r"
  "m_boxes (noteHeartbeat parse secs slot r) = m_boxes r"
  "m_leakedBoxes (noteHeartbeat parse secs slot r) = m_leakedBoxes r"
  "m_waiters (noteHeartbeat parse secs slot r) = m_waiters r"
  "m_inFlight (noteHeartbeat parse secs slot r) = m_inFlight r"
  "m_leaked (noteHeartbeat parse secs slot r) = m_leaked r"
  "m_callsTotal (noteHeartbeat parse secs slot r) = m_callsTotal r"
  "m_callsFailed (noteHeartbeat parse secs slot r) = m_callsFailed r"
  "m_syncPhase (noteHeartbeat parse secs slot r) = m_syncPhase r"
  "m_syncOk (noteHeartbeat parse secs slot r) = m_syncOk r"
  "m_syncStreak (noteHeartbeat parse secs slot r) = m_syncStreak r"
  "m_syncFailures (noteHeartbeat parse secs slot r) = m_syncFailures r"
  "m_syncIntervalMs (noteHeartbeat parse secs slot r) = m_syncIntervalMs r"
  "m_heartbeatInFlight (noteHeartbeat parse secs slot r) = m_heartbeatInFlight r"
  "m_startReleased (noteHeartbeat parse secs slot r) = m_startReleased r"
  "m_startDone (noteHeartbeat parse secs slot r) = m_startDone r"
  "m_startOk (noteHeartbeat parse secs slot r) = m_startOk r"
  "m_startError (noteHeartbeat parse secs slot r) = m_startError r"
  by (simp_all add: noteHeartbeat_def Let_def)

lemma noteSync_frame [simp]:
  "m_cfg (noteSync parse slot r) = m_cfg r" "m_emit (noteSync parse slot r) = m_emit r"
  "m_stopRequested (noteSync parse slot r) = m_stopRequested r"
  "m_shutdown (noteSync parse slot r) = m_shutdown r" "m_state (noteSync parse slot r) = m_state r"
  "m_lastError (noteSync parse slot r) = m_lastError r" "m_events (noteSync parse slot r) = m_events r"
  "m_admissionQueue (noteSync parse slot r) = m_admissionQueue r"
  "m_nextAdmissionTicket (noteSync parse slot r) = m_nextAdmissionTicket r"
  "m_admissionEpoch (noteSync parse slot r) = m_admissionEpoch r"
  "m_admitted (noteSync parse slot r) = m_admitted r"
  "m_effectiveMaxInFlight (noteSync parse slot r) = m_effectiveMaxInFlight r"
  "m_descriptorsPerCall (noteSync parse slot r) = m_descriptorsPerCall r"
  "m_queuedNow (noteSync parse slot r) = m_queuedNow r" "m_slots (noteSync parse slot r) = m_slots r"
  "m_nextId (noteSync parse slot r) = m_nextId r" "m_queue (noteSync parse slot r) = m_queue r"
  "m_pending (noteSync parse slot r) = m_pending r" "m_boxes (noteSync parse slot r) = m_boxes r"
  "m_leakedBoxes (noteSync parse slot r) = m_leakedBoxes r"
  "m_waiters (noteSync parse slot r) = m_waiters r" "m_inFlight (noteSync parse slot r) = m_inFlight r"
  "m_leaked (noteSync parse slot r) = m_leaked r" "m_callsTotal (noteSync parse slot r) = m_callsTotal r"
  "m_callsFailed (noteSync parse slot r) = m_callsFailed r"
  "m_syncStreak (noteSync parse slot r) = m_syncStreak r"
  "m_syncFailures (noteSync parse slot r) = m_syncFailures r"
  "m_syncIntervalMs (noteSync parse slot r) = m_syncIntervalMs r"
  "m_heartbeatInFlight (noteSync parse slot r) = m_heartbeatInFlight r"
  "m_heartbeatStreak (noteSync parse slot r) = m_heartbeatStreak r"
  "m_heartbeatFailures (noteSync parse slot r) = m_heartbeatFailures r"
  "m_startReleased (noteSync parse slot r) = m_startReleased r"
  "m_startDone (noteSync parse slot r) = m_startDone r" "m_startOk (noteSync parse slot r) = m_startOk r"
  "m_startError (noteSync parse slot r) = m_startError r"
  by (simp_all add: noteSync_def Let_def)

lemma releaseStart_frame [simp]:
  "m_cfg (releaseStart ok err r) = m_cfg r" "m_emit (releaseStart ok err r) = m_emit r"
  "m_stopRequested (releaseStart ok err r) = m_stopRequested r"
  "m_shutdown (releaseStart ok err r) = m_shutdown r"
  "m_admissionQueue (releaseStart ok err r) = m_admissionQueue r"
  "m_nextAdmissionTicket (releaseStart ok err r) = m_nextAdmissionTicket r"
  "m_admissionEpoch (releaseStart ok err r) = m_admissionEpoch r"
  "m_admitted (releaseStart ok err r) = m_admitted r"
  "m_effectiveMaxInFlight (releaseStart ok err r) = m_effectiveMaxInFlight r"
  "m_descriptorsPerCall (releaseStart ok err r) = m_descriptorsPerCall r"
  "m_queuedNow (releaseStart ok err r) = m_queuedNow r" "m_slots (releaseStart ok err r) = m_slots r"
  "m_nextId (releaseStart ok err r) = m_nextId r" "m_queue (releaseStart ok err r) = m_queue r"
  "m_pending (releaseStart ok err r) = m_pending r" "m_boxes (releaseStart ok err r) = m_boxes r"
  "m_leakedBoxes (releaseStart ok err r) = m_leakedBoxes r"
  "m_waiters (releaseStart ok err r) = m_waiters r" "m_inFlight (releaseStart ok err r) = m_inFlight r"
  "m_leaked (releaseStart ok err r) = m_leaked r" "m_callsTotal (releaseStart ok err r) = m_callsTotal r"
  "m_callsFailed (releaseStart ok err r) = m_callsFailed r"
  "m_syncPhase (releaseStart ok err r) = m_syncPhase r" "m_syncOk (releaseStart ok err r) = m_syncOk r"
  "m_syncStreak (releaseStart ok err r) = m_syncStreak r"
  "m_syncFailures (releaseStart ok err r) = m_syncFailures r"
  "m_syncIntervalMs (releaseStart ok err r) = m_syncIntervalMs r"
  "m_heartbeatInFlight (releaseStart ok err r) = m_heartbeatInFlight r"
  "m_heartbeatStreak (releaseStart ok err r) = m_heartbeatStreak r"
  "m_heartbeatFailures (releaseStart ok err r) = m_heartbeatFailures r"
  by (simp_all add: releaseStart_def setState_def emit_def Let_def)

lemma finishSyncCycle_frame [simp]:
  "m_cfg (finishSyncCycle secs ok err r) = m_cfg r" "m_emit (finishSyncCycle secs ok err r) = m_emit r"
  "m_stopRequested (finishSyncCycle secs ok err r) = m_stopRequested r"
  "m_shutdown (finishSyncCycle secs ok err r) = m_shutdown r"
  "m_admissionQueue (finishSyncCycle secs ok err r) = m_admissionQueue r"
  "m_nextAdmissionTicket (finishSyncCycle secs ok err r) = m_nextAdmissionTicket r"
  "m_admissionEpoch (finishSyncCycle secs ok err r) = m_admissionEpoch r"
  "m_admitted (finishSyncCycle secs ok err r) = m_admitted r"
  "m_effectiveMaxInFlight (finishSyncCycle secs ok err r) = m_effectiveMaxInFlight r"
  "m_descriptorsPerCall (finishSyncCycle secs ok err r) = m_descriptorsPerCall r"
  "m_queuedNow (finishSyncCycle secs ok err r) = m_queuedNow r"
  "m_slots (finishSyncCycle secs ok err r) = m_slots r"
  "m_nextId (finishSyncCycle secs ok err r) = m_nextId r"
  "m_queue (finishSyncCycle secs ok err r) = m_queue r"
  "m_pending (finishSyncCycle secs ok err r) = m_pending r"
  "m_boxes (finishSyncCycle secs ok err r) = m_boxes r"
  "m_leakedBoxes (finishSyncCycle secs ok err r) = m_leakedBoxes r"
  "m_waiters (finishSyncCycle secs ok err r) = m_waiters r"
  "m_inFlight (finishSyncCycle secs ok err r) = m_inFlight r"
  "m_leaked (finishSyncCycle secs ok err r) = m_leaked r"
  "m_callsTotal (finishSyncCycle secs ok err r) = m_callsTotal r"
  "m_callsFailed (finishSyncCycle secs ok err r) = m_callsFailed r"
  "m_heartbeatInFlight (finishSyncCycle secs ok err r) = m_heartbeatInFlight r"
  "m_heartbeatStreak (finishSyncCycle secs ok err r) = m_heartbeatStreak r"
  "m_heartbeatFailures (finishSyncCycle secs ok err r) = m_heartbeatFailures r"
  "m_syncIntervalMs (finishSyncCycle secs ok err r) = m_syncIntervalMs r"
  "m_syncOk (finishSyncCycle secs ok err r) = m_syncOk r"
  by (simp_all add: finishSyncCycle_def Let_def)

lemma noteFinished_health [simp]:
  "m_syncPhase (noteFinished ok r) = m_syncPhase r" "m_syncOk (noteFinished ok r) = m_syncOk r"
  "m_syncStreak (noteFinished ok r) = m_syncStreak r"
  "m_syncFailures (noteFinished ok r) = m_syncFailures r"
  "m_syncIntervalMs (noteFinished ok r) = m_syncIntervalMs r"
  "m_heartbeatInFlight (noteFinished ok r) = m_heartbeatInFlight r"
  "m_heartbeatStreak (noteFinished ok r) = m_heartbeatStreak r"
  "m_heartbeatFailures (noteFinished ok r) = m_heartbeatFailures r"
  "m_startReleased (noteFinished ok r) = m_startReleased r"
  "m_startDone (noteFinished ok r) = m_startDone r" "m_startOk (noteFinished ok r) = m_startOk r"
  "m_startError (noteFinished ok r) = m_startError r"
  by (simp_all add: noteFinished_def releaseAdmission_def Let_def)

lemma prune_health [simp]:
  "m_syncPhase (prunePendingLocked r) = m_syncPhase r" "m_syncOk (prunePendingLocked r) = m_syncOk r"
  "m_syncStreak (prunePendingLocked r) = m_syncStreak r"
  "m_syncFailures (prunePendingLocked r) = m_syncFailures r"
  "m_syncIntervalMs (prunePendingLocked r) = m_syncIntervalMs r"
  "m_heartbeatInFlight (prunePendingLocked r) = m_heartbeatInFlight r"
  "m_heartbeatStreak (prunePendingLocked r) = m_heartbeatStreak r"
  "m_heartbeatFailures (prunePendingLocked r) = m_heartbeatFailures r"
  "m_startReleased (prunePendingLocked r) = m_startReleased r"
  "m_startDone (prunePendingLocked r) = m_startDone r" "m_startOk (prunePendingLocked r) = m_startOk r"
  "m_startError (prunePendingLocked r) = m_startError r"
  by (simp_all add: prunePendingLocked_def)

lemma emit_health [simp]:
  "m_syncPhase (emit n p r) = m_syncPhase r" "m_syncOk (emit n p r) = m_syncOk r"
  "m_syncStreak (emit n p r) = m_syncStreak r" "m_syncFailures (emit n p r) = m_syncFailures r"
  "m_syncIntervalMs (emit n p r) = m_syncIntervalMs r"
  "m_heartbeatInFlight (emit n p r) = m_heartbeatInFlight r"
  "m_heartbeatStreak (emit n p r) = m_heartbeatStreak r"
  "m_heartbeatFailures (emit n p r) = m_heartbeatFailures r"
  "m_startReleased (emit n p r) = m_startReleased r" "m_startDone (emit n p r) = m_startDone r"
  "m_startOk (emit n p r) = m_startOk r" "m_startError (emit n p r) = m_startError r"
  by (simp_all add: emit_def)

lemma releaseStart_simps [simp]:
  "m_startReleased (releaseStart ok err r)"
  "m_state (releaseStart ok err r) = (if ok \<and> \<not> m_startReleased r then Running else m_state r)"
  "m_startDone (releaseStart ok err r) = (m_startDone r \<or> \<not> m_startReleased r)"
  "m_startOk (releaseStart ok err r) = (if m_startReleased r then m_startOk r else ok)"
  by (simp_all add: releaseStart_def Let_def)

lemma cycle_simps [simp]:
  "m_syncPhase (finishSyncCycle secs ok err r) = PhaseIdle"
  "m_syncStreak (finishSyncCycle secs ok err r) = (if ok then 0 else m_syncStreak r + 1)"
  "m_startReleased (finishSyncCycle secs ok err r) = (ok \<or> m_startReleased r)"
  by (auto simp: finishSyncCycle_def Let_def)

end
