(* ===== verification/Runtime_Pump.thy ===== *)
theory Runtime_Pump
  imports Runtime_Health
begin

text \<open>
  What the proxy thread does between two entries into the library: the C callback
  (\<^verbatim>\<open>callbackTrampoline\<close>), the commands (\<^verbatim>\<open>drainCommands\<close>), the sync cycle (\<^verbatim>\<open>advanceSync\<close>,
  \<^verbatim>\<open>issueSync\<close>), the heartbeat (\<^verbatim>\<open>issueKeepAlive\<close>), the timing histogram (\<^verbatim>\<open>recordPump\<close>) and one
  turn of the pump loop in \<^verbatim>\<open>runOnce\<close>. The library is an environment: an entry into it may call
  back before it returns, which is the argument of type \<open>reply\<close>, and a pump call fires a list of
  callbacks. The null result of a callback is the empty text.
\<close>

section \<open>Callbacks\<close>

type_synonym reply = "(int \<times> string) option"

text \<open>The box is the one with the slot id \<open>i\<close>; it is freed when the callback returns.\<close>

definition callbackTrampoline ::
  "(string \<Rightarrow> string + json) \<Rightarrow> int \<Rightarrow> int \<Rightarrow> string \<Rightarrow> nat \<Rightarrow> 'a rt_health_scheme \<Rightarrow> 'a rt_health_scheme" where
  "callbackTrampoline parse secs status res i r =
     (let r1 = r\<lparr>m_slots := (m_slots r)(i := finish_slot status res (m_slots r i)),
                 m_boxes := remove1 i (m_boxes r)\<rparr>;
          slot = m_slots r1 i
      in case slot_kind slot of
           Heartbeat \<Rightarrow>
             noteFinished (status = RET_SUCCESS) (noteHeartbeat parse secs slot (r1\<lparr>m_heartbeatInFlight := False\<rparr>))
         | User \<Rightarrow> noteFinished (status = RET_SUCCESS) r1
         | _ \<Rightarrow> (let r2 = noteSync parse slot r1 in r2\<lparr>m_inFlight := m_inFlight r2 - 1\<rparr>))"

definition library_reply ::
  "(string \<Rightarrow> string + json) \<Rightarrow> int \<Rightarrow> reply \<Rightarrow> nat \<Rightarrow> 'a rt_health_scheme \<Rightarrow> 'a rt_health_scheme" where
  "library_reply parse secs reply i r =
     (case reply of None \<Rightarrow> r | Some (status, res) \<Rightarrow> callbackTrampoline parse secs status res i r)"

text \<open>A list of callbacks in the order they fire.\<close>

fun fire_callbacks ::
  "(string \<Rightarrow> string + json) \<Rightarrow> int \<Rightarrow> (nat \<times> int \<times> string) list \<Rightarrow> 'a rt_health_scheme \<Rightarrow> 'a rt_health_scheme" where
  "fire_callbacks parse secs [] r = r"
| "fire_callbacks parse secs ((i, status, res) # cs) r =
     fire_callbacks parse secs cs (callbackTrampoline parse secs status res i r)"

section \<open>Heartbeat and sync\<close>

text \<open>The tag and a flag that asks for the header without its transactions.\<close>

definition beat_params :: string where
  "beat_params = ''[\"latest\",false]''"

definition issueKeepAlive ::
  "(string \<Rightarrow> string + json) \<Rightarrow> int \<Rightarrow> DescriptorSnapshot \<Rightarrow> reply \<Rightarrow> 'a rt_health_scheme \<Rightarrow> 'a rt_health_scheme" where
  "issueKeepAlive parse secs snap reply r =
     (case tryAdmit snap r of
        (Some _, r1) \<Rightarrow> r1
      | (None, r1) \<Rightarrow>
          let (i, r2) = alloc_slot ''eth_getBlockByNumber'' beat_params Heartbeat r1;
              r3 = r2\<lparr>m_heartbeatInFlight := True, m_inFlight := m_inFlight r2 + 1, m_boxes := m_boxes r2 @ [i]\<rparr>;
              r4 = library_reply parse secs reply i r3;
              r5 = prunePendingLocked r4
          in r5\<lparr>m_pending := m_pending r5 @ [i]\<rparr>)"

definition issueSync ::
  "(string \<Rightarrow> string + json) \<Rightarrow> int \<Rightarrow> reply \<Rightarrow> Kind \<Rightarrow> 'a rt_health_scheme \<Rightarrow> 'a rt_health_scheme" where
  "issueSync parse secs reply kind r =
     (let isop = (kind = OpSync);
          (i, r1) = alloc_slot (if isop then ''nvp_op_sync'' else ''nvp_eth_sync'') [] kind r;
          r2 = prunePendingLocked r1;
          r3 = r2\<lparr>m_pending := m_pending r2 @ [i], m_syncPhase := (if isop then PhaseOp else PhaseEth),
                  m_boxes := m_boxes r2 @ [i], m_inFlight := m_inFlight r2 + 1\<rparr>
      in library_reply parse secs reply i r3)"

definition advanceSync ::
  "(string \<Rightarrow> string + json) \<Rightarrow> int \<Rightarrow> int \<Rightarrow> reply \<Rightarrow> 'a rt_health_scheme \<Rightarrow> 'a rt_health_scheme" where
  "advanceSync parse now secs reply r =
     (case m_syncPhase r of
        PhaseIdle \<Rightarrow>
          if now < m_nextSync r then r else issueSync parse secs reply Sync (r\<lparr>m_syncCycleStart := now\<rparr>)
      | PhaseEthDone \<Rightarrow>
          if m_syncOk r \<and> opExecutionApiUrls (m_cfg r) \<noteq> [] then issueSync parse secs reply OpSync r
          else finishSyncCycle secs (m_syncOk r) (m_syncError r) r
      | PhaseOpDone \<Rightarrow> finishSyncCycle secs (m_syncOk r) (m_syncError r) r
      | _ \<Rightarrow> r)"

section \<open>Commands\<close>

lemma trampoline_frame [simp]:
  "m_cfg (callbackTrampoline parse secs status res i r) = m_cfg r"
  "m_emit (callbackTrampoline parse secs status res i r) = m_emit r"
  "m_stopRequested (callbackTrampoline parse secs status res i r) = m_stopRequested r"
  "m_shutdown (callbackTrampoline parse secs status res i r) = m_shutdown r"
  "m_admissionQueue (callbackTrampoline parse secs status res i r) = m_admissionQueue r"
  "m_nextAdmissionTicket (callbackTrampoline parse secs status res i r) = m_nextAdmissionTicket r"
  "m_admissionEpoch (callbackTrampoline parse secs status res i r) = m_admissionEpoch r"
  "m_effectiveMaxInFlight (callbackTrampoline parse secs status res i r) = m_effectiveMaxInFlight r"
  "m_descriptorsPerCall (callbackTrampoline parse secs status res i r) = m_descriptorsPerCall r"
  "m_queuedNow (callbackTrampoline parse secs status res i r) = m_queuedNow r"
  "m_nextId (callbackTrampoline parse secs status res i r) = m_nextId r"
  "m_queue (callbackTrampoline parse secs status res i r) = m_queue r"
  "m_pending (callbackTrampoline parse secs status res i r) = m_pending r"
  "m_leakedBoxes (callbackTrampoline parse secs status res i r) = m_leakedBoxes r"
  "m_waiters (callbackTrampoline parse secs status res i r) = m_waiters r"
  "m_leaked (callbackTrampoline parse secs status res i r) = m_leaked r"
  "m_callsTotal (callbackTrampoline parse secs status res i r) = m_callsTotal r"
  "m_syncStreak (callbackTrampoline parse secs status res i r) = m_syncStreak r"
  "m_syncFailures (callbackTrampoline parse secs status res i r) = m_syncFailures r"
  "m_syncIntervalMs (callbackTrampoline parse secs status res i r) = m_syncIntervalMs r"
  "m_startReleased (callbackTrampoline parse secs status res i r) = m_startReleased r"
  "m_startDone (callbackTrampoline parse secs status res i r) = m_startDone r"
  "m_startOk (callbackTrampoline parse secs status res i r) = m_startOk r"
  "m_startError (callbackTrampoline parse secs status res i r) = m_startError r"
  by (simp_all add: callbackTrampoline_def Let_def split: Kind.split)

lemma reply_frame [simp]:
  "m_cfg (library_reply parse secs reply i r) = m_cfg r"
  "m_emit (library_reply parse secs reply i r) = m_emit r"
  "m_stopRequested (library_reply parse secs reply i r) = m_stopRequested r"
  "m_shutdown (library_reply parse secs reply i r) = m_shutdown r"
  "m_admissionQueue (library_reply parse secs reply i r) = m_admissionQueue r"
  "m_nextAdmissionTicket (library_reply parse secs reply i r) = m_nextAdmissionTicket r"
  "m_admissionEpoch (library_reply parse secs reply i r) = m_admissionEpoch r"
  "m_effectiveMaxInFlight (library_reply parse secs reply i r) = m_effectiveMaxInFlight r"
  "m_descriptorsPerCall (library_reply parse secs reply i r) = m_descriptorsPerCall r"
  "m_queuedNow (library_reply parse secs reply i r) = m_queuedNow r"
  "m_nextId (library_reply parse secs reply i r) = m_nextId r"
  "m_queue (library_reply parse secs reply i r) = m_queue r"
  "m_pending (library_reply parse secs reply i r) = m_pending r"
  "m_leakedBoxes (library_reply parse secs reply i r) = m_leakedBoxes r"
  "m_waiters (library_reply parse secs reply i r) = m_waiters r"
  "m_leaked (library_reply parse secs reply i r) = m_leaked r"
  "m_callsTotal (library_reply parse secs reply i r) = m_callsTotal r"
  "m_syncStreak (library_reply parse secs reply i r) = m_syncStreak r"
  "m_syncFailures (library_reply parse secs reply i r) = m_syncFailures r"
  "m_syncIntervalMs (library_reply parse secs reply i r) = m_syncIntervalMs r"
  "m_startReleased (library_reply parse secs reply i r) = m_startReleased r"
  "m_startDone (library_reply parse secs reply i r) = m_startDone r"
  "m_startOk (library_reply parse secs reply i r) = m_startOk r"
  "m_startError (library_reply parse secs reply i r) = m_startError r"
  by (simp_all add: library_reply_def split: option.split)

lemma dispatch_front_Some:
  "dispatch_front r = Some (i, r1) \<longleftrightarrow> (\<exists>is. m_queue r = i # is \<and>
     r1 = r\<lparr>m_queue := is, m_boxes := m_boxes r @ [i], m_inFlight := m_inFlight r + 1, m_callsTotal := m_callsTotal r + 1\<rparr>)"
  by (auto simp: dispatch_front_def split: list.split)

text \<open>\<open>lib i\<close> is what the library calls back before \<^verbatim>\<open>proxyCall\<close> returns for the slot \<open>i\<close>.\<close>

function (sequential) drainCommands ::
  "(string \<Rightarrow> string + json) \<Rightarrow> int \<Rightarrow> (nat \<Rightarrow> reply) \<Rightarrow> 'a rt_health_scheme \<Rightarrow> 'a rt_health_scheme" where
  "drainCommands parse secs lib r =
     (case dispatch_front r of
        None \<Rightarrow> r
      | Some (i, r1) \<Rightarrow> drainCommands parse secs lib (library_reply parse secs (lib i) i r1))"
  by pat_completeness auto
termination
  by (relation "measure (\<lambda>(parse, secs, lib, r). length (m_queue r))")
     (auto simp: dispatch_front_Some)

declare drainCommands.simps [simp del]

section \<open>The pump\<close>

record rt_pump = rt_health +
  m_pumpCalls :: int
  m_pumpMaxMs :: int
  m_pumpIdle :: "int list"
  m_pumpBusy :: "int list"
  nextKeepAlive :: int

definition kEdges :: "int list" where
  "kEdges = [1, 5, 20, 100, 500, 2000]"

definition pump_bucket :: "int \<Rightarrow> nat" where
  "pump_bucket ms = length (takeWhile (\<lambda>e. \<not> ms < e) kEdges)"

definition bump_at :: "nat \<Rightarrow> int list \<Rightarrow> int list" where
  "bump_at b xs = xs[b := xs ! b + 1]"

definition recordPump :: "int \<Rightarrow> bool \<Rightarrow> 'a rt_pump_scheme \<Rightarrow> 'a rt_pump_scheme" where
  "recordPump ms busy r =
     (let b = pump_bucket ms;
          r1 = (if busy then r\<lparr>m_pumpBusy := bump_at b (m_pumpBusy r)\<rparr> else r\<lparr>m_pumpIdle := bump_at b (m_pumpIdle r)\<rparr>)
      in r1\<lparr>m_pumpCalls := m_pumpCalls r1 + 1, m_pumpMaxMs := max (m_pumpMaxMs r1) ms\<rparr>)"

definition pumpHistogram :: "'a rt_pump_scheme \<Rightarrow> json" where
  "pumpHistogram r =
     (let num = (\<lambda>n. JInt (word_of_int n)) in
      jobj [(''calls'', num (m_pumpCalls r)),
            (''maxMs'', num (m_pumpMaxMs r)),
            (''bucketEdgesMs'', JArr (map num kEdges)),
            (''idle'', JArr (map num (m_pumpIdle r))),
            (''busy'', JArr (map num (m_pumpBusy r)))])"

text \<open>
  What one turn of the loop sees: the clocks, the descriptor query, what the library calls back
  within each entry, the callbacks the pump call fires, its result and its duration.
\<close>

record turn =
  t_now :: int
  t_secs :: int
  t_snapshot :: DescriptorSnapshot
  t_calls :: "nat \<Rightarrow> reply"
  t_sync :: reply
  t_beat :: reply
  t_callbacks :: "(nat \<times> int \<times> string) list"
  t_rc :: int
  t_ms :: int

definition beat_due :: "int \<Rightarrow> 'a rt_pump_scheme \<Rightarrow> bool" where
  "beat_due now r \<longleftrightarrow> m_startReleased r \<and> keepAliveEnabled r \<and> \<not> m_heartbeatInFlight r \<and> nextKeepAlive r \<le> now"

definition keepalive_step :: "(string \<Rightarrow> string + json) \<Rightarrow> turn \<Rightarrow> 'a rt_pump_scheme \<Rightarrow> 'a rt_pump_scheme" where
  "keepalive_step parse t r =
     (if beat_due (t_now t) r then
        (issueKeepAlive parse (t_secs t) (t_snapshot t) (t_beat t) r)
          \<lparr>nextKeepAlive := t_now t + sint (keepAliveIntervalMs (m_cfg r))\<rparr>
      else r)"

text \<open>One turn: whether the loop is left, and the state. The naps at its end change nothing.\<close>

definition pump_turn :: "(string \<Rightarrow> string + json) \<Rightarrow> turn \<Rightarrow> 'a rt_pump_scheme \<Rightarrow> bool \<times> 'a rt_pump_scheme" where
  "pump_turn parse t r =
     (let r1 = drainCommands parse (t_secs t) (t_calls t) r in
      if stopping r1 then (True, r1)
      else
        let r2 = advanceSync parse (t_now t) (t_secs t) (t_sync t) r1;
            r3 = keepalive_step parse t r2;
            wasBusy = (0 < m_inFlight r3);
            r4 = fire_callbacks parse (t_secs t) (t_callbacks t) r3
        in (t_rc t = RET_CANCELLED, recordPump (t_ms t) wasBusy r4))"

end
