(* ===== verification/Runtime_Lifecycle.thy ===== *)
theory Runtime_Lifecycle
  imports Runtime_Pump
begin

text \<open>
  The life of the runtime: \<^verbatim>\<open>start\<close>, \<^verbatim>\<open>stop\<close> and the destructor on the caller's threads,
  \<^verbatim>\<open>threadMain\<close>, \<^verbatim>\<open>runOnce\<close> and \<^verbatim>\<open>teardown\<close> on the proxy thread, the diagnostic report and
  the status view. An operation that blocks is split where it waits: the part that posts the
  request, and the part that reads the outcome when the wait ends, satisfied or at its timeout.
\<close>

section \<open>State\<close>

text \<open>\<open>m_ctx\<close> tells whether a library context is held, \<open>m_thread\<close> whether the thread was created.\<close>

record rt = rt_pump +
  m_upstreamJson :: string
  m_ctx :: bool
  m_thread :: bool
  m_runActive :: bool
  m_parked :: bool
  m_runRequested :: bool
  m_runFinished :: bool
  m_threadExited :: bool
  m_startedAt :: int

definition new_runtime :: "bool \<Rightarrow> rt" where
  "new_runtime emitter =
    \<lparr>m_state = Idle, m_lastError = [], m_cfg = default_config, m_emit = emitter, m_events = [],
     m_stopRequested = False, m_shutdown = False,
     m_admissionQueue = [], m_nextAdmissionTicket = 1, m_admissionEpoch = 0, m_admitted = 0,
     m_effectiveMaxInFlight = 64, m_descriptorsPerCall = 12, m_resourceRejections = 0,
     m_callsQueued = 0, m_queueTimeouts = 0, m_queuedNow = 0,
     m_slots = (\<lambda>i. new_slot i [] [] User), m_nextId = 1, m_queue = [], m_pending = [], m_boxes = [],
     m_leakedBoxes = [], m_waiters = [], m_inFlight = 0, m_leaked = 0, m_callsTotal = 0, m_callsFailed = 0,
     m_heartbeatInFlight = False, m_heartbeatStreak = 0, m_heartbeatFailures = 0, m_headBlockNumber = [],
     m_headUpdatedAt = 0, m_syncPhase = PhaseIdle, m_syncOk = False, m_syncError = [], m_syncCycleStart = 0,
     m_nextSync = 0, m_syncIntervalMs = 0, m_syncIntervalReported = 0, m_syncFailures = 0, m_syncStreak = 0,
     m_lastSyncError = [], m_lastSyncedAt = 0, m_startReleased = False, m_startDone = False, m_startOk = False,
     m_startError = [],
     m_pumpCalls = 0, m_pumpMaxMs = 0, m_pumpIdle = replicate 7 0, m_pumpBusy = replicate 7 0, nextKeepAlive = 0,
     m_upstreamJson = [], m_ctx = False, m_thread = False, m_runActive = False, m_parked = False,
     m_runRequested = False, m_runFinished = True, m_threadExited = False, m_startedAt = 0\<rparr>"

text \<open>
  The report of a wait that expired. The two thread ids are arguments, and so is whether
  \<^verbatim>\<open>m_mu\<close> could be taken without waiting.
\<close>

definition blockedReport :: "string \<Rightarrow> string \<Rightarrow> bool \<Rightarrow> string \<Rightarrow> rt \<Rightarrow> string" where
  "blockedReport me proxy locked what r =
     what @ '' '' @ em_dash @ '' waiting thread '' @ me @ '', proxy thread '' @ proxy
      @ (if m_parked r then '' (parked between runs)'' else '' (inside a run)'')
      @ '', state='' @ stateName (m_state r)
      @ '', runActive='' @ (if m_runActive r then ''yes'' else ''no'')
      @ '', stopRequested='' @ (if m_stopRequested r then ''yes'' else ''no'')
      @ '', shutdown='' @ (if m_shutdown r then ''yes'' else ''no'')
      @ '', inFlight='' @ to_string (m_inFlight r)
      @ '', admitted='' @ to_string (m_admitted r)
      @ '', pumps='' @ to_string (m_pumpCalls r)
      @ (if locked then '', queued='' @ to_string (int (length (m_queue r)))
                         @ '', pending='' @ to_string (int (length (m_pending r)))
         else '', queue depth unknown (m_mu is held)'')"

section \<open>The caller's threads\<close>

definition fan_out_estimate :: "ProxyConfig \<Rightarrow> i64" where
  "fan_out_estimate cfg =
     (if 2 ^ 63 - 1 - 2 < sint (parallelBlockDownloads cfg) then 2 ^ 63 - 1 else parallelBlockDownloads cfg + 2)"

definition no_descriptors_error :: "DescriptorSnapshot \<Rightarrow> string" where
  "no_descriptors_error snap =
     ''not enough file descriptors to start the proxy safely (open '' @ to_string (sint (openCount snap))
       @ '' of '' @ to_string (sint (softLimit snap)) @ ''; reserve ''
       @ to_string (sint (descriptorReserve (softLimit snap))) @ '')''"

text \<open>The reset of the admission state under its lock, with the configuration of the new run.\<close>

definition start_reset :: "(json \<Rightarrow> string) \<Rightarrow> ProxyConfig \<Rightarrow> rt \<Rightarrow> rt" where
  "start_reset dump cfg r =
     r\<lparr>m_admissionEpoch := m_admissionEpoch r + 1, m_admissionQueue := [], m_queuedNow := 0, m_admitted := 0,
       m_cfg := cfg, m_upstreamJson := toUpstreamJson dump cfg, m_stopRequested := False, m_inFlight := 0\<rparr>"

definition start_begin ::
  "(json \<Rightarrow> string) \<Rightarrow> DescriptorSnapshot \<Rightarrow> ProxyConfig \<Rightarrow> rt \<Rightarrow> StdLogosResult option \<times> rt" where
  "start_begin dump snap cfg r =
     (if m_runActive r then (Some (fail_result ''proxy already started''), r)
      else
        let r1 = start_reset dump cfg r;
            perCall = i64_max 4 (fan_out_estimate cfg);
            capacity = descriptorOperationCapacity snap perCall;
            r2 = r1\<lparr>m_descriptorsPerCall := perCall,
                    m_effectiveMaxInFlight :=
                      (if 0 \<le> sint capacity then i64_min (maxInFlight cfg) capacity else maxInFlight cfg)\<rparr>
        in if capacity = 0 then
             (Some (fail_result (no_descriptors_error snap)), setState Failed (no_descriptors_error snap) r2)
           else
             (None, (setState Starting [] (r2\<lparr>m_thread := True\<rparr>))
                \<lparr>m_startDone := False, m_startOk := False, m_startError := [], m_runFinished := False,
                 m_runRequested := True\<rparr>))"

definition start_timeout_text :: "rt \<Rightarrow> string" where
  "start_timeout_text r =
     ''start() timed out after '' @ to_string (sint (startTimeoutMs (m_cfg r)))
       @ ''ms waiting for the light client to initialise''
       @ (if m_lastSyncError r = [] then [] else ''; last sync error: '' @ m_lastSyncError r)"

text \<open>The end of the wait for \<^verbatim>\<open>m_startDone\<close>; \<open>report\<close> is the diagnostic report.\<close>

definition start_end :: "(string \<Rightarrow> rt \<Rightarrow> string) \<Rightarrow> int \<Rightarrow> rt \<Rightarrow> StdLogosResult \<times> rt" where
  "start_end report secs r =
     (if \<not> m_startDone r then (fail_result (report (start_timeout_text r) r), r)
      else if \<not> m_startOk r then (fail_result (m_startError r), r)
      else (ok_result (jobj [(''chainId'', JInt (expectedChainId (m_cfg r)))]), r\<lparr>m_startedAt := secs\<rparr>))"

definition stop_begin :: "rt \<Rightarrow> StdLogosResult option \<times> rt" where
  "stop_begin r =
     (if \<not> m_thread r \<or> m_runFinished r \<and> \<not> m_runActive r
      then (Some (fail_result ''proxy is not running''), r)
      else (None, r\<lparr>m_stopRequested := True\<rparr>))"

definition stop_end :: "(string \<Rightarrow> rt \<Rightarrow> string) \<Rightarrow> rt \<Rightarrow> StdLogosResult" where
  "stop_end report r =
     (if m_runFinished r then ok_result JNull
      else fail_result (report ''stop() timed out waiting for the proxy to drain'' r))"

text \<open>
  \<^verbatim>\<open>start\<close> and \<^verbatim>\<open>stop\<close> as one caller executes them; \<open>until\<close> is what the other threads do until its
  wait ends.
\<close>

definition start_op ::
  "(json \<Rightarrow> string) \<Rightarrow> (string \<Rightarrow> rt \<Rightarrow> string) \<Rightarrow> DescriptorSnapshot \<Rightarrow> int \<Rightarrow> (rt \<Rightarrow> rt) \<Rightarrow> ProxyConfig
     \<Rightarrow> rt \<Rightarrow> StdLogosResult \<times> rt" where
  "start_op dump report snap secs until cfg r =
     (case start_begin dump snap cfg r of
        (Some e, r1) \<Rightarrow> (e, r1)
      | (None, r1) \<Rightarrow> start_end report secs (until r1))"

definition stop_op :: "(string \<Rightarrow> rt \<Rightarrow> string) \<Rightarrow> (rt \<Rightarrow> rt) \<Rightarrow> rt \<Rightarrow> StdLogosResult \<times> rt" where
  "stop_op report until r =
     (case stop_begin r of
        (Some e, r1) \<Rightarrow> (e, r1)
      | (None, r1) \<Rightarrow> (stop_end report (until r1), until r1))"

text \<open>The destructor after its own \<^verbatim>\<open>stop\<close>: the flag the proxy thread leaves on.\<close>

definition request_shutdown :: "rt \<Rightarrow> rt" where
  "request_shutdown r = r\<lparr>m_shutdown := True\<rparr>"

text \<open>
  \<^verbatim>\<open>call\<close> as one caller executes it. \<open>ks\<close> are its wake-ups in the admission queue, \<open>mid\<close> what
  other threads do between the admission and the queueing, \<open>until\<close> what they do until the wait on
  the slot ends. \<^term>\<open>None\<close> is a schedule that leaves the caller in the admission queue. The
  printer may throw, as it does on text that is not UTF-8; the call then ends with the exception,
  after its admission and before its command is queued.
\<close>

definition call_op ::
  "(string \<Rightarrow> string + json) \<Rightarrow> (json \<Rightarrow> exn + string) \<Rightarrow> (string \<Rightarrow> rt \<Rightarrow> string) \<Rightarrow> DescriptorSnapshot \<Rightarrow> int
     \<Rightarrow> rt wakeup list \<Rightarrow> (rt \<Rightarrow> rt) \<Rightarrow> (rt \<Rightarrow> rt) \<Rightarrow> string \<Rightarrow> json \<Rightarrow> rt
     \<Rightarrow> ((exn + StdLogosResult) \<times> rt) option" where
  "call_op parse dump report snap now ks mid until method params r =
     (case call_precheck params r of
        Some e \<Rightarrow> Some (Inr (fail_result e), r)
      | None \<Rightarrow>
          (case waitForAdmission snap now ks r of
             (Waiting w, r1) \<Rightarrow> None
           | (Refused e, r1) \<Rightarrow> Some (Inr (fail_result e), r1)
           | (Admitted, r1) \<Rightarrow>
               (case dump params of
                  Inl e \<Rightarrow> Some (Inl e, snd (alloc_slot method [] User (mid r1)))
                | Inr params_text \<Rightarrow>
                    (case call_enqueue method params_text (mid r1) of
                       (Inl e, r2) \<Rightarrow> Some (Inr (fail_result e), r2)
                     | (Inr i, r2) \<Rightarrow>
                         (case call_finish parse (\<lambda>what q. report what q) i (until r2) of
                            (res, r3) \<Rightarrow> Some (Inr res, r3))))))"

section \<open>The proxy thread\<close>

text \<open>\<^verbatim>\<open>threadMain\<close>: parking, and waking up to leave or to run.\<close>

definition thread_park :: "rt \<Rightarrow> rt" where
  "thread_park r = r\<lparr>m_parked := True\<rparr>"

definition thread_wakes :: "rt \<Rightarrow> bool" where
  "thread_wakes r \<longleftrightarrow> m_runRequested r \<or> m_shutdown r"

text \<open>Whether the loop goes on to a run.\<close>

definition thread_wake :: "rt \<Rightarrow> bool \<times> rt" where
  "thread_wake r =
     (if m_shutdown r then (False, r\<lparr>m_parked := False, m_threadExited := True\<rparr>)
      else (True, r\<lparr>m_parked := False, m_runRequested := False\<rparr>))"

text \<open>\<^verbatim>\<open>runOnce\<close> up to the library's start.\<close>

definition run_reset :: "rt \<Rightarrow> rt" where
  "run_reset r = r\<lparr>m_heartbeatStreak := 0, m_heartbeatInFlight := False, m_headBlockNumber := [],
     m_headUpdatedAt := 0, m_lastSyncError := [], m_lastSyncedAt := 0\<rparr>"

definition null_context_error :: string where
  "null_context_error =
     ''startVerifProxy returned NULL '' @ em_dash @ '' the library reports no reason through the C API; see the module log for the chronicles output (topics vp_main / vp_engine)''"

text \<open>The path of a library that could not start.\<close>

definition run_refused :: "rt \<Rightarrow> rt" where
  "run_refused r =
     (let r1 = r\<lparr>m_startDone := True, m_startOk := False, m_startError := null_context_error\<rparr>;
          r2 = setState Failed ''startVerifProxy returned NULL'' r1;
          r3 = emit ''proxyStarted'' (jobj [(''success'', JBool False), (''error'', JStr (m_startError r2))]) r2
      in r3\<lparr>m_runFinished := True\<rparr>)"

text \<open>The path of a library that started, up to the pump loop.\<close>

definition run_accepted :: "(string \<Rightarrow> string + json) \<Rightarrow> int \<Rightarrow> reply \<Rightarrow> rt \<Rightarrow> rt" where
  "run_accepted parse now interval r =
     (let ms = readSyncIntervalMs parse interval in
      r\<lparr>m_ctx := True, m_runActive := True, m_syncIntervalMs := ms, m_syncIntervalReported := ms,
        m_syncPhase := PhaseIdle, m_syncStreak := 0, m_startReleased := False, m_nextSync := now,
        nextKeepAlive := now\<rparr>)"

text \<open>
  \<^verbatim>\<open>teardown\<close> before, during and after its drain loop. What follows the drain is in two parts: the
  first ends with the run no longer active, and another thread may call \<^verbatim>\<open>start\<close> before the second.
\<close>

definition teardown_begin :: "rt \<Rightarrow> rt" where
  "teardown_begin r =
     setState Draining []
       (releaseStart False ''the proxy was stopped before its first light-client sync'' r)"

text \<open>One turn of the drain is the callbacks of one pump call, its result and the clock after it.\<close>

fun drain_loop ::
  "(string \<Rightarrow> string + json) \<Rightarrow> int \<Rightarrow> int \<Rightarrow> ((nat \<times> int \<times> string) list \<times> int \<times> int) list \<Rightarrow> int \<Rightarrow> rt \<Rightarrow> rt" where
  "drain_loop parse secs deadline [] now r = r"
| "drain_loop parse secs deadline ((cbs, rc, after) # ts) now r =
     (if \<not> (0 < m_inFlight r \<and> now < deadline) then r
      else let r1 = fire_callbacks parse secs cbs r in
           if rc = RET_CANCELLED then r1 else drain_loop parse secs deadline ts after r1)"

definition teardown_free :: "rt \<Rightarrow> rt" where
  "teardown_free r =
     (let r1 = failAllPending ''proxy shutting down'' r in
      r1\<lparr>m_ctx := False, m_leakedBoxes := m_leakedBoxes r1 @ m_boxes r1, m_boxes := [],
         m_runActive := False, m_inFlight := 0, m_admitted := 0\<rparr>)"

definition teardown_done :: "rt \<Rightarrow> rt" where
  "teardown_done r =
     (emit ''proxyStopped'' (jobj [(''success'', JBool True)]) (setState Stopped [] r))\<lparr>m_runFinished := True\<rparr>"

definition teardown ::
  "(string \<Rightarrow> string + json) \<Rightarrow> int \<Rightarrow> ((nat \<times> int \<times> string) list \<times> int \<times> int) list \<Rightarrow> int \<Rightarrow> rt \<Rightarrow> rt" where
  "teardown parse secs ts now r =
     (let r1 = teardown_begin r in
      teardown_done (teardown_free
        (drain_loop parse secs (now + sint (drainTimeoutMs (m_cfg r1))) ts now r1)))"

text \<open>The pump loop over a list of turns, and a whole run that ends in a teardown.\<close>

fun pump_loop :: "(string \<Rightarrow> string + json) \<Rightarrow> turn list \<Rightarrow> rt \<Rightarrow> bool \<times> rt" where
  "pump_loop parse [] r = (False, r)"
| "pump_loop parse (t # ts) r =
     (case pump_turn parse t r of (True, r1) \<Rightarrow> (True, r1) | (False, r1) \<Rightarrow> pump_loop parse ts r1)"

definition runOnce ::
  "(string \<Rightarrow> string + json) \<Rightarrow> bool \<Rightarrow> int \<Rightarrow> reply \<Rightarrow> turn list \<Rightarrow> ((nat \<times> int \<times> string) list \<times> int \<times> int) list
     \<Rightarrow> int \<Rightarrow> int \<Rightarrow> rt \<Rightarrow> rt option" where
  "runOnce parse started now interval turns drains stop_secs stop_now r =
     (let r1 = run_reset r in
      if \<not> started then Some (run_refused r1)
      else case pump_loop parse turns (run_accepted parse now interval r1) of
          (True, r2) \<Rightarrow> Some (teardown parse stop_secs drains stop_now r2)
        | (False, _) \<Rightarrow> None)"

section \<open>Status\<close>

definition status_counters :: "rt \<Rightarrow> json" where
  "status_counters r =
     (let num = (\<lambda>n. JInt (word_of_int n)) in
      jobj [(''callsTotal'', num (m_callsTotal r)), (''callsFailed'', num (m_callsFailed r)),
            (''callsInFlight'', num (m_inFlight r)), (''callsAdmitted'', num (m_admitted r)),
            (''leakedCalls'', num (m_leaked r)), (''pendingSlots'', num (int (length (m_pending r)))),
            (''heartbeatFailures'', num (m_heartbeatFailures r)),
            (''resourceRejections'', num (m_resourceRejections r)),
            (''callsQueued'', num (m_callsQueued r)), (''queueTimeouts'', num (m_queueTimeouts r))])"

definition status_resources :: "DescriptorSnapshot \<Rightarrow> rt \<Rightarrow> json" where
  "status_resources snap r =
     jobj [(''openDescriptors'', JInt (openCount snap)), (''softDescriptorLimit'', JInt (softLimit snap)),
           (''descriptorReserve'', JInt (descriptorReserve (softLimit snap))),
           (''estimatedDescriptorsPerCall'', JInt (m_descriptorsPerCall r)),
           (''configuredMaxInFlight'', JInt (maxInFlight (m_cfg r))),
           (''effectiveMaxInFlight'', JInt (m_effectiveMaxInFlight r)),
           (''queuedCalls'', JInt (word_of_int (m_queuedNow r))),
           (''queueTimeoutMs'', JInt (queueTimeoutMs (m_cfg r)))]"

definition status_sync :: "rt \<Rightarrow> json" where
  "status_sync r =
     (let num = (\<lambda>n. JInt (word_of_int n)) in
      jobj [(''intervalMs'', JInt (m_syncIntervalReported r)), (''lastSyncedAt'', num (m_lastSyncedAt r)),
            (''lastError'', JStr (m_lastSyncError r)), (''failures'', num (m_syncFailures r)),
            (''consecutiveFailures'', num (m_syncStreak r))])"

definition statusSnapshot :: "DescriptorSnapshot \<Rightarrow> int \<Rightarrow> rt \<Rightarrow> json" where
  "statusSnapshot snap secs r =
     (let num = (\<lambda>n. JInt (word_of_int n)) in
      jobj [(''state'', JStr (stateName (m_state r))),
            (''network'', JStr (network (m_cfg r))),
            (''chainId'', JInt (expectedChainId (m_cfg r))),
            (''startedAt'', num (m_startedAt r)),
            (''uptimeSeconds'', num (if m_startedAt r \<noteq> 0 then secs - m_startedAt r else 0)),
            (''lastError'', JStr (m_lastError r)),
            (''head'', jobj [(''blockNumber'', JStr (m_headBlockNumber r)), (''updatedAt'', num (m_headUpdatedAt r))]),
            (''counters'', status_counters r),
            (''resources'', status_resources snap r),
            (''sync'', status_sync r),
            (''keepAlive'', JStr (keepAlive (m_cfg r))),
            (''pump'', pumpHistogram r)])"

end
