(* ===== verification/Admission_Properties.thy ===== *)
theory Admission_Properties
  imports Runtime_Admission
begin

text \<open>
  The properties of admission control: an admission stays within the ceiling and the descriptor
  budget, the queue is first in first out, a caller that gives up leaves nothing behind, and no
  wait outlives its deadline.
\<close>

section \<open>The component's invariant\<close>

definition admission_ok :: "'a rt_admission_scheme \<Rightarrow> bool" where
  "admission_ok r \<longleftrightarrow> sorted_wrt (<) (m_admissionQueue r)
     \<and> (\<forall>t \<in> set (m_admissionQueue r). t < m_nextAdmissionTicket r)
     \<and> m_queuedNow r = int (length (m_admissionQueue r)) \<and> 0 \<le> m_admitted r"

lemma sorted_wrt_remove1: "sorted_wrt P xs \<Longrightarrow> sorted_wrt P (remove1 x xs)"
  by (induction xs) (auto dest: notin_set_remove1 set_remove1_subset [THEN subsetD])

lemma admission_ok_distinct: "admission_ok r \<Longrightarrow> distinct (m_admissionQueue r)"
  by (simp add: admission_ok_def strict_sorted_iff)

lemma remove_ticket_ok:
  assumes "admission_ok r"
  shows "admission_ok (snd (removeAdmissionTicketLocked t r))"
proof (cases "t \<in> set (m_admissionQueue r)")
  case True
  then have "int (length (remove1 t (m_admissionQueue r))) = int (length (m_admissionQueue r)) - 1"
    by (rule int_length_remove1)
  then show ?thesis
    using assms set_remove1_subset [of t "m_admissionQueue r"] True
    by (auto simp: admission_ok_def removeAdmissionTicketLocked_def sorted_wrt_remove1)
qed (use assms in \<open>simp add: removeAdmissionTicketLocked_def\<close>)

lemma remove_ticket_gone:
  "admission_ok r \<Longrightarrow> t \<notin> set (m_admissionQueue (snd (removeAdmissionTicketLocked t r)))"
  using admission_ok_distinct [of r] by (simp add: removeAdmissionTicketLocked_def set_remove1_eq)

lemma remove_ticket_frame [simp]:
  "m_admitted (snd (removeAdmissionTicketLocked t r)) = m_admitted r"
  "m_effectiveMaxInFlight (snd (removeAdmissionTicketLocked t r)) = m_effectiveMaxInFlight r"
  "m_queueTimeouts (snd (removeAdmissionTicketLocked t r)) = m_queueTimeouts r"
  "m_nextAdmissionTicket (snd (removeAdmissionTicketLocked t r)) = m_nextAdmissionTicket r"
  "m_admissionEpoch (snd (removeAdmissionTicketLocked t r)) = m_admissionEpoch r"
  by (simp_all add: removeAdmissionTicketLocked_def)

lemma admission_ok_bump [simp]:
  "admission_ok (r\<lparr>m_queueTimeouts := a\<rparr>) = admission_ok r"
  "admission_ok (r\<lparr>m_resourceRejections := b\<rparr>) = admission_ok r"
  "admission_ok (r\<lparr>m_callsQueued := b\<rparr>) = admission_ok r"
  by (simp_all add: admission_ok_def)

lemma blocked_reason: "admissionBlockLocked snap r = (b, e) \<Longrightarrow> b \<noteq> BlockNone \<Longrightarrow> e \<noteq> []"
  by (auto simp: admissionBlockLocked_def Let_def split: if_splits)

text \<open>The three outcomes of arriving, and the four of a turn of the loop.\<close>

definition enqueued :: "'a rt_admission_scheme \<Rightarrow> 'a rt_admission_scheme" where
  "enqueued r = r\<lparr>m_nextAdmissionTicket := m_nextAdmissionTicket r + 1,
     m_admissionQueue := m_admissionQueue r @ [m_nextAdmissionTicket r],
     m_queuedNow := m_queuedNow r + 1, m_callsQueued := m_callsQueued r + 1\<rparr>"

lemma enter_cases:
  assumes "admission_enter snap now r = (out, r')"
  obtains (refused) "stopping r" "out = Refused ''proxy shutting down''" "r' = r"
  | (admitted) e where "\<not> stopping r" "m_admissionQueue r = []" "admissionBlockLocked snap r = (BlockNone, e)"
      "out = Admitted" "r' = r\<lparr>m_admitted := m_admitted r + 1\<rparr>"
  | (waiting) blocker b where "\<not> stopping r" "blocker \<noteq> []" "b \<noteq> BlockNone" "r' = enqueued r"
      "out = Waiting \<lparr>w_ticket = m_nextAdmissionTicket r, w_epoch = m_admissionEpoch r,
         w_deadline = now + sint (queueTimeoutMs (m_cfg r)), w_blocker = blocker, w_blockedBy = b\<rparr>"
proof (cases "stopping r")
  case True
  then show thesis using assms by (intro refused) (simp_all add: admission_enter_def)
next
  case False
  define be where "be = (if m_admissionQueue r = [] then admissionBlockLocked snap r
     else (BlockConcurrency, ''earlier calls are waiting in the admission queue''))"
  obtain b e where b: "be = (b, e)" by fastforce
  have reason: "b \<noteq> BlockNone \<Longrightarrow> e \<noteq> []"
    using b blocked_reason [of snap r b e] by (auto simp: be_def split: if_splits)
  have out: "(out, r') = (if b = BlockNone then (Admitted, r\<lparr>m_admitted := m_admitted r + 1\<rparr>)
     else (Waiting \<lparr>w_ticket = m_nextAdmissionTicket r, w_epoch = m_admissionEpoch r,
         w_deadline = now + sint (queueTimeoutMs (m_cfg r)), w_blocker = e, w_blockedBy = b\<rparr>, enqueued r))"
    by (simp only: assms [symmetric] admission_enter_def Let_def be_def [symmetric] b prod.case False if_False
        enqueued_def)
  show thesis
  proof (cases "b = BlockNone")
    case True
    with b have "m_admissionQueue r = []" "admissionBlockLocked snap r = (BlockNone, e)"
      by (auto simp: be_def split: if_splits)
    with True False out show thesis by (intro admitted) simp_all
  next
    case blocked: False
    with False out reason show thesis by (intro waiting) simp_all
  qed
qed

lemma poll_cases:
  assumes "admission_poll snap now w r = (out, r')"
  obtains (stopped) "stopping r \<or> w_epoch w \<noteq> m_admissionEpoch r" "out = Refused ''proxy shutting down''"
      "r' = snd (removeAdmissionTicketLocked (w_ticket w) r)"
  | (admitted) rest e where "\<not> stopping r" "w_epoch w = m_admissionEpoch r"
      "m_admissionQueue r = w_ticket w # rest" "admissionBlockLocked snap r = (BlockNone, e)" "out = Admitted"
      "r' = r\<lparr>m_admissionQueue := rest, m_queuedNow := m_queuedNow r - 1, m_admitted := m_admitted r + 1\<rparr>"
  | (expired) blocker n where "\<not> stopping r" "w_deadline w \<le> now" "out = Refused (queue_timeout_error r blocker)"
      "w_epoch w = m_admissionEpoch r"
      "r' = (snd (removeAdmissionTicketLocked (w_ticket w) r))
        \<lparr>m_queueTimeouts := m_queueTimeouts r + 1, m_resourceRejections := n\<rparr>"
  | (waiting) blocker b where "\<not> stopping r" "w_epoch w = m_admissionEpoch r" "now < w_deadline w"
      "out = Waiting (w\<lparr>w_blocker := blocker, w_blockedBy := b\<rparr>)" "r' = r"
proof (cases "stopping r \<or> w_epoch w \<noteq> m_admissionEpoch r")
  case True
  then show thesis using assms by (intro stopped) (simp_all add: admission_poll_def)
next
  case False
  define front where "front = (m_admissionQueue r \<noteq> [] \<and> hd (m_admissionQueue r) = w_ticket w)"
  define be where "be = (if front then admissionBlockLocked snap r else (w_blockedBy w, w_blocker w))"
  obtain b e where b: "be = (b, e)" by fastforce
  have out: "(out, r') = (if front \<and> b = BlockNone then
       (Admitted, r\<lparr>m_admissionQueue := tl (m_admissionQueue r), m_queuedNow := m_queuedNow r - 1,
          m_admitted := m_admitted r + 1\<rparr>)
     else if w_deadline w \<le> now then
       let r1 = snd (removeAdmissionTicketLocked (w_ticket w) r);
           r2 = r1\<lparr>m_queueTimeouts := m_queueTimeouts r1 + 1\<rparr>;
           r3 = (if b = BlockDescriptors
                 then r2\<lparr>m_resourceRejections := m_resourceRejections r2 + 1\<rparr> else r2)
       in (Refused (queue_timeout_error r e), r3)
     else (Waiting (w\<lparr>w_blocker := e, w_blockedBy := b\<rparr>), r))"
    by (simp only: assms [symmetric] admission_poll_def Let_def front_def [symmetric] be_def [symmetric] b prod.case
        False if_False)
  consider "front" "b = BlockNone" | "\<not> (front \<and> b = BlockNone)" "w_deadline w \<le> now"
    | "\<not> (front \<and> b = BlockNone)" "\<not> w_deadline w \<le> now" by blast
  then show thesis
  proof cases
    case 1
    with b have "admissionBlockLocked snap r = (BlockNone, e)" by (simp add: be_def)
    moreover from 1 have "m_admissionQueue r = w_ticket w # tl (m_admissionQueue r)"
      by (simp add: front_def) (metis list.collapse)
    ultimately show thesis using 1 False out by (intro admitted) simp_all
  next
    case 2
    show thesis
    proof (rule expired)
      show "r' = (snd (removeAdmissionTicketLocked (w_ticket w) r))
        \<lparr>m_queueTimeouts := m_queueTimeouts r + 1,
         m_resourceRejections := m_resourceRejections (snd (removeAdmissionTicketLocked (w_ticket w) r))
           + (if b = BlockDescriptors then 1 else 0)\<rparr>"
        using out 2 by (simp add: Let_def split: if_splits)
      show "out = Refused (queue_timeout_error r e)"
        using out 2 by (simp add: Let_def split: if_splits)
    qed (use False 2 in simp_all)
  next
    case 3
    with False out show thesis by (intro waiting) simp_all
  qed
qed

lemma enter_ok: "admission_enter snap now r = (out, r') \<Longrightarrow> admission_ok r \<Longrightarrow> admission_ok r'"
  by (erule enter_cases) (auto simp: admission_ok_def enqueued_def sorted_wrt_append less_Suc_eq)

lemma poll_ok: "admission_poll snap now w r = (out, r') \<Longrightarrow> admission_ok r \<Longrightarrow> admission_ok r'"
  by (erule poll_cases) (auto simp: remove_ticket_ok, auto simp: admission_ok_def)

lemma release_ok: "admission_ok r \<Longrightarrow> admission_ok (releaseAdmission r)"
  by (auto simp: admission_ok_def releaseAdmission_def)

lemma tryAdmit_cases:
  assumes "tryAdmit snap r = (out, r')"
  obtains (refused) e where "out = Some e" "r' = r"
  | (admitted) e where "m_admissionQueue r = []" "admissionBlockLocked snap r = (BlockNone, e)" "out = None"
      "r' = r\<lparr>m_admitted := m_admitted r + 1\<rparr>"
  using assms by (cases "admissionBlockLocked snap r") (auto simp: tryAdmit_def Let_def split: if_splits)

lemma tryAdmit_ok: "tryAdmit snap r = (out, r') \<Longrightarrow> admission_ok r \<Longrightarrow> admission_ok r'"
  by (erule tryAdmit_cases) (auto simp: admission_ok_def)

section \<open>Bounds\<close>

lemma reservable_fits:
  assumes "0 \<le> sint (softLimit snap)" "0 \<le> sint (openCount snap)" "sint (openCount snap) < 2 ^ 62"
    "0 < sint perCall" "0 \<le> n" "n < sint (reservableCalls snap perCall)"
  shows "(n + 1) * sint perCall + sint (openCount snap) + sint (descriptorReserve (softLimit snap)) \<le> sint (softLimit snap)"
proof -
  define a where "a = sint (softLimit snap) - sint (openCount snap) - sint (descriptorReserve (softLimit snap))"
  have "softLimit snap - descriptorReserve (softLimit snap) - openCount snap
      = softLimit snap - openCount snap - descriptorReserve (softLimit snap)" by simp
  then have av: "sint (softLimit snap - descriptorReserve (softLimit snap) - openCount snap) = a"
    using available_exact [OF assms(1-3)] by (simp only: a_def)
  have "0 < a" "n < a div sint perCall"
    using assms(4-6) by (auto simp: reservableCalls_def av Let_def i64_simps sdiv_nonneg split: if_splits)
  then have "(n + 1) * sint perCall \<le> a div sint perCall * sint perCall"
    using assms(4) by (intro mult_right_mono) simp_all
  also have "\<dots> \<le> a"
    using assms(4) div_mult_mod_eq [of a "sint perCall"] pos_mod_sign [of "sint perCall" a] by linarith
  finally show ?thesis by (simp add: a_def)
qed

lemma unblocked_fits:
  assumes "admissionBlockLocked snap r = (BlockNone, e)" "0 \<le> m_admitted r" "0 < sint (m_descriptorsPerCall r)"
  shows "m_admitted r < sint (m_effectiveMaxInFlight r)
    \<and> (0 \<le> sint (softLimit snap) \<and> 0 \<le> sint (openCount snap) \<and> sint (openCount snap) < 2 ^ 62 \<longrightarrow>
        (m_admitted r + 1) * sint (m_descriptorsPerCall r) + sint (openCount snap)
          + sint (descriptorReserve (softLimit snap)) \<le> sint (softLimit snap))"
  using assms reservable_fits [of snap "m_descriptorsPerCall r" "m_admitted r"]
  by (auto simp: admissionBlockLocked_def Let_def not_le split: if_splits)


definition sample_admission :: "nat list \<Rightarrow> int \<Rightarrow> rt_admission" where
  "sample_admission q n =
    \<lparr>m_state = Running, m_lastError = [], m_cfg = default_config, m_emit = False, m_events = [],
     m_stopRequested = False, m_shutdown = False, m_admissionQueue = q, m_nextAdmissionTicket = 8,
     m_admissionEpoch = 1, m_admitted = n, m_effectiveMaxInFlight = 64, m_descriptorsPerCall = 12,
     m_resourceRejections = 0, m_callsQueued = 0, m_queueTimeouts = 0, m_queuedNow = int (length q)\<rparr>"


section \<open>Order and endings\<close>

text \<open>
  C15: First in, first out: a caller that finds others waiting joins the end of the queue and is
  not admitted, a heartbeat then gives way, and a waiting caller is admitted only from the front.
  Every operation keeps the queue in the order of the tickets, its reported length exact and the
  number of reservations non-negative.
\<close>

theorem admission_queue_fifo:
  assumes "admission_ok r"
  shows "(m_admissionQueue r \<noteq> [] \<longrightarrow> fst (admission_enter snap now r) \<noteq> Admitted \<and> tryAdmit snap r \<noteq> (None, r'))
    \<and> (fst (admission_poll snap now w r) = Admitted \<longrightarrow> m_admissionQueue r = w_ticket w # tl (m_admissionQueue r)
        \<and> (\<forall>t \<in> set (tl (m_admissionQueue r)). w_ticket w < t))
    \<and> admission_ok (snd (admission_enter snap now r)) \<and> admission_ok (snd (admission_poll snap now w r))
    \<and> admission_ok (snd (tryAdmit snap r)) \<and> admission_ok (releaseAdmission r)"
proof (intro conjI impI)
  assume ne: "m_admissionQueue r \<noteq> []"
  then show "fst (admission_enter snap now r) \<noteq> Admitted"
    by (cases "admission_enter snap now r") (auto elim: enter_cases)
  show "tryAdmit snap r \<noteq> (None, r')"
    using ne by (auto elim: tryAdmit_cases)
next
  assume "fst (admission_poll snap now w r) = Admitted"
  then obtain rest where q: "m_admissionQueue r = w_ticket w # rest"
    by (cases "admission_poll snap now w r") (auto elim: poll_cases)
  then show "m_admissionQueue r = w_ticket w # tl (m_admissionQueue r)"
      "\<forall>t \<in> set (tl (m_admissionQueue r)). w_ticket w < t"
    using assms by (simp_all add: admission_ok_def)
qed (use assms in \<open>simp_all add: enter_ok [OF prod.collapse [symmetric]] poll_ok [OF prod.collapse [symmetric]]
    tryAdmit_ok [OF prod.collapse [symmetric]] release_ok\<close>)

theorem admission_queue_fifo_witness:
  "m_admissionQueue (sample_admission [4, 7] 1) \<noteq> []
     \<and> fst (admission_enter unknown_snapshot 0 (sample_admission [4, 7] 1)) \<noteq> Admitted"
proof -
  have "admission_ok (sample_admission [4, 7] 1)" by (simp add: sample_admission_def admission_ok_def)
  from admission_queue_fifo [OF this] show ?thesis by (simp add: sample_admission_def)
qed

lemma waitLoop_ends:
  "k \<in> set ks \<Longrightarrow> w_deadline w \<le> wk_now k \<Longrightarrow> waitLoop ks w r = (out, r') \<Longrightarrow> out = Waiting w' \<Longrightarrow> False"
proof (induction ks arbitrary: w r)
  case (Cons j ks)
  obtain out1 r1 where poll: "admission_poll (wk_snapshot j) (wk_now j) w (wk_interfere j r) = (out1, r1)"
    by fastforce
  show ?case
  proof (cases out1)
    case (Waiting w1)
    with poll have w1: "w_deadline w1 = w_deadline w" "wk_now j < w_deadline w"
      by (auto elim: poll_cases)
    then have "k \<in> set ks" using Cons.prems(1,2) by auto
    moreover have "waitLoop ks w1 r1 = (out, r')" using Cons.prems(3) poll Waiting by simp
    ultimately show ?thesis using Cons.IH w1 Cons.prems(2,4) by metis
  qed (use Cons.prems poll in auto)
qed simp

lemma wait_ends:
  assumes run: "waitForAdmission snap now ks r = (out, r')"
    and k: "k \<in> set ks" "now + sint (queueTimeoutMs (m_cfg r)) \<le> wk_now k"
  shows "out \<noteq> Waiting v"
proof -
  obtain out1 r1 where enter: "admission_enter snap now r = (out1, r1)" by fastforce
  show ?thesis
  proof (cases out1)
    case (Waiting w1)
    with enter have "w_deadline w1 = now + sint (queueTimeoutMs (m_cfg r))" by (auto elim: enter_cases)
    moreover have "waitLoop ks w1 r1 = (out, r')" using run enter Waiting by (simp add: waitForAdmission_def)
    ultimately show ?thesis using waitLoop_ends [OF k(1)] k(2) by metis
  qed (use run enter in \<open>auto simp: waitForAdmission_def\<close>)
qed

text \<open>
  C16: No wait outlives its deadline: once the caller wakes up at or after it, whatever the other
  threads did in between, the wait has ended, admitted or refused. A turn that refuses leaves no
  ticket in the queue, and a stop, a shutdown or a new run refuses the caller on its next turn.
\<close>

theorem admission_wait_ends:
  assumes "k \<in> set ks" "now + sint (queueTimeoutMs (m_cfg r)) \<le> wk_now k"
    and "admission_poll snap' now' w q = (Refused e, q')" "admission_ok q"
  shows "(\<exists>r'. waitForAdmission snap now ks r = (Admitted, r') \<or> (\<exists>e. waitForAdmission snap now ks r = (Refused e, r')))
    \<and> w_ticket w \<notin> set (m_admissionQueue q') \<and> m_admitted q' = m_admitted q
    \<and> (e = ''proxy shutting down'') = (stopping q \<or> w_epoch w \<noteq> m_admissionEpoch q)"
proof -
  obtain out r' where run: "waitForAdmission snap now ks r = (out, r')" by fastforce
  note nw = wait_ends [OF run assms(1,2)]
  have "waitForAdmission snap now ks r = (Admitted, r') \<or> (\<exists>e. waitForAdmission snap now ks r = (Refused e, r'))"
    using run nw by (cases out) auto
  moreover have "w_ticket w \<notin> set (m_admissionQueue q') \<and> m_admitted q' = m_admitted q
    \<and> (e = ''proxy shutting down'') = (stopping q \<or> w_epoch w \<noteq> m_admissionEpoch q)"
    using assms(3)
    by (rule poll_cases) (use assms(4) in \<open>simp_all add: remove_ticket_gone queue_timeout_error_def\<close>)
  ultimately show ?thesis by blast
qed

theorem admission_wait_ends_witness:
  "\<exists>r'. waitForAdmission unknown_snapshot 0 [\<lparr>wk_interfere = id, wk_snapshot = unknown_snapshot, wk_now = 30000\<rparr>]
      (sample_admission [4, 7] 1) = (Admitted, r')
     \<or> (\<exists>e. waitForAdmission unknown_snapshot 0 [\<lparr>wk_interfere = id, wk_snapshot = unknown_snapshot, wk_now = 30000\<rparr>]
      (sample_admission [4, 7] 1) = (Refused e, r'))"
proof -
  define q where "q = (sample_admission [4, 7] 1)\<lparr>m_shutdown := True\<rparr>"
  define w where "w = \<lparr>w_ticket = 7, w_epoch = 1, w_deadline = 9, w_blocker = [], w_blockedBy = BlockNone\<rparr>"
  have ok: "admission_ok q" by (simp add: q_def sample_admission_def admission_ok_def)
  obtain q' where poll: "admission_poll unknown_snapshot 0 w q = (Refused ''proxy shutting down'', q')"
    by (simp add: q_def w_def sample_admission_def admission_poll_def stopping_def)
  have "30000 \<le> wk_now \<lparr>wk_interfere = id, wk_snapshot = unknown_snapshot, wk_now = 30000\<rparr>"
    "0 + sint (queueTimeoutMs (m_cfg (sample_admission [4, 7] 1))) = 30000"
    by (simp_all add: sample_admission_def default_config_def)
  with admission_wait_ends [OF list.set_intros(1) _ poll ok] show ?thesis
    by (metis (no_types, lifting))
qed

end
