(* ===== verification/Runtime_System.thy ===== *)
theory Runtime_System
  imports Runtime_Lifecycle Admission_Properties
begin

text \<open>
  The runtime as a concurrent system: any number of threads that call, start and stop the proxy,
  the proxy thread, and the library. A step is one operation of one thread, executed as a whole;
  between two steps any other thread may run. The clocks, the descriptor query, the outcomes of
  the library and the moment a wait times out are free.
\<close>

section \<open>Threads\<close>

text \<open>
  A caller of \<^verbatim>\<open>call\<close>: outside it, past the first checks, in the admission queue, admitted but
  not queued, or waiting on its slot.
\<close>

datatype caller =
    Outside
  | Checked string string
  | InQueue waiter string string
  | Holding string string
  | OnSlot nat

text \<open>The proxy thread: parked, in the library's start, in the pump loop, in the drain, freed, or gone.\<close>

datatype thread_pc = Parked | Prologue | Pump | Drain | Freed | Exited

record sys =
  rtm :: rt
  callers :: "caller list"
  pc :: thread_pc

definition set_caller :: "nat \<Rightarrow> caller \<Rightarrow> sys \<Rightarrow> sys" where
  "set_caller c k s = s\<lparr>callers := (callers s)[c := k]\<rparr>"

text \<open>Where an admission outcome takes a caller.\<close>

definition after_admission :: "admission \<Rightarrow> string \<Rightarrow> string \<Rightarrow> caller" where
  "after_admission out method params =
     (case out of Admitted \<Rightarrow> Holding method params | Refused _ \<Rightarrow> Outside | Waiting w \<Rightarrow> InQueue w method params)"

datatype event =
    Check nat string json
  | Enter nat DescriptorSnapshot int
  | Poll nat DescriptorSnapshot int
  | Enqueue nat
  | Finish nat
  | StartCall DescriptorSnapshot ProxyConfig
  | StartReturn int
  | StopCall
  | Shutdown
  | Wake
  | StartFails
  | StartSucceeds int reply
  | Dispatch reply
  | Advance int int reply
  | Beat DescriptorSnapshot int reply
  | Callback nat int string int
  | LeavePump
  | Free
  | Done

section \<open>Steps\<close>

text \<open>
  \<open>parse\<close> and \<open>dump\<close> are the JSON parser and printer. A callback is for a box the library holds,
  once; the thread is in the library then, in the pump call of the loop or of the drain.
\<close>

inductive sys_step :: "(string \<Rightarrow> string + json) \<Rightarrow> (json \<Rightarrow> string) \<Rightarrow> sys \<Rightarrow> event \<Rightarrow> sys \<Rightarrow> bool"
  for parse dump where
  check_ok: "c < length (callers s) \<Longrightarrow> callers s ! c = Outside \<Longrightarrow> call_precheck params (rtm s) = None \<Longrightarrow>
    sys_step parse dump s (Check c method params) (set_caller c (Checked method (dump params)) s)"
| enter: "c < length (callers s) \<Longrightarrow> callers s ! c = Checked method params \<Longrightarrow>
    admission_enter snap now (rtm s) = (out, r) \<Longrightarrow>
    sys_step parse dump s (Enter c snap now) (set_caller c (after_admission out method params) (s\<lparr>rtm := r\<rparr>))"
| poll: "c < length (callers s) \<Longrightarrow> callers s ! c = InQueue w method params \<Longrightarrow>
    admission_poll snap now w (rtm s) = (out, r) \<Longrightarrow>
    sys_step parse dump s (Poll c snap now) (set_caller c (after_admission out method params) (s\<lparr>rtm := r\<rparr>))"
| enqueue: "c < length (callers s) \<Longrightarrow> callers s ! c = Holding method params \<Longrightarrow>
    call_enqueue method params (rtm s) = (out, r) \<Longrightarrow>
    sys_step parse dump s (Enqueue c)
      (set_caller c (case out of Inl _ \<Rightarrow> Outside | Inr i \<Rightarrow> OnSlot i) (s\<lparr>rtm := r\<rparr>))"
| finish: "c < length (callers s) \<Longrightarrow> callers s ! c = OnSlot i \<Longrightarrow>
    call_finish parse report i (rtm s) = (res, r) \<Longrightarrow>
    sys_step parse dump s (Finish c) (set_caller c Outside (s\<lparr>rtm := r\<rparr>))"
| start_call: "0 < sint (maxInFlight cfg) \<Longrightarrow> start_begin dump snap cfg (rtm s) = (res, r) \<Longrightarrow>
    sys_step parse dump s (StartCall snap cfg) (s\<lparr>rtm := r\<rparr>)"
| start_return: "start_end report secs (rtm s) = (res, r) \<Longrightarrow>
    sys_step parse dump s (StartReturn secs) (s\<lparr>rtm := r\<rparr>)"
| stop_call: "stop_begin (rtm s) = (res, r) \<Longrightarrow> sys_step parse dump s StopCall (s\<lparr>rtm := r\<rparr>)"
| shut_down: "sys_step parse dump s Shutdown (s\<lparr>rtm := request_shutdown (rtm s)\<rparr>)"
| wake: "pc s = Parked \<Longrightarrow> thread_wakes (rtm s) \<Longrightarrow> thread_wake (rtm s) = (go, r) \<Longrightarrow>
    sys_step parse dump s Wake (s\<lparr>rtm := (if go then run_reset r else r), pc := (if go then Prologue else Exited)\<rparr>)"
| start_fails: "pc s = Prologue \<Longrightarrow>
    sys_step parse dump s StartFails (s\<lparr>rtm := thread_park (run_refused (rtm s)), pc := Parked\<rparr>)"
| start_succeeds: "pc s = Prologue \<Longrightarrow>
    sys_step parse dump s (StartSucceeds now interval) (s\<lparr>rtm := run_accepted parse now interval (rtm s), pc := Pump\<rparr>)"
| dispatch: "pc s = Pump \<Longrightarrow> dispatch_front (rtm s) = Some (i, r) \<Longrightarrow>
    sys_step parse dump s (Dispatch rep) (s\<lparr>rtm := library_reply parse secs rep i r\<rparr>)"
| advance: "pc s = Pump \<Longrightarrow> \<not> stopping (rtm s) \<Longrightarrow>
    sys_step parse dump s (Advance now secs rep) (s\<lparr>rtm := advanceSync parse now secs rep (rtm s)\<rparr>)"
| beat: "pc s = Pump \<Longrightarrow> beat_due now (rtm s) \<Longrightarrow>
    sys_step parse dump s (Beat snap now rep)
      (s\<lparr>rtm := (issueKeepAlive parse secs snap rep (rtm s))
                  \<lparr>nextKeepAlive := now + sint (keepAliveIntervalMs (m_cfg (rtm s)))\<rparr>\<rparr>)"
| callback: "pc s = Pump \<or> pc s = Drain \<Longrightarrow> i \<in> set (m_boxes (rtm s)) \<Longrightarrow>
    sys_step parse dump s (Callback i status res secs) (s\<lparr>rtm := callbackTrampoline parse secs status res i (rtm s)\<rparr>)"
| leave_pump: "pc s = Pump \<Longrightarrow>
    sys_step parse dump s LeavePump (s\<lparr>rtm := teardown_begin (rtm s), pc := Drain\<rparr>)"
| free: "pc s = Drain \<Longrightarrow> sys_step parse dump s Free (s\<lparr>rtm := teardown_free (rtm s), pc := Freed\<rparr>)"
| all_done: "pc s = Freed \<Longrightarrow>
    sys_step parse dump s Done (s\<lparr>rtm := thread_park (teardown_done (rtm s)), pc := Parked\<rparr>)"

definition sys_init :: "sys \<Rightarrow> bool" where
  "sys_init s \<longleftrightarrow> (\<exists>emitter. rtm s = new_runtime emitter) \<and> (\<forall>k \<in> set (callers s). k = Outside) \<and> pc s = Parked"

inductive_cases sys_step_cases: "sys_step parse dump s e t"

inductive_simps sys_step_callback: "sys_step parse dump s (Callback i status res secs) t"
inductive_simps sys_step_free: "sys_step parse dump s Free t"

lemma start_end_state: "start_end report secs q = (res, r) \<Longrightarrow> \<exists>n. r = q\<lparr>m_startedAt := n\<rparr>"
  by (cases q) (auto simp: start_end_def split: if_splits)

lemmas sys_defs = set_caller_def after_admission_def

end
