(* ===== verification/Runtime_Invariants.thy ===== *)
theory Runtime_Invariants
  imports Runtime_System
begin

text \<open>
  The invariants of the concurrent runtime and their preservation by every operation: the slots
  and boxes of the calls in flight, the admission queue and its callers, and the health of the run.
  Each is an interpretation of \<open>run_invariant\<close> on the step relation.
\<close>

section \<open>Effects of a callback and of a teardown\<close>

lemma trampoline_calls [simp]:
  "m_slots (callbackTrampoline parse secs status res i r) = (m_slots r)(i := finish_slot status res (m_slots r i))"
  "m_boxes (callbackTrampoline parse secs status res i r) = remove1 i (m_boxes r)"
  "m_inFlight (callbackTrampoline parse secs status res i r) = m_inFlight r - 1"
  by (simp_all add: callbackTrampoline_def Let_def split: Kind.split)

lemma finish_slot_simps [simp]:
  "slot_kind (finish_slot status res s) = slot_kind s" "slot_id (finish_slot status res s) = slot_id s"
  "slot_done (finish_slot status res s)" "slot_method (finish_slot status res s) = slot_method s"
  by (simp_all add: finish_slot_def)

lemma trampoline_flags [simp]:
  "m_heartbeatInFlight (callbackTrampoline parse secs status res i r) =
     (slot_kind (m_slots r i) \<noteq> Heartbeat \<and> m_heartbeatInFlight r)"
  "m_syncPhase (callbackTrampoline parse secs status res i r) =
     (case slot_kind (m_slots r i) of Sync \<Rightarrow> PhaseEthDone | OpSync \<Rightarrow> PhaseOpDone | _ \<Rightarrow> m_syncPhase r)"
  by (simp_all add: callbackTrampoline_def Let_def noteSync_def split: Kind.split)

lemma trampoline_admitted [simp]:
  "m_admitted (callbackTrampoline parse secs status res i r) =
     (case slot_kind (m_slots r i) of Sync \<Rightarrow> m_admitted r | OpSync \<Rightarrow> m_admitted r
      | _ \<Rightarrow> if 0 < m_admitted r then m_admitted r - 1 else m_admitted r)"
  by (simp add: callbackTrampoline_def Let_def split: Kind.split)

text \<open>Finishing the pending slots changes nothing but slots and the leak counter.\<close>

lemma fail_each_frame [simp]:
  "m_cfg (fail_each why ps r) = m_cfg r" "m_emit (fail_each why ps r) = m_emit r"
  "m_stopRequested (fail_each why ps r) = m_stopRequested r"
  "m_shutdown (fail_each why ps r) = m_shutdown r" "m_state (fail_each why ps r) = m_state r"
  "m_lastError (fail_each why ps r) = m_lastError r" "m_events (fail_each why ps r) = m_events r"
  "m_admissionQueue (fail_each why ps r) = m_admissionQueue r"
  "m_nextAdmissionTicket (fail_each why ps r) = m_nextAdmissionTicket r"
  "m_admissionEpoch (fail_each why ps r) = m_admissionEpoch r"
  "m_admitted (fail_each why ps r) = m_admitted r"
  "m_effectiveMaxInFlight (fail_each why ps r) = m_effectiveMaxInFlight r"
  "m_descriptorsPerCall (fail_each why ps r) = m_descriptorsPerCall r"
  "m_queuedNow (fail_each why ps r) = m_queuedNow r" "m_nextId (fail_each why ps r) = m_nextId r"
  "m_queue (fail_each why ps r) = m_queue r" "m_pending (fail_each why ps r) = m_pending r"
  "m_boxes (fail_each why ps r) = m_boxes r" "m_leakedBoxes (fail_each why ps r) = m_leakedBoxes r"
  "m_waiters (fail_each why ps r) = m_waiters r" "m_inFlight (fail_each why ps r) = m_inFlight r"
  "m_callsTotal (fail_each why ps r) = m_callsTotal r"
  "m_callsFailed (fail_each why ps r) = m_callsFailed r"
  by (induction why ps r rule: fail_each.induct) simp_all

lemma fail_each_health [simp]:
  "m_heartbeatStreak (fail_each why ps r) = m_heartbeatStreak r" "m_syncStreak (fail_each why ps r) = m_syncStreak r"
  "m_startReleased (fail_each why ps r) = m_startReleased r"
  by (induction why ps r rule: fail_each.induct) simp_all

lemma fail_each_owned [simp]: "owned (fail_each why ps r) = owned r" "expired (fail_each why ps r) = expired r"
  by (simp_all add: owned_def expired_def fun_eq_iff)

lemma fail_each_slots:
  "m_slots (fail_each why ps r) i =
     (if i \<in> set ps \<and> owned r i then finish_slot RET_ERROR why (m_slots r i) else m_slots r i)"
proof (induction why ps r rule: fail_each.induct)
  case (2 why j js r)
  have o: "owned (r\<lparr>m_slots := sl, m_leaked := n\<rparr>) = owned r" for sl n
    by (simp add: owned_def fun_eq_iff)
  show ?case
  proof (cases "expired r j \<or> slot_done (m_slots r j)")
    case True
    with 2(1) show ?thesis by (auto simp: expired_def finish_slot_def)
  next
    case False
    with 2(2) show ?thesis by (auto simp: o expired_def finish_slot_def)
  qed
qed simp

lemma kind_fail_each [simp]: "slot_kind (m_slots (fail_each why ps r) i) = slot_kind (m_slots r i)"
  by (simp add: fail_each_slots)

section \<open>Calls\<close>

definition in_library :: "thread_pc \<Rightarrow> bool" where
  "in_library p \<longleftrightarrow> p = Pump \<or> p = Drain"

definition boxes_of :: "Kind set \<Rightarrow> 'a rt_calls_scheme \<Rightarrow> nat list" where
  "boxes_of ks r = filter (\<lambda>i. slot_kind (m_slots r i) \<in> ks) (m_boxes r)"

text \<open>Which sync box the phase says is out.\<close>

definition phase_boxes :: "SyncPhase \<Rightarrow> nat \<times> nat" where
  "phase_boxes p = (case p of PhaseEth \<Rightarrow> (1, 0) | PhaseOp \<Rightarrow> (0, 1) | _ \<Rightarrow> (0, 0))"

text \<open>
  The counter of calls in flight and the boxes go up and down together. They differ by a fixed
  amount \<open>d\<close>, which is 0 as long as nobody resets the counter under a run.
\<close>

definition slots_off :: "int \<Rightarrow> 'a rt_calls_scheme \<Rightarrow> bool" where
  "slots_off d r \<longleftrightarrow> distinct (m_boxes r @ m_queue r)
     \<and> (\<forall>i. i \<in> set (m_pending r) \<or> owned r i \<longrightarrow> i < m_nextId r)
     \<and> (\<forall>i \<in> set (m_boxes r @ m_queue r). \<not> slot_done (m_slots r i))
     \<and> (\<forall>i \<in> set (m_queue r). slot_kind (m_slots r i) = User)
     \<and> m_inFlight r + d = int (length (m_boxes r))"

abbreviation slots_ok :: "'a rt_calls_scheme \<Rightarrow> bool" where
  "slots_ok \<equiv> slots_off 0"

lemmas slots_ok_def = slots_off_def

definition boxes_ok :: "thread_pc \<Rightarrow> 'a rt_health_scheme \<Rightarrow> bool" where
  "boxes_ok p r \<longleftrightarrow>
     (if in_library p
      then length (boxes_of {Heartbeat} r) = (if m_heartbeatInFlight r then 1 else 0)
         \<and> (length (boxes_of {Sync} r), length (boxes_of {OpSync} r)) = phase_boxes (m_syncPhase r)
      else m_boxes r = [])"

text \<open>What a caller on a slot may rely on: its slot is done or somebody will still finish it.\<close>

definition served :: "'a rt_calls_scheme \<Rightarrow> nat \<Rightarrow> bool" where
  "served r i \<longleftrightarrow> i \<in> set (m_waiters r) \<and> slot_kind (m_slots r i) = User
     \<and> (slot_done (m_slots r i) \<or> i \<in> set (m_pending r) \<and> i \<in> set (m_queue r @ m_boxes r))"

definition callers_ok :: "caller list \<Rightarrow> 'a rt_calls_scheme \<Rightarrow> bool" where
  "callers_ok cs r \<longleftrightarrow> distinct (m_waiters r)
     \<and> (\<forall>c < length cs. \<forall>i. cs ! c = OnSlot i \<longrightarrow> served r i)
     \<and> (\<forall>c < length cs. \<forall>d < length cs. \<forall>i. cs ! c = OnSlot i \<and> cs ! d = OnSlot i \<longrightarrow> c = d)"

definition good_off :: "int \<Rightarrow> thread_pc \<Rightarrow> caller list \<Rightarrow> 'a rt_health_scheme \<Rightarrow> bool" where
  "good_off d p cs r \<longleftrightarrow> slots_off d r \<and> boxes_ok p r \<and> callers_ok cs r"

abbreviation good :: "thread_pc \<Rightarrow> caller list \<Rightarrow> 'a rt_health_scheme \<Rightarrow> bool" where
  "good \<equiv> good_off 0"

lemmas good_def = good_off_def

definition calls_ok :: "sys \<Rightarrow> bool" where
  "calls_ok s \<longleftrightarrow> good (pc s) (callers s) (rtm s)"

text \<open>Operations that touch none of the fields the invariant reads.\<close>

definition same_calls :: "'a rt_health_scheme \<Rightarrow> 'b rt_health_scheme \<Rightarrow> bool" where
  "same_calls r q \<longleftrightarrow> m_slots r = m_slots q \<and> m_nextId r = m_nextId q \<and> m_queue r = m_queue q
     \<and> m_pending r = m_pending q \<and> m_boxes r = m_boxes q \<and> m_leakedBoxes r = m_leakedBoxes q
     \<and> m_waiters r = m_waiters q \<and> m_inFlight r = m_inFlight q
     \<and> m_heartbeatInFlight r = m_heartbeatInFlight q \<and> m_syncPhase r = m_syncPhase q"

lemma good_same:
  assumes "same_calls r q"
  shows "good_off d p cs r = good_off d p cs q"
proof -
  have o: "owned r = owned q"
    using assms by (simp add: same_calls_def owned_def fun_eq_iff)
  show ?thesis
    using assms
    by (simp add: good_def slots_ok_def boxes_ok_def boxes_of_def callers_ok_def served_def o same_calls_def)
qed

lemma boxes_ok_same:
  "m_slots q = m_slots r \<Longrightarrow> m_boxes q = m_boxes r \<Longrightarrow> m_heartbeatInFlight q = m_heartbeatInFlight r \<Longrightarrow>
   m_syncPhase q = m_syncPhase r \<Longrightarrow> boxes_ok p r \<Longrightarrow> boxes_ok p q"
proof -
  assume eq: "m_slots q = m_slots r" "m_boxes q = m_boxes r" "m_heartbeatInFlight q = m_heartbeatInFlight r"
    "m_syncPhase q = m_syncPhase r" and ok: "boxes_ok p r"
  have "boxes_of ks q = boxes_of ks r" for ks by (simp add: boxes_of_def eq)
  with ok show ?thesis by (simp add: boxes_ok_def eq)
qed

lemma slots_okD:
  assumes "slots_off d r"
  shows "distinct (m_boxes r)" "distinct (m_queue r)" "set (m_boxes r) \<inter> set (m_queue r) = {}"
    "m_inFlight r + d = int (length (m_boxes r))"
    "i \<in> set (m_boxes r) \<or> i \<in> set (m_queue r) \<or> i \<in> set (m_pending r) \<or> owned r i \<Longrightarrow> i < m_nextId r"
  using assms by (auto simp: slots_ok_def owned_def)

lemma in_boxes_of [simp]: "i \<in> set (boxes_of ks r) \<longleftrightarrow> i \<in> set (m_boxes r) \<and> slot_kind (m_slots r i) \<in> ks"
  by (auto simp: boxes_of_def)

lemma boxes_of_trampoline:
  "boxes_of ks (callbackTrampoline parse secs status res i r) =
     (if slot_kind (m_slots r i) \<in> ks then remove1 i (boxes_of ks r) else boxes_of ks r)"
proof -
  have "boxes_of ks (callbackTrampoline parse secs status res i r) = remove1 i (boxes_of ks r)"
    by (simp add: boxes_of_def filter_remove1 fun_upd_def) (metis (no_types, lifting) finish_slot_simps(1))
  moreover have "slot_kind (m_slots r i) \<notin> ks \<Longrightarrow> i \<notin> set (boxes_of ks r)"
    by (simp add: boxes_of_def)
  ultimately show ?thesis by (simp add: remove1_idem)
qed

lemma trampoline_good:
  assumes "good_off d p cs r" "i \<in> set (m_boxes r)" "in_library p"
  shows "good_off d p cs (callbackTrampoline parse secs status res i r)" (is "good_off d p cs ?q")
proof -
  have ok: "slots_off d r" "boxes_ok p r" "callers_ok cs r" using assms(1) by (simp_all add: good_def)
  have len: "0 < length (m_boxes r)" using assms(2) by (cases "m_boxes r") simp_all
  have own: "owned ?q j \<Longrightarrow> owned r j" for j
    by (auto simp: owned_def dest: set_remove1_subset [THEN subsetD])
  have "slots_off d ?q"
    using ok(1) assms(2) len own
    by (auto simp: slots_ok_def int_length_remove1 distinct_remove1 finish_slot_def
        dest: set_remove1_subset [THEN subsetD])
  moreover have "boxes_of {slot_kind (m_slots r i)} r \<noteq> []"
    using in_boxes_of [of i "{slot_kind (m_slots r i)}" r] assms(2) by (auto simp del: in_boxes_of)
  then have "boxes_ok p ?q"
    using ok(2) assms(2,3)
    by (cases "slot_kind (m_slots r i)")
       (auto simp: boxes_ok_def boxes_of_trampoline length_remove1 phase_boxes_def split: if_splits SyncPhase.splits)
  moreover have "served r j \<Longrightarrow> served ?q j" for j
    using slots_okD(1) [OF ok(1)] by (auto simp: served_def)
  then have "callers_ok cs ?q"
    using ok(3) by (simp add: callers_ok_def)
  ultimately show ?thesis by (simp add: good_def)
qed

lemma reply_good:
  assumes "good_off d p cs r" "i \<in> set (m_boxes r)" "in_library p"
  shows "good_off d p cs (library_reply parse secs reply i r)"
  using assms by (simp add: library_reply_def trampoline_good split: option.split)

text \<open>Giving the library a new box, and keeping the list of pending slots.\<close>

lemma add_box_good:
  assumes "good_off d p cs r" "in_library p" "m_nextId r = i"
    and "kind = User \<or> kind = Heartbeat \<and> \<not> m_heartbeatInFlight r
      \<or> kind \<in> {Sync, OpSync} \<and> m_syncPhase r \<notin> {PhaseEth, PhaseOp}"
  shows "good_off d p cs (r\<lparr>m_nextId := i + 1, m_slots := (m_slots r)(i := new_slot i method params kind),
      m_boxes := m_boxes r @ [i], m_inFlight := m_inFlight r + 1,
      m_heartbeatInFlight := (kind = Heartbeat \<or> m_heartbeatInFlight r),
      m_syncPhase := (if kind = Sync then PhaseEth else if kind = OpSync then PhaseOp else m_syncPhase r)\<rparr>)"
    (is "good_off d p cs ?q")
proof -
  define q where "q = ?q"
  have sel: "m_boxes q = m_boxes r @ [i]" "m_queue q = m_queue r" "m_pending q = m_pending r"
    "m_nextId q = Suc i" "m_inFlight q = m_inFlight r + 1" "m_waiters q = m_waiters r"
    "m_leakedBoxes q = m_leakedBoxes r"
    "slot_done (m_slots q j) \<longleftrightarrow> j \<noteq> i \<and> slot_done (m_slots r j)"
    "slot_kind (m_slots q j) = (if j = i then kind else slot_kind (m_slots r j))"
    "m_heartbeatInFlight q \<longleftrightarrow> kind = Heartbeat \<or> m_heartbeatInFlight r"
    "m_syncPhase q = (if kind = Sync then PhaseEth else if kind = OpSync then PhaseOp else m_syncPhase r)" for j
    by (simp_all add: q_def new_slot_def)
  have ok: "slots_off d r" "boxes_ok p r" "callers_ok cs r" using assms(1) by (simp_all add: good_def)
  have fresh: "i \<notin> set (m_boxes r)" "i \<notin> set (m_queue r)" "i \<notin> set (m_pending r)" "\<not> owned r i"
    using slots_okD(5) [OF ok(1), of i] assms(3) by auto
  have own: "owned q j \<longleftrightarrow> j = i \<or> owned r j" for j by (auto simp: owned_def sel)
  have "slots_off d q"
    using ok(1) fresh assms(3) by (auto simp: slots_ok_def own sel less_Suc_eq)
  moreover have kinds: "boxes_of ks q = (if kind \<in> ks then boxes_of ks r @ [i] else boxes_of ks r)" for ks
    using fresh(1) by (auto simp: boxes_of_def sel intro!: filter_cong)
  have "boxes_ok p q"
    using ok(2) assms(2,4) by (auto simp: boxes_ok_def kinds phase_boxes_def sel split: if_splits SyncPhase.splits)
  moreover have "served r j \<Longrightarrow> served q j" for j
    using fresh(4) by (auto simp: served_def owned_def sel)
  then have "callers_ok cs q"
    using ok(3) by (simp add: callers_ok_def sel)
  ultimately show ?thesis by (simp add: good_def q_def)
qed

lemma pruned_owned: "owned r i \<Longrightarrow> i \<in> set (pruned r ps) \<longleftrightarrow> i \<in> set ps"
proof -
  assume "owned r i"
  then have "i \<in> set (dropWhile (expired r) ps) \<longleftrightarrow> i \<in> set ps"
    by (induction ps) (auto simp: expired_def dest: set_dropWhileD)
  then show ?thesis using \<open>owned r i\<close> by (simp add: pruned_def expired_def Let_def)
qed

lemma pruned_subset: "set (pruned r ps) \<subseteq> set ps"
  by (auto simp: pruned_def Let_def dest: set_dropWhileD)

lemma pending_good:
  assumes "good_off d p cs r" "\<And>i. owned r i \<Longrightarrow> i \<in> set (m_pending r) \<Longrightarrow> i \<in> set ps"
    "set ps \<subseteq> {..< m_nextId r}"
  shows "good_off d p cs (r\<lparr>m_pending := ps\<rparr>)" (is "good_off d p cs ?q")
proof -
  have o: "owned ?q = owned r" by (simp add: owned_def fun_eq_iff)
  have "served r i \<Longrightarrow> served ?q i" for i
    using assms(2) [of i] by (auto simp: served_def owned_def)
  then have "callers_ok cs ?q" using assms(1) by (auto simp: good_def callers_ok_def)
  then show ?thesis
    using assms(1,3) by (auto simp: good_def slots_ok_def boxes_ok_def boxes_of_def o)
qed

lemma prune_good: "good_off d p cs r \<Longrightarrow> good_off d p cs (prunePendingLocked r)"
  unfolding prunePendingLocked_def
  by (rule pending_good) (auto simp: pruned_owned good_def slots_ok_def dest: pruned_subset [THEN subsetD])

lemma push_pending_good: "good_off d p cs r \<Longrightarrow> i < m_nextId r \<Longrightarrow> good_off d p cs (r\<lparr>m_pending := m_pending r @ [i]\<rparr>)"
  by (rule pending_good) (auto simp: good_def slots_ok_def)

text \<open>The operations of the proxy thread.\<close>

lemma issueKeepAlive_good:
  assumes "good_off d p cs r" "in_library p" "\<not> m_heartbeatInFlight r"
  shows "good_off d p cs (issueKeepAlive parse secs snap reply r)"
proof -
  obtain out r1 where adm: "tryAdmit snap r = (out, r1)" by fastforce
  then have r1: "good_off d p cs r1" "\<not> m_heartbeatInFlight r1"
    using assms by (auto elim!: tryAdmit_cases intro: good_same [THEN iffD1, rotated] simp: same_calls_def)
  show ?thesis
  proof (cases out)
    case None
    define i where "i = m_nextId r1"
    define r3 where "r3 = (snd (alloc_slot ''eth_getBlockByNumber'' beat_params Heartbeat r1))
      \<lparr>m_heartbeatInFlight := True, m_inFlight := m_inFlight r1 + 1, m_boxes := m_boxes r1 @ [i]\<rparr>"
    have "good_off d p cs r3"
      by (rule good_same [THEN iffD2, OF _ add_box_good [OF r1(1) assms(2) i_def [symmetric], of Heartbeat]])
         (use r1(2) in \<open>simp_all add: r3_def i_def alloc_slot_eq same_calls_def Let_def\<close>)
    moreover have "i \<in> set (m_boxes r3)" "i < m_nextId r3"
      by (simp_all add: r3_def i_def alloc_slot_eq Let_def)
    ultimately have "good_off d p cs (prunePendingLocked (library_reply parse secs reply i r3))"
      by (intro prune_good reply_good assms(2))
    then have "good_off d p cs ((prunePendingLocked (library_reply parse secs reply i r3))
        \<lparr>m_pending := m_pending (prunePendingLocked (library_reply parse secs reply i r3)) @ [i]\<rparr>)"
      using \<open>i < m_nextId r3\<close> by (intro push_pending_good) simp_all
    moreover have "issueKeepAlive parse secs snap reply r =
        (prunePendingLocked (library_reply parse secs reply i r3))
        \<lparr>m_pending := m_pending (prunePendingLocked (library_reply parse secs reply i r3)) @ [i]\<rparr>"
      using adm None by (simp add: issueKeepAlive_def r3_def i_def alloc_slot_eq Let_def)
    ultimately show ?thesis by simp
  qed (use adm r1 in \<open>simp add: issueKeepAlive_def\<close>)
qed

lemma issueSync_good:
  assumes "good_off d p cs r" "in_library p" "kind = Sync \<or> kind = OpSync" "m_syncPhase r \<notin> {PhaseEth, PhaseOp}"
  shows "good_off d p cs (issueSync parse secs reply kind r)"
proof -
  define i where "i = m_nextId r"
  define m where "m = (if kind = OpSync then ''nvp_op_sync'' else ''nvp_eth_sync'')"
  define r2 where "r2 = prunePendingLocked (snd (alloc_slot m [] kind r))"
  define r3 where "r3 = r2\<lparr>m_pending := m_pending r2 @ [i],
      m_syncPhase := (if kind = OpSync then PhaseOp else PhaseEth), m_boxes := m_boxes r2 @ [i],
      m_inFlight := m_inFlight r2 + 1\<rparr>"
  define a where "a = r\<lparr>m_nextId := i + 1, m_slots := (m_slots r)(i := new_slot i m [] kind),
      m_boxes := m_boxes r @ [i], m_inFlight := m_inFlight r + 1,
      m_heartbeatInFlight := (kind = Heartbeat \<or> m_heartbeatInFlight r),
      m_syncPhase := (if kind = Sync then PhaseEth else if kind = OpSync then PhaseOp else m_syncPhase r)\<rparr>"
  have a: "good_off d p cs a" "i < m_nextId a"
    unfolding a_def using assms by (intro add_box_good) (auto simp: i_def)
  have own: "owned a j \<longleftrightarrow> owned (snd (alloc_slot m [] kind r)) j \<or> j = i" for j
    by (auto simp: a_def alloc_slot_eq owned_def)
  have "good_off d p cs (a\<lparr>m_pending := m_pending r2 @ [i]\<rparr>)"
  proof (rule pending_good [OF a(1)])
    fix j assume "owned a j" "j \<in> set (m_pending a)"
    then show "j \<in> set (m_pending r2 @ [i])"
      by (auto simp: r2_def prunePendingLocked_def pruned_owned own) (simp add: a_def alloc_slot_eq)
  next
    have "set (m_pending r2) \<subseteq> set (m_pending r)"
      by (auto simp: r2_def prunePendingLocked_def alloc_slot_eq dest: pruned_subset [THEN subsetD])
    then show "set (m_pending r2 @ [i]) \<subseteq> {..<m_nextId a}"
      using assms(1) by (auto simp: good_def slots_ok_def a_def i_def less_Suc_eq)
  qed
  then have "good_off d p cs r3"
    by (rule good_same [THEN iffD2, rotated])
       (use assms(3) in \<open>auto simp: r3_def r2_def a_def alloc_slot_eq same_calls_def i_def\<close>)
  moreover have "i \<in> set (m_boxes r3)" by (simp add: r3_def)
  ultimately have "good_off d p cs (library_reply parse secs reply i r3)"
    by (rule reply_good [OF _ _ assms(2)])
  then show ?thesis
    by (simp add: issueSync_def Let_def r3_def r2_def i_def m_def alloc_slot_eq)
qed

lemma finishSyncCycle_good:
  assumes "good_off d p cs r" "m_syncPhase r = PhaseEthDone \<or> m_syncPhase r = PhaseOpDone"
  shows "good_off d p cs (finishSyncCycle secs ok err r)"
proof -
  have "good_off d p cs (r\<lparr>m_syncPhase := PhaseIdle\<rparr>)"
    using assms by (auto simp: good_def slots_ok_def boxes_ok_def boxes_of_def phase_boxes_def callers_ok_def
        served_def owned_def)
  then show ?thesis
    by (rule good_same [THEN iffD2, rotated]) (auto simp: same_calls_def finishSyncCycle_def Let_def)
qed

lemma advanceSync_good:
  assumes "good_off d p cs r" "in_library p"
  shows "good_off d p cs (advanceSync parse now secs reply r)"
proof (cases "m_syncPhase r")
  case PhaseIdle
  have "good_off d p cs (r\<lparr>m_syncCycleStart := now\<rparr>)"
    using assms(1) by (rule good_same [THEN iffD2, rotated]) (simp add: same_calls_def)
  then show ?thesis using assms PhaseIdle by (simp add: advanceSync_def issueSync_good)
qed (use assms in \<open>simp_all add: advanceSync_def issueSync_good finishSyncCycle_good\<close>)

lemma dispatch_good:
  assumes "good_off d p cs r" "in_library p" "dispatch_front r = Some (i, r1)"
  shows "good_off d p cs r1" "i \<in> set (m_boxes r1)"
proof -
  obtain js where q: "m_queue r = i # js" and r1: "r1 = r\<lparr>m_queue := js, m_boxes := m_boxes r @ [i],
      m_inFlight := m_inFlight r + 1, m_callsTotal := m_callsTotal r + 1\<rparr>"
    using assms(3) by (auto simp: dispatch_front_Some)
  have own: "owned r1 = owned r" by (auto simp: owned_def r1 q fun_eq_iff)
  have user: "slot_kind (m_slots r i) = User" using assms(1) q by (simp add: good_def slots_ok_def)
  have "slots_off d r1" using assms(1) q by (auto simp: good_def slots_ok_def own) (auto simp: r1)
  moreover have "boxes_ok p r1"
    using assms(1,2) user by (auto simp: good_def boxes_ok_def boxes_of_def r1)
  moreover have "served r j \<Longrightarrow> served r1 j" for j using q by (auto simp: served_def r1)
  then have "callers_ok cs r1" using assms(1) by (simp add: good_def callers_ok_def r1)
  ultimately show "good_off d p cs r1" by (simp add: good_def)
  show "i \<in> set (m_boxes r1)" by (simp add: r1)
qed

text \<open>The operations of the callers, and the end of a run.\<close>

lemma callers_update:
  assumes "callers_ok cs r" "c < length cs" "\<forall>i. k = OnSlot i \<longrightarrow> served r i \<and> (\<forall>d < length cs. cs ! d \<noteq> OnSlot i)"
  shows "callers_ok (cs[c := k]) r"
  using assms by (auto simp: callers_ok_def nth_list_update split: if_splits)

lemma callers_leave: "callers_ok cs r \<Longrightarrow> c < length cs \<Longrightarrow> \<forall>i. k \<noteq> OnSlot i \<Longrightarrow> callers_ok (cs[c := k]) r"
  by (rule callers_update) auto

lemma good_leave: "good_off d p cs r \<Longrightarrow> c < length cs \<Longrightarrow> \<forall>i. k \<noteq> OnSlot i \<Longrightarrow> good_off d p (cs[c := k]) r"
  by (simp add: good_def callers_leave)

lemma enter_same: "admission_enter snap now r = (out, q) \<Longrightarrow> same_calls q (r :: 'a rt_health_scheme)"
  by (erule enter_cases) (simp_all add: same_calls_def enqueued_def)

lemma poll_same: "admission_poll snap now w r = (out, q) \<Longrightarrow> same_calls q (r :: 'a rt_health_scheme)"
  by (erule poll_cases) (simp_all add: same_calls_def removeAdmissionTicketLocked_def)

lemma release_same: "same_calls (releaseAdmission r) r"
  by (simp add: same_calls_def releaseAdmission_def)

lemma alloc_good:
  assumes "good_off d p cs r"
  shows "good_off d p cs (snd (alloc_slot m ps kind r))" (is "good_off d p cs ?q")
proof -
  have fresh: "m_nextId r \<notin> set (m_boxes r)" "m_nextId r \<notin> set (m_queue r)" "\<not> owned r (m_nextId r)"
      "m_nextId r \<notin> set (m_waiters r)"
    using assms slots_okD(5) [of d r "m_nextId r"] by (auto simp: good_def owned_def)
  have own: "owned ?q = owned r" by (auto simp: owned_def alloc_slot_eq fun_eq_iff)
  have "slots_off d ?q"
    using assms fresh unfolding good_def slots_ok_def own by (auto simp: alloc_slot_eq less_Suc_eq)
  moreover have "boxes_of ks ?q = boxes_of ks r" for ks
    using fresh(1) by (auto simp: boxes_of_def alloc_slot_eq intro!: filter_cong)
  then have "boxes_ok p ?q" using assms by (simp add: good_def boxes_ok_def) (simp add: alloc_slot_eq)
  moreover have "served r i \<Longrightarrow> served ?q i" for i
    using fresh(4) by (auto simp: served_def alloc_slot_eq)
  then have "callers_ok cs ?q" using assms by (simp add: good_def callers_ok_def) (simp add: alloc_slot_eq)
  ultimately show ?thesis by (simp add: good_def)
qed

lemma call_enqueue_cases:
  assumes "call_enqueue m ps r = (out, q)"
  obtains (refused) "stopping r" "out = Inl ''proxy shutting down''" "q = releaseAdmission (snd (alloc_slot m ps User r))"
  | (queued) "\<not> stopping r" "out = Inr (m_nextId r)"
      "q = (let r2 = prunePendingLocked (snd (alloc_slot m ps User r)) in
        r2\<lparr>m_pending := m_pending r2 @ [m_nextId r], m_queue := m_queue r2 @ [m_nextId r],
           m_waiters := m_waiters r2 @ [m_nextId r]\<rparr>)"
  using assms by (auto simp: call_enqueue_def alloc_slot_eq Let_def stopping_def split: if_splits)

lemma call_enqueue_good:
  assumes "good_off d p cs r" "c < length cs" "call_enqueue m ps r = (out, q)"
  shows "good_off d p (cs[c := (case out of Inl _ \<Rightarrow> Outside | Inr i \<Rightarrow> OnSlot i)]) q"
  using assms(3)
proof (cases rule: call_enqueue_cases)
  case refused
  have "good_off d p cs q"
    using good_same [OF release_same] alloc_good [OF assms(1)] refused(3) by blast
  then show ?thesis using refused(2) assms(2) by (simp add: good_leave)
next
  case queued
  define i where "i = m_nextId r"
  define a where "a = prunePendingLocked (snd (alloc_slot m ps User r))"
  have a: "good_off d p cs a" by (simp add: a_def prune_good alloc_good [OF assms(1)])
  have q: "q = a\<lparr>m_pending := m_pending a @ [i], m_queue := m_queue a @ [i], m_waiters := m_waiters a @ [i]\<rparr>"
    using queued(3) by (simp add: a_def i_def Let_def)
  have sel: "m_nextId a = Suc i" "m_slots a i = new_slot i m ps User" "m_waiters a = m_waiters r"
      "m_boxes a = m_boxes r" "m_queue a = m_queue r"
    by (simp_all add: a_def i_def alloc_slot_eq)
  have fresh: "i \<notin> set (m_boxes r)" "i \<notin> set (m_queue r)" "\<not> owned r i" "i \<notin> set (m_waiters r)"
    using assms(1) slots_okD(5) [of d r i] by (auto simp: good_def owned_def i_def)
  have ok: "slots_off d a" "boxes_ok p a" "callers_ok cs a" using a by (simp_all add: good_def)
  have own: "owned q j \<longleftrightarrow> j = i \<or> owned a j" "owned a j = owned r j" for j
    by (auto simp: owned_def q) (simp_all add: a_def alloc_slot_eq)
  have "slots_off d q"
    using ok(1) fresh by (auto simp: slots_ok_def own) (auto simp: q sel less_Suc_eq new_slot_def)
  moreover have "boxes_ok p q"
    using ok(2) by (rule boxes_ok_same [rotated -1]) (simp_all add: q)
  moreover have keep: "served a j \<Longrightarrow> served q j" for j by (auto simp: served_def q)
  have "callers_ok cs q"
    using ok(3) fresh(4) by (auto simp: callers_ok_def keep) (auto simp: q sel)
  moreover have "served q i" by (simp add: served_def q sel new_slot_def)
  moreover have "\<forall>d < length cs. cs ! d \<noteq> OnSlot i"
    using ok(3) fresh(4) by (auto simp: callers_ok_def served_def sel)
  ultimately show ?thesis
    using queued(2) assms(2) by (simp add: good_def callers_update i_def)
qed

lemma call_finish_good:
  assumes "good_off d p cs r" "c < length cs" "cs ! c = OnSlot i" "call_finish parse report i r = (res, q)"
  shows "good_off d p (cs[c := Outside]) q"
proof -
  have q: "q = r\<lparr>m_waiters := remove1 i (m_waiters r)\<rparr>" using assms(4) by (simp add: call_finish_def)
  have ok: "slots_off d r" "boxes_ok p r" "callers_ok cs r" using assms(1) by (simp_all add: good_def)
  have own: "owned q j \<Longrightarrow> owned r j" for j by (auto simp: owned_def q dest: in_set_remove1D)
  have "slots_off d q" using ok(1) own by (auto simp: slots_ok_def q)
  have "boxes_ok p q" using ok(2) by (rule boxes_ok_same [rotated -1]) (simp_all add: q)
  have keep: "served q j" if "served r j" "j \<noteq> i" for j using that by (auto simp: served_def q)
  have on: "served r j" if "d < length cs" "cs ! d = OnSlot j" for d j
    using ok(3) that unfolding callers_ok_def by blast
  have one: "d = e" if "d < length cs" "e < length cs" "cs ! d = OnSlot j" "cs ! e = OnSlot j" for d e j
    using ok(3) that unfolding callers_ok_def by blast
  have other: "cs ! d = OnSlot j \<and> j \<noteq> i" if "d < length cs" "cs[c := Outside] ! d = OnSlot j" for d j
    using that one [OF _ assms(2) _ assms(3)] by (cases "d = c") auto
  have "distinct (m_waiters q)" using ok(3) by (simp add: callers_ok_def q)
  then have "callers_ok (cs[c := Outside]) q"
    unfolding callers_ok_def length_list_update by (blast dest: other intro: keep on one)
  then show ?thesis using \<open>slots_off d q\<close> \<open>boxes_ok p q\<close> by (simp add: good_def)
qed

lemma teardown_free_good:
  assumes "good_off d p cs r"
  shows "good Freed cs (teardown_free r)"
proof -
  define q where "q = teardown_free r"
  define f where "f = r\<lparr>m_pending := [], m_queue := []\<rparr>"
  have ok: "slots_off d r" "callers_ok cs r" using assms by (simp_all add: good_def)
  have sel: "m_boxes q = []" "m_queue q = []" "m_pending q = []" "m_waiters q = m_waiters r"
      "m_leakedBoxes q = m_leakedBoxes r @ m_boxes r" "m_nextId q = m_nextId r" "m_inFlight q = 0"
      "m_slots q = m_slots (fail_each ''proxy shutting down'' (m_pending r) f)"
    by (simp_all add: q_def teardown_free_def failAllPending_def f_def)
  have own: "owned q j \<Longrightarrow> owned r j" for j by (auto simp: owned_def sel)
  have "slots_ok q" using ok(1) own by (auto simp: slots_ok_def sel)
  moreover have "boxes_ok Freed q" by (simp add: boxes_ok_def sel in_library_def)
  moreover have "served r j \<Longrightarrow> served q j" for j
    by (auto simp: served_def sel fail_each_slots f_def owned_def)
  then have "callers_ok cs q" using ok(2) by (simp add: callers_ok_def sel)
  ultimately show ?thesis by (simp add: good_def q_def)
qed

text \<open>Changing the place of the thread while the library holds no box.\<close>

lemma good_outside: "good_off d p cs r \<Longrightarrow> \<not> in_library p \<Longrightarrow> \<not> in_library p' \<Longrightarrow> good_off d p' cs r"
  by (simp add: good_def boxes_ok_def)

lemma run_reset_good: "good_off d p cs r \<Longrightarrow> \<not> in_library p \<Longrightarrow> good_off d p cs (run_reset r)"
  by (auto simp: good_def slots_ok_def boxes_ok_def callers_ok_def served_def owned_def run_reset_def)

lemma run_accepted_good:
  assumes "good_off d Prologue cs r" "\<not> m_heartbeatInFlight r"
  shows "good_off d Pump cs (run_accepted parse now interval r)"
  using assms by (auto simp: good_def slots_ok_def boxes_ok_def boxes_of_def phase_boxes_def callers_ok_def
      served_def owned_def run_accepted_def Let_def in_library_def)

lemma start_begin_good:
  assumes "good p cs r" "start_begin dump snap cfg r = (res, q)" "in_library p \<Longrightarrow> m_runActive r"
  shows "good p cs q"
proof (cases "m_runActive r")
  case True
  then show ?thesis using assms(1,2) by (simp add: start_begin_def)
next
  case False
  with assms(3) have "\<not> in_library p" by blast
  with assms(1) have "m_inFlight r = 0" by (simp add: good_def boxes_ok_def slots_ok_def)
  then have "same_calls q r"
    using False assms(2) by (auto simp: start_begin_def start_reset_def Let_def same_calls_def split: if_splits)
  then show ?thesis using good_same assms(1) by blast
qed

end
