(* ===== verification/Runtime_Health_Invariant.thy ===== *)
theory Runtime_Health_Invariant
  imports Runtime_Invariants
begin

text \<open>
  The health of a run as an invariant: Running and Degraded are told apart exactly by the two
  streaks of failures, no heartbeat is out before the first good sync, and the run is active
  exactly while the proxy thread is in the pump or the drain.
\<close>

section \<open>What the operations leave of the outer records\<close>

lemma health_more [simp]:
  "rt_health.more (setState s e r) = rt_health.more r"
  "rt_health.more (emit n p r) = rt_health.more r"
  by (simp_all add: setState_def emit_def Let_def)

lemma note_more [simp]:
  "rt_health.more (noteHead parse secs slot r) = rt_health.more r"
  "rt_health.more (noteSync parse slot r) = rt_health.more r"
  "rt_health.more (noteFinished ok r) = rt_health.more r"
  "rt_health.more (releaseAdmission r) = rt_health.more r"
  "rt_health.more (prunePendingLocked r) = rt_health.more r"
  by (simp_all add: noteHead_def noteSync_def noteFinished_def releaseAdmission_def prunePendingLocked_def Let_def
      split: json.split option.split)

lemma heartbeat_more [simp]: "rt_health.more (noteHeartbeat parse secs slot r) = rt_health.more r"
  by (simp add: noteHeartbeat_def Let_def)

lemma trampoline_more [simp]: "rt_health.more (callbackTrampoline parse secs status res i r) = rt_health.more r"
  by (simp add: callbackTrampoline_def Let_def split: Kind.split)

lemma reply_more [simp]: "rt_health.more (library_reply parse secs reply i r) = rt_health.more r"
  by (simp add: library_reply_def split: option.split)

lemma release_more [simp]: "rt_health.more (releaseStart ok err r) = rt_health.more r"
  by (simp add: releaseStart_def Let_def)

lemma cycle_more [simp]: "rt_health.more (finishSyncCycle secs ok err r) = rt_health.more r"
  by (simp add: finishSyncCycle_def Let_def)

lemma issueSync_more [simp]: "rt_health.more (issueSync parse secs reply kind r) = rt_health.more r"
  by (simp add: issueSync_def alloc_slot_eq Let_def)

lemma advance_more [simp]: "rt_health.more (advanceSync parse now secs reply r) = rt_health.more r"
  by (simp add: advanceSync_def split: SyncPhase.split)

lemma tryAdmit_more: "tryAdmit snap r = (out, q) \<Longrightarrow> rt_health.more q = rt_health.more r"
  by (erule tryAdmit_cases) simp_all

lemma keepAlive_more [simp]: "rt_health.more (issueKeepAlive parse secs snap reply r) = rt_health.more r"
  by (cases "tryAdmit snap r") (simp add: issueKeepAlive_def alloc_slot_eq Let_def tryAdmit_more split: option.split)

lemma fail_each_more [simp]: "rt_health.more (fail_each why ps r) = rt_health.more r"
  by (induction why ps r rule: fail_each.induct) simp_all

lemma enter_more: "admission_enter snap now r = (out, q) \<Longrightarrow> rt_health.more q = rt_health.more r"
  by (erule enter_cases) (simp_all add: enqueued_def)

lemma poll_more: "admission_poll snap now w r = (out, q) \<Longrightarrow> rt_health.more q = rt_health.more r"
  by (erule poll_cases) (simp_all add: removeAdmissionTicketLocked_def)

lemma enqueue_more: "call_enqueue m ps r = (out, q) \<Longrightarrow> rt_health.more q = rt_health.more r"
  by (erule call_enqueue_cases) (simp_all add: alloc_slot_eq Let_def)

lemma same_more:
  fixes r q :: rt
  assumes "rt_health.more r = rt_health.more q"
  shows "m_runActive r = m_runActive q" "m_ctx r = m_ctx q" "m_runRequested r = m_runRequested q"
    "m_runFinished r = m_runFinished q" "m_parked r = m_parked q" "m_thread r = m_thread q"
    "m_threadExited r = m_threadExited q" "nextKeepAlive r = nextKeepAlive q"
  using assms by (cases r; cases q; simp)+

section \<open>The two streaks\<close>

definition health :: "'a rt_health_scheme \<Rightarrow> bool" where
  "health r \<longleftrightarrow>
     (m_state r = Running \<longrightarrow> m_heartbeatStreak r < kDegradeAfter \<and> m_syncStreak r < kDegradeAfter)
     \<and> (m_state r = Degraded \<longrightarrow> kDegradeAfter \<le> m_heartbeatStreak r \<or> kDegradeAfter \<le> m_syncStreak r)"

definition before_sync :: "'a rt_health_scheme \<Rightarrow> bool" where
  "before_sync r \<longleftrightarrow> (\<not> m_startReleased r \<longrightarrow> \<not> m_heartbeatInFlight r \<and> m_heartbeatStreak r = 0)"

lemma health_same:
  "m_state q = m_state r \<Longrightarrow> m_heartbeatStreak q = m_heartbeatStreak r \<Longrightarrow> m_syncStreak q = m_syncStreak r \<Longrightarrow>
   health r \<Longrightarrow> health q"
  by (simp add: health_def)

lemma noteHeartbeat_health: "health r \<Longrightarrow> health (noteHeartbeat parse secs slot r)"
  by (auto simp: health_def noteHeartbeat_def Let_def kDegradeAfter_def)

lemma noteHeartbeat_streak:
  "m_heartbeatStreak (noteHeartbeat parse secs slot r) =
     (if slot_status slot = RET_SUCCESS then 0 else m_heartbeatStreak r + 1)"
  by (simp add: noteHeartbeat_def Let_def)

lemma health_update [simp]:
  "health (r\<lparr>m_slots := sl\<rparr>) = health r" "health (r\<lparr>m_boxes := bs\<rparr>) = health r"
  "health (r\<lparr>m_heartbeatInFlight := h\<rparr>) = health r" "health (r\<lparr>m_inFlight := n\<rparr>) = health r"
  "health (r\<lparr>m_nextId := k\<rparr>) = health r" "health (r\<lparr>m_pending := ps\<rparr>) = health r"
  "health (r\<lparr>m_syncPhase := ph\<rparr>) = health r" "health (r\<lparr>m_syncCycleStart := t\<rparr>) = health r"
  "health (r\<lparr>m_admitted := n\<rparr>) = health r"
  by (simp_all add: health_def)

lemma health_note [simp]:
  "health (noteFinished ok r) = health r" "health (noteSync parse slot r) = health r"
  "health (prunePendingLocked r) = health r"
  by (simp_all add: health_def)

lemma trampoline_health: "health r \<Longrightarrow> health (callbackTrampoline parse secs status res i r)"
  by (simp add: callbackTrampoline_def Let_def noteHeartbeat_health split: Kind.split)

lemma reply_health: "health r \<Longrightarrow> health (library_reply parse secs reply i r)"
  by (simp add: library_reply_def trampoline_health split: option.split)

lemma issueSync_health: "health r \<Longrightarrow> health (issueSync parse secs reply kind r)"
  by (simp add: issueSync_def alloc_slot_eq Let_def reply_health)

lemma issueKeepAlive_health: "health r \<Longrightarrow> health (issueKeepAlive parse secs snap reply r)"
  by (cases "tryAdmit snap r")
     (auto simp: issueKeepAlive_def alloc_slot_eq Let_def elim!: tryAdmit_cases intro!: reply_health)

text \<open>The first good cycle makes the proxy Running; it finds no failed heartbeat.\<close>

lemma releaseStart_health:
  assumes "health r" "before_sync r" "ok \<Longrightarrow> m_syncStreak r < kDegradeAfter"
  shows "health (releaseStart ok err r)"
  using assms by (cases "m_startReleased r") (auto simp: health_def before_sync_def kDegradeAfter_def)

lemma finishSyncCycle_health:
  assumes "health r" "before_sync r"
  shows "health (finishSyncCycle secs ok err r)"
proof (cases ok)
  case True
  then show ?thesis
    using assms by (auto simp: finishSyncCycle_def Let_def health_def before_sync_def kDegradeAfter_def)
next
  case False
  then show ?thesis
    using assms(1) by (auto simp: finishSyncCycle_def Let_def health_def kDegradeAfter_def)
qed

lemma advanceSync_health:
  "health r \<Longrightarrow> before_sync r \<Longrightarrow> health (advanceSync parse now secs reply r)"
  by (simp add: advanceSync_def issueSync_health finishSyncCycle_health split: SyncPhase.split)

text \<open>Before the first sync there is no heartbeat, so none can fail.\<close>

lemma trampoline_before_sync:
  "before_sync r \<Longrightarrow> slot_kind (m_slots r i) = Heartbeat \<Longrightarrow> m_heartbeatInFlight r \<Longrightarrow>
   before_sync (callbackTrampoline parse secs status res i r)"
  by (simp add: before_sync_def)

lemma trampoline_streak:
  "slot_kind (m_slots r i) \<noteq> Heartbeat \<Longrightarrow>
   m_heartbeatStreak (callbackTrampoline parse secs status res i r) = m_heartbeatStreak r"
  by (simp add: callbackTrampoline_def Let_def split: Kind.split)

lemma box_of_heartbeat:
  "boxes_ok p r \<Longrightarrow> i \<in> set (m_boxes r) \<Longrightarrow> slot_kind (m_slots r i) = Heartbeat \<Longrightarrow> m_heartbeatInFlight r"
  using in_boxes_of [of i "{Heartbeat}" r]
  by (auto simp: boxes_ok_def simp del: in_boxes_of split: if_splits)

lemma trampoline_before:
  assumes "before_sync r" "boxes_ok p r" "i \<in> set (m_boxes r)"
  shows "before_sync (callbackTrampoline parse secs status res i r)"
  using assms trampoline_before_sync [OF assms(1)] box_of_heartbeat [OF assms(2,3)] trampoline_streak [of r i]
  by (cases "slot_kind (m_slots r i) = Heartbeat") (auto simp: before_sync_def)

lemma before_sync_update [simp]:
  "before_sync (r\<lparr>m_nextId := k\<rparr>) = before_sync r" "before_sync (r\<lparr>m_slots := sl\<rparr>) = before_sync r"
  "before_sync (r\<lparr>m_boxes := bs\<rparr>) = before_sync r" "before_sync (r\<lparr>m_inFlight := n\<rparr>) = before_sync r"
  "before_sync (r\<lparr>m_pending := ps\<rparr>) = before_sync r" "before_sync (r\<lparr>m_syncPhase := ph\<rparr>) = before_sync r"
  "before_sync (r\<lparr>m_syncCycleStart := t\<rparr>) = before_sync r" "before_sync (r\<lparr>m_admitted := a\<rparr>) = before_sync r"
  "before_sync (prunePendingLocked r) = before_sync r"
  by (simp_all add: before_sync_def)

lemma issueSync_before:
  "before_sync r \<Longrightarrow> kind = Sync \<or> kind = OpSync \<Longrightarrow> before_sync (issueSync parse secs reply kind r)"
  by (auto simp: issueSync_def alloc_slot_eq Let_def library_reply_def before_sync_def trampoline_streak new_slot_def
      split: option.split)

lemma advanceSync_before:
  "before_sync r \<Longrightarrow> before_sync (advanceSync parse now secs reply r)"
  by (auto simp: advanceSync_def issueSync_before split: SyncPhase.split) (auto simp: before_sync_def)

lemma keepAlive_before:
  assumes "m_startReleased r"
  shows "before_sync (issueKeepAlive parse secs snap reply r)"
proof -
  obtain out q where t: "tryAdmit snap r = (out, q)" by fastforce
  then have "m_startReleased q" using assms by (auto elim: tryAdmit_cases)
  with t show ?thesis
    by (auto simp: issueKeepAlive_def alloc_slot_eq Let_def before_sync_def split: option.split)
qed

text \<open>A completion never makes a runtime live that is not.\<close>

lemma trampoline_state:
  "\<not> live r \<Longrightarrow> m_state (callbackTrampoline parse secs status res i r) = m_state r"
  by (auto simp: live_def callbackTrampoline_def noteHeartbeat_def Let_def split: Kind.split)

section \<open>The invariant\<close>

definition run_ok :: "thread_pc \<Rightarrow> rt \<Rightarrow> bool" where
  "run_ok p r \<longleftrightarrow> health r \<and> m_runActive r = in_library p \<and> m_ctx r = in_library p
     \<and> (p = Prologue \<longrightarrow> \<not> m_heartbeatInFlight r \<and> m_heartbeatStreak r = 0) \<and> (p = Pump \<longrightarrow> before_sync r)
     \<and> (p = Drain \<longrightarrow> m_startReleased r) \<and> (p \<noteq> Pump \<longrightarrow> \<not> live r)"

definition sys_ok :: "sys \<Rightarrow> bool" where
  "sys_ok s \<longleftrightarrow> calls_ok s \<and> run_ok (pc s) (rtm s)"

end
