(* ===== verification/Runtime_Reachable.thy ===== *)
theory Runtime_Reachable
  imports Runtime_Health_Invariant
begin

text \<open>
  Every step preserves the invariant, and its interpretation: what holds of every state the runtime
  can reach, whatever the threads, the library and the clocks do.
\<close>

section \<open>Calls\<close>

lemma after_admission_not_slot [simp]: "after_admission out m ps \<noteq> OnSlot i"
  by (simp add: after_admission_def split: admission.split)

definition is_start :: "event \<Rightarrow> bool" where
  "is_start e \<longleftrightarrow> (\<exists>snap cfg. e = StartCall snap cfg)"

text \<open>Every step but a start keeps the difference of counter and boxes; a teardown makes it 0 again.\<close>

lemma step_good:
  assumes "sys_step parse dump s e t" "good_off d (pc s) (callers s) (rtm s)" "\<not> is_start e"
    "pc s = Prologue \<longrightarrow> \<not> m_heartbeatInFlight (rtm s)"
  shows "good_off (if e = Free then 0 else d) (pc t) (callers t) (rtm t)"
proof -
  note g = assms(2)
  have lib: "in_library Pump" "in_library Drain" "\<not> in_library Parked" "\<not> in_library Prologue"
      "\<not> in_library Freed" "\<not> in_library Exited"
    by (simp_all add: in_library_def)
  show ?thesis
    using assms(1)
  proof (cases rule: sys_step.cases)
    case (check_ok c params mth)
    then show ?thesis using g by (simp add: set_caller_def good_leave)
  next
    case (enter c mth params snap now out r)
    then have "good_off d (pc s) (callers s) r" using g good_same [OF enter_same] by blast
    then show ?thesis using enter by (simp add: set_caller_def good_leave)
  next
    case (poll c w mth params snap now out r)
    then have "good_off d (pc s) (callers s) r" using g good_same [OF poll_same] by blast
    then show ?thesis using poll by (simp add: set_caller_def good_leave)
  next
    case (enqueue c mth params out r)
    then show ?thesis using call_enqueue_good [OF g] by (simp add: set_caller_def)
  next
    case (finish c i report res r)
    then show ?thesis using call_finish_good [OF g] by (simp add: set_caller_def)
  next
    case (start_call cfg snap res r)
    then show ?thesis using assms(3) by (simp add: is_start_def)
  next
    case (start_return report secs res r)
    have "same_calls r (rtm s)" using start_end_state [OF start_return(3)] by (auto simp: same_calls_def)
    then show ?thesis using start_return g good_same [of r "rtm s"] by simp
  next
    case (stop_call res r)
    then have "same_calls r (rtm s)" by (auto simp: stop_begin_def same_calls_def split: if_splits)
    then show ?thesis using stop_call g good_same [of r "rtm s"] by simp
  next
    case shut_down
    have "same_calls (request_shutdown (rtm s)) (rtm s)" by (simp add: request_shutdown_def same_calls_def)
    then show ?thesis using shut_down g good_same [of "request_shutdown (rtm s)" "rtm s"] by simp
  next
    case (wake go r)
    then have "same_calls r (rtm s)" by (auto simp: thread_wake_def same_calls_def split: if_splits)
    then have "good_off d Parked (callers s) r" using wake g good_same [of r "rtm s"] by simp
    then have "good_off d Exited (callers s) r" "good_off d Prologue (callers s) (run_reset r)"
      using lib by (auto intro: good_outside run_reset_good)
    then show ?thesis using wake by simp
  next
    case start_fails
    have "same_calls (thread_park (run_refused (rtm s))) (rtm s)"
      by (simp add: thread_park_def run_refused_def Let_def same_calls_def)
    then have "good_off d Prologue (callers s) (thread_park (run_refused (rtm s)))"
      using start_fails g good_same [of "thread_park (run_refused (rtm s))" "rtm s"] by simp
    then show ?thesis using start_fails lib good_outside by auto
  next
    case (start_succeeds now interval)
    then show ?thesis using g assms(4) run_accepted_good by simp
  next
    case (dispatch i r rep secs)
    then show ?thesis
      using dispatch_good [OF g _ dispatch(4)] lib by (simp add: reply_good)
  next
    case (advance now secs rep)
    then show ?thesis using g lib by (simp add: advanceSync_good)
  next
    case (beat now snap rep secs)
    have "good_off d Pump (callers s) (issueKeepAlive parse secs snap rep (rtm s))"
      using g lib beat by (simp add: issueKeepAlive_good beat_due_def)
    then have "good_off d Pump (callers s) ((issueKeepAlive parse secs snap rep (rtm s))
        \<lparr>nextKeepAlive := now + sint (keepAliveIntervalMs (m_cfg (rtm s)))\<rparr>)"
      by (rule good_same [THEN iffD2, rotated]) (simp add: same_calls_def)
    then show ?thesis using beat by simp
  next
    case (callback i status res secs)
    then show ?thesis using g lib by (auto simp: trampoline_good)
  next
    case leave_pump
    have "same_calls (teardown_begin (rtm s)) (rtm s)"
      by (simp add: teardown_begin_def same_calls_def)
    then have "good_off d Pump (callers s) (teardown_begin (rtm s))" using leave_pump g good_same [of "teardown_begin (rtm s)" "rtm s"] by simp
    then show ?thesis using leave_pump by (simp add: good_def boxes_ok_def in_library_def)
  next
    case free
    then show ?thesis using g teardown_free_good by simp
  next
    case all_done
    have "same_calls (thread_park (teardown_done (rtm s))) (rtm s)"
      by (simp add: thread_park_def teardown_done_def same_calls_def)
    then have "good_off d Freed (callers s) (thread_park (teardown_done (rtm s)))"
      using all_done g good_same [of "thread_park (teardown_done (rtm s))" "rtm s"] by simp
    then show ?thesis using all_done lib good_outside by auto
  qed
qed

lemma step_calls:
  assumes "sys_step parse dump s e t" "sys_ok s"
  shows "calls_ok t"
proof (cases "is_start e")
  case True
  with assms(1) obtain snap cfg res where "start_begin dump snap cfg (rtm s) = (res, rtm t)" "pc t = pc s" "callers t = callers s"
    by (auto simp: is_start_def elim: sys_step.cases)
  then show ?thesis
    using start_begin_good [of "pc s" "callers s" "rtm s" dump snap cfg res "rtm t"] assms(2) by (simp add: sys_ok_def calls_ok_def run_ok_def)
next
  case False
  then show ?thesis
    using step_good [OF assms(1) _ False, of 0] assms(2) by (simp add: sys_ok_def calls_ok_def run_ok_def split: if_splits)
qed

section \<open>Health and the run\<close>

lemma flags_of_state [simp]:
  "m_runActive (setState s e r) = m_runActive r" "m_ctx (setState s e r) = m_ctx r"
  "m_runActive (emit n p r) = m_runActive r" "m_ctx (emit n p r) = m_ctx r"
  by (simp_all add: setState_def emit_def Let_def)

text \<open>Operations of a caller change neither the state nor the streaks.\<close>

definition same_run :: "rt \<Rightarrow> rt \<Rightarrow> bool" where
  "same_run r q \<longleftrightarrow> m_state r = m_state q \<and> m_heartbeatStreak r = m_heartbeatStreak q
     \<and> m_syncStreak r = m_syncStreak q \<and> m_heartbeatInFlight r = m_heartbeatInFlight q
     \<and> m_startReleased r = m_startReleased q \<and> rt_health.more r = rt_health.more q"

lemma run_ok_same: "same_run r q \<Longrightarrow> run_ok p q \<Longrightarrow> run_ok p r"
  using same_more [of r q] by (simp add: same_run_def run_ok_def health_def before_sync_def live_def)

lemma remove_ticket_run [simp]:
  "m_state (snd (removeAdmissionTicketLocked t r)) = m_state r"
  "m_heartbeatStreak (snd (removeAdmissionTicketLocked t r)) = m_heartbeatStreak r"
  "m_syncStreak (snd (removeAdmissionTicketLocked t r)) = m_syncStreak r"
  "m_heartbeatInFlight (snd (removeAdmissionTicketLocked t r)) = m_heartbeatInFlight r"
  "m_startReleased (snd (removeAdmissionTicketLocked t r)) = m_startReleased r"
  by (simp_all add: removeAdmissionTicketLocked_def)

lemma release_run [simp]:
  "m_heartbeatStreak (releaseAdmission r) = m_heartbeatStreak r" "m_syncStreak (releaseAdmission r) = m_syncStreak r"
  "m_heartbeatInFlight (releaseAdmission r) = m_heartbeatInFlight r"
  "m_startReleased (releaseAdmission r) = m_startReleased r"
  by (simp_all add: releaseAdmission_def)

lemma same_run_callers:
  "admission_enter snap now q = (out, r) \<Longrightarrow> same_run r q"
  "admission_poll snap now w q = (out, r) \<Longrightarrow> same_run r q"
  "call_enqueue m ps q = (out', r) \<Longrightarrow> same_run r q"
  "call_finish parse report i q = (res, r) \<Longrightarrow> same_run r q"
proof -
  assume a: "admission_enter snap now q = (out, r)"
  then show "same_run r q"
    using enter_more [OF a] by (auto simp: same_run_def enqueued_def elim: enter_cases)
next
  assume a: "admission_poll snap now w q = (out, r)"
  then show "same_run r q"
    using poll_more [OF a] by (auto simp: same_run_def elim!: poll_cases)
next
  assume a: "call_enqueue m ps q = (out', r)"
  then show "same_run r q"
    using enqueue_more [OF a]
    by (auto simp: same_run_def alloc_slot_eq Let_def elim!: call_enqueue_cases)
qed (auto simp: call_finish_def same_run_def)

lemma start_begin_cases:
  assumes "start_begin dump snap cfg q = (res, r)"
  obtains (active) "m_runActive q" "r = q" "res = Some (fail_result ''proxy already started'')"
  | (refused) "\<not> m_runActive q" "res = Some (fail_result (no_descriptors_error snap))"
      "descriptorOperationCapacity snap (i64_max 4 (fan_out_estimate cfg)) = 0"
      "r = setState Failed (no_descriptors_error snap) ((start_reset dump cfg q)
         \<lparr>m_descriptorsPerCall := i64_max 4 (fan_out_estimate cfg), m_effectiveMaxInFlight := i64_min (maxInFlight cfg) 0\<rparr>)"
  | (requested) capacity where "\<not> m_runActive q" "res = None"
      "capacity = descriptorOperationCapacity snap (i64_max 4 (fan_out_estimate cfg))" "capacity \<noteq> 0"
      "r = (setState Starting [] ((start_reset dump cfg q)
         \<lparr>m_descriptorsPerCall := i64_max 4 (fan_out_estimate cfg),
          m_effectiveMaxInFlight := (if 0 \<le> sint capacity then i64_min (maxInFlight cfg) capacity else maxInFlight cfg),
          m_thread := True\<rparr>))
         \<lparr>m_startDone := False, m_startOk := False, m_startError := [], m_runFinished := False,
          m_runRequested := True\<rparr>"
proof (cases "m_runActive q")
  case True
  then show thesis using assms by (intro active) (simp_all add: start_begin_def)
next
  case no: False
  define capacity where "capacity = descriptorOperationCapacity snap (i64_max 4 (fan_out_estimate cfg))"
  show thesis
  proof (cases "capacity = 0")
    case True
    then show thesis
      using assms no unfolding start_begin_def Let_def capacity_def [symmetric]
      by (intro refused) (simp_all add: capacity_def [symmetric])
  next
    case False
    then show thesis
      using assms no unfolding start_begin_def Let_def capacity_def [symmetric]
      by (intro requested [OF _ _ capacity_def]) simp_all
  qed
qed

lemma start_begin_run:
  assumes "start_begin dump snap cfg q = (res, r)" "run_ok p q"
  shows "run_ok p r"
  using assms(1)
proof (cases rule: start_begin_cases)
  case refused
  have "m_state r = Failed" "m_heartbeatStreak r = m_heartbeatStreak q" "m_heartbeatInFlight r = m_heartbeatInFlight q"
      "m_startReleased r = m_startReleased q" "m_runActive r = m_runActive q" "m_ctx r = m_ctx q"
    by (simp_all add: refused(4) start_reset_def setState_def emit_def Let_def)
  then show ?thesis using assms(2) by (simp add: run_ok_def health_def before_sync_def live_def)
next
  case (requested capacity)
  have "m_state r = Starting" "m_heartbeatStreak r = m_heartbeatStreak q" "m_heartbeatInFlight r = m_heartbeatInFlight q"
      "m_startReleased r = m_startReleased q" "m_runActive r = m_runActive q" "m_ctx r = m_ctx q"
    by (simp_all add: requested(5) start_reset_def setState_def emit_def Let_def)
  then show ?thesis using assms(2) by (simp add: run_ok_def health_def before_sync_def live_def)
qed (use assms(2) in simp)

lemma trampoline_run:
  assumes "good p cs r" "run_ok p r" "i \<in> set (m_boxes r)" "in_library p"
  shows "run_ok p (callbackTrampoline parse secs status res i r)"
proof -
  have "p = Pump \<Longrightarrow> before_sync (callbackTrampoline parse secs status res i r)"
    using assms trampoline_before by (auto simp: good_def run_ok_def)
  then show ?thesis
    using assms(2,4) trampoline_health [of r]
      same_more [OF trampoline_more, of parse secs status res i r]
    by (auto simp: run_ok_def in_library_def trampoline_state live_def)
qed

lemma step_run:
  assumes "sys_step parse dump s e t" "sys_ok s"
  shows "run_ok (pc t) (rtm t)"
proof -
  have g: "good (pc s) (callers s) (rtm s)" and ro: "run_ok (pc s) (rtm s)"
    using assms(2) by (simp_all add: sys_ok_def calls_ok_def)
  show ?thesis
    using assms(1)
  proof (cases rule: sys_step.cases)
    case (check_ok c params mth)
    then show ?thesis using ro by (simp add: set_caller_def)
  next
    case (enter c mth params snap now out r)
    then show ?thesis using run_ok_same [OF same_run_callers(1) ro] by (simp add: set_caller_def)
  next
    case (poll c w mth params snap now out r)
    then show ?thesis using run_ok_same [OF same_run_callers(2) ro] by (simp add: set_caller_def)
  next
    case (enqueue c mth params out r)
    then show ?thesis using run_ok_same [OF same_run_callers(3) ro] by (simp add: set_caller_def)
  next
    case (finish c i report res r)
    then show ?thesis using run_ok_same [OF same_run_callers(4) ro] by (simp add: set_caller_def)
  next
    case (start_call cfg snap res r)
    then show ?thesis using ro start_begin_run by auto
  next
    case (start_return report secs res r)
    obtain n where "r = (rtm s)\<lparr>m_startedAt := n\<rparr>" using start_end_state [OF start_return(3)] by blast
    then have "rtm t = (rtm s)\<lparr>m_startedAt := n\<rparr>" "pc t = pc s" using start_return by simp_all
    then show ?thesis using ro by (simp add: run_ok_def health_def live_def before_sync_def)
  next
    case (stop_call res r)
    then have "same_run r (rtm s)" by (auto simp: stop_begin_def same_run_def split: if_splits)
    then show ?thesis using stop_call ro run_ok_same by auto
  next
    case shut_down
    then show ?thesis using ro by (simp add: request_shutdown_def run_ok_def health_def live_def before_sync_def)
  next
    case (wake go r)
    then show ?thesis
      using ro by (auto simp: thread_wake_def run_reset_def run_ok_def health_def live_def in_library_def kDegradeAfter_def
          split: if_splits)
  next
    case start_fails
    then show ?thesis
      using ro by (simp add: thread_park_def run_refused_def run_ok_def health_def live_def in_library_def Let_def)
  next
    case (start_succeeds now interval)
    then show ?thesis
      using ro by (auto simp: run_accepted_def run_ok_def health_def live_def in_library_def Let_def before_sync_def kDegradeAfter_def)
  next
    case (dispatch i r rep secs)
    have i: "i \<in> set (m_boxes r)" "good Pump (callers s) r"
      using dispatch_good [OF g _ dispatch(4)] dispatch(3) by (simp_all add: in_library_def)
    have "run_ok Pump r"
      using run_ok_same [of r "rtm s" Pump] ro dispatch by (auto simp: dispatch_front_Some same_run_def)
    then show ?thesis
      using dispatch i trampoline_run [of Pump "callers s" r i]
      by (auto simp: library_reply_def in_library_def split: option.split)
  next
    case (advance now secs rep)
    then show ?thesis
      using ro advanceSync_health advanceSync_before same_more [OF advance_more, of parse now secs rep "rtm s"]
      by (auto simp: run_ok_def in_library_def)
  next
    case (beat now snap rep secs)
    then show ?thesis
      using ro issueKeepAlive_health [of "rtm s" parse secs snap rep] keepAlive_before [of "rtm s" parse secs snap rep]
        same_more [OF keepAlive_more, of parse secs snap rep "rtm s"]
      by (auto simp: run_ok_def in_library_def beat_due_def health_def live_def before_sync_def)
  next
    case (callback i status res secs)
    then show ?thesis using trampoline_run [OF g ro] by (auto simp: in_library_def)
  next
    case leave_pump
    have "health (releaseStart False ''the proxy was stopped before its first light-client sync'' (rtm s))"
      using ro leave_pump by (intro releaseStart_health) (simp_all add: run_ok_def)
    then show ?thesis
      using leave_pump ro
        same_more [OF release_more, of False "''the proxy was stopped before its first light-client sync''" "rtm s"]
      by (auto simp: teardown_begin_def run_ok_def health_def live_def in_library_def)
  next
    case free
    then show ?thesis
      using ro by (simp add: teardown_free_def failAllPending_def run_ok_def health_def live_def in_library_def Let_def)
  next
    case all_done
    then show ?thesis
      using ro by (simp add: thread_park_def teardown_done_def run_ok_def health_def live_def in_library_def)
  qed
qed

section \<open>The invariant of every reachable state\<close>

lemma init_ok: "sys_init s \<Longrightarrow> sys_ok s"
  by (auto simp: sys_init_def sys_ok_def calls_ok_def good_def slots_ok_def boxes_ok_def callers_ok_def run_ok_def
      health_def live_def in_library_def new_runtime_def owned_def all_set_conv_all_nth)

interpretation runtime: run_invariant sys_init "sys_step parse dump" sys_ok for parse dump
proof
  show "sys_init s \<Longrightarrow> sys_ok s" for s by (rule init_ok)
  show "sys_ok s \<Longrightarrow> sys_step parse dump s e t \<Longrightarrow> sys_ok t" for s e t
    using step_calls step_run by (simp add: sys_ok_def)
qed

end
