(* ===== verification/Runtime_Budget.thy ===== *)
theory Runtime_Budget
  imports Runtime_Reachable
begin

text \<open>
  The reservations as an invariant of the concurrent runtime: they never exceed the ceiling, and in
  the first run of a runtime they count exactly the calls that are admitted and not finished, so
  that the ceiling bounds the calls in the library. The queue holds exactly the callers that wait.
\<close>

section \<open>The ceiling\<close>

definition same_admission :: "'a rt_admission_scheme \<Rightarrow> 'b rt_admission_scheme \<Rightarrow> bool" where
  "same_admission r q \<longleftrightarrow> m_admissionQueue r = m_admissionQueue q \<and> m_nextAdmissionTicket r = m_nextAdmissionTicket q
     \<and> m_queuedNow r = m_queuedNow q \<and> m_admissionEpoch r = m_admissionEpoch q
     \<and> m_effectiveMaxInFlight r = m_effectiveMaxInFlight q \<and> m_descriptorsPerCall r = m_descriptorsPerCall q"

definition ceiling :: "'a rt_admission_scheme \<Rightarrow> bool" where
  "ceiling r \<longleftrightarrow> admission_ok r \<and> m_admitted r \<le> sint (m_effectiveMaxInFlight r) \<and> 4 \<le> sint (m_descriptorsPerCall r)"

lemma ceiling_lower:
  "same_admission q r \<Longrightarrow> 0 \<le> m_admitted q \<Longrightarrow> m_admitted q \<le> m_admitted r \<Longrightarrow> ceiling r \<Longrightarrow> ceiling q"
  by (simp add: ceiling_def same_admission_def admission_ok_def)

lemma ceiling_nonneg: "ceiling r \<Longrightarrow> 0 \<le> m_admitted r"
  by (simp add: ceiling_def admission_ok_def)

lemma ceiling_admit:
  assumes "ceiling r" "admissionBlockLocked snap r = (BlockNone, e)"
  shows "m_admitted r + 1 \<le> sint (m_effectiveMaxInFlight r)"
  using assms unblocked_fits [OF assms(2)] by (simp add: ceiling_def admission_ok_def)

lemma ceilingI:
  "admission_ok q \<Longrightarrow> m_effectiveMaxInFlight q = m_effectiveMaxInFlight r \<Longrightarrow>
   m_descriptorsPerCall q = m_descriptorsPerCall r \<Longrightarrow> ceiling r \<Longrightarrow>
   m_admitted q = m_admitted r \<or> (\<exists>snap e. admissionBlockLocked snap r = (BlockNone, e)) \<and> m_admitted q = m_admitted r + 1 \<Longrightarrow>
   ceiling q"
  using ceiling_admit [of r] by (auto simp: ceiling_def)

lemma enter_ceiling: "admission_enter snap now r = (out, q) \<Longrightarrow> ceiling r \<Longrightarrow> ceiling q"
proof -
  assume a: "admission_enter snap now r = (out, q)" and c: "ceiling r"
  then have "admission_ok q" using enter_ok by (auto simp: ceiling_def)
  with a c show ?thesis by (elim enter_cases) (rule ceilingI; auto simp: enqueued_def)+
qed

lemma poll_ceiling: "admission_poll snap now w r = (out, q) \<Longrightarrow> ceiling r \<Longrightarrow> ceiling q"
proof -
  assume a: "admission_poll snap now w r = (out, q)" and c: "ceiling r"
  then have "admission_ok q" using poll_ok by (auto simp: ceiling_def)
  with a c show ?thesis
    by (elim poll_cases) (rule ceilingI; auto simp: removeAdmissionTicketLocked_def)+
qed

lemma tryAdmit_ceiling: "tryAdmit snap r = (out, q) \<Longrightarrow> ceiling r \<Longrightarrow> ceiling q"
proof -
  assume a: "tryAdmit snap r = (out, q)" and c: "ceiling r"
  then have "admission_ok q" using tryAdmit_ok by (auto simp: ceiling_def)
  with a c show ?thesis by (elim tryAdmit_cases) (rule ceilingI; auto)+
qed

lemma release_ceiling: "ceiling r \<Longrightarrow> ceiling (releaseAdmission r)"
  by (auto simp: ceiling_def release_ok) (auto simp: releaseAdmission_def)

text \<open>Operations outside admission either leave the reservations or give one back.\<close>

lemma trampoline_ceiling:
  assumes "ceiling r"
  shows "ceiling (callbackTrampoline parse secs status res i r)"
  by (rule ceiling_lower [OF _ _ _ assms])
     (use ceiling_nonneg [OF assms] in \<open>auto simp: same_admission_def split: Kind.split\<close>)

lemma reply_ceiling: "ceiling r \<Longrightarrow> ceiling (library_reply parse secs reply i r)"
  by (simp add: library_reply_def trampoline_ceiling split: option.split)

lemma ceiling_core [simp]:
  "ceiling (r\<lparr>m_stopRequested := b\<rparr>) = ceiling r" "ceiling (r\<lparr>m_shutdown := b\<rparr>) = ceiling r"
  "ceiling (setState st e r) = ceiling r" "ceiling (emit n' p r) = ceiling r"
  by (simp_all add: ceiling_def admission_ok_def setState_def emit_def Let_def)

lemma ceiling_calls [simp]:
  "ceiling (r\<lparr>m_nextId := k\<rparr>) = ceiling r" "ceiling (r\<lparr>m_slots := sl\<rparr>) = ceiling r"
  "ceiling (r\<lparr>m_boxes := bs\<rparr>) = ceiling r" "ceiling (r\<lparr>m_inFlight := n\<rparr>) = ceiling r"
  "ceiling (r\<lparr>m_pending := ps\<rparr>) = ceiling r" "ceiling (r\<lparr>m_queue := ps\<rparr>) = ceiling r"
  "ceiling (r\<lparr>m_waiters := ps\<rparr>) = ceiling r" "ceiling (r\<lparr>m_callsTotal := n\<rparr>) = ceiling r"
  "ceiling (prunePendingLocked r) = ceiling r"
  by (simp_all add: ceiling_def admission_ok_def)

lemma ceiling_health [simp]:
  "ceiling (r\<lparr>m_syncPhase := ph\<rparr>) = ceiling r" "ceiling (r\<lparr>m_syncCycleStart := t\<rparr>) = ceiling r"
  "ceiling (r\<lparr>m_heartbeatInFlight := h\<rparr>) = ceiling r" "ceiling (releaseStart ok err r) = ceiling r"
  "ceiling (finishSyncCycle secs ok err r) = ceiling r"
  by (simp_all add: ceiling_def admission_ok_def)

lemma issueSync_ceiling: "ceiling r \<Longrightarrow> ceiling (issueSync parse secs reply kind r)"
  by (simp add: issueSync_def alloc_slot_eq Let_def reply_ceiling)

lemma advanceSync_ceiling: "ceiling r \<Longrightarrow> ceiling (advanceSync parse now secs reply r)"
  by (simp add: advanceSync_def issueSync_ceiling split: SyncPhase.split)

lemma keepAlive_ceiling: "ceiling r \<Longrightarrow> ceiling (issueKeepAlive parse secs snap reply r)"
  by (cases "tryAdmit snap r")
     (auto simp: issueKeepAlive_def alloc_slot_eq Let_def tryAdmit_ceiling reply_ceiling split: option.split)

lemma enqueue_ceiling: "call_enqueue m ps r = (out, q) \<Longrightarrow> ceiling r \<Longrightarrow> ceiling q"
  by (erule call_enqueue_cases) (simp_all add: alloc_slot_eq Let_def release_ceiling)

lemma perCall_floor: "4 \<le> sint (i64_max 4 n)"
  by simp

lemma start_begin_ceiling:
  assumes "start_begin dump snap cfg q = (res, r)" "0 < sint (maxInFlight cfg)" "ceiling q"
  shows "ceiling r"
  using assms(1)
proof (cases rule: start_begin_cases)
  case refused
  then show ?thesis using assms(2) by (simp add: ceiling_def admission_ok_def start_reset_def)
next
  case (requested capacity)
  have "0 \<le> sint (if 0 \<le> sint capacity then i64_min (maxInFlight cfg) capacity else maxInFlight cfg)"
    using assms(2) by simp
  then show ?thesis
    by (simp add: requested(5) ceiling_def admission_ok_def start_reset_def)
qed (use assms(3) in simp)

lemma teardown_ceiling: "ceiling r \<Longrightarrow> ceiling (teardown_free r)"
  by (auto simp: teardown_free_def failAllPending_def Let_def ceiling_def admission_ok_def)

lemma step_ceiling:
  assumes "sys_step parse dump s e t" "ceiling (rtm s)"
  shows "ceiling (rtm t)"
  using assms(1)
proof (cases rule: sys_step.cases)
  case (start_return report secs res r)
  then show ?thesis using assms(2) start_end_state by (fastforce simp: ceiling_def admission_ok_def)
next
  case (stop_call res r)
  then show ?thesis using assms(2) by (auto simp: stop_begin_def split: if_splits)
next
  case (wake go r)
  then show ?thesis
    using assms(2) by (auto simp: thread_wake_def run_reset_def ceiling_def admission_ok_def split: if_splits)
next
  case start_fails
  then show ?thesis
    using assms(2) by (simp add: thread_park_def run_refused_def Let_def) (simp add: ceiling_def admission_ok_def)
next
  case (start_succeeds now interval)
  then show ?thesis using assms(2) by (simp add: run_accepted_def Let_def ceiling_def admission_ok_def)
next
  case (dispatch i r rep secs)
  then show ?thesis using assms(2) by (auto simp: dispatch_front_Some reply_ceiling)
next
  case (beat now snap rep secs)
  then show ?thesis
    using keepAlive_ceiling [OF assms(2)] by (simp add: ceiling_def admission_ok_def)
next
  case leave_pump
  then show ?thesis using assms(2) by (simp add: teardown_begin_def)
next
  case all_done
  then show ?thesis
    using assms(2) by (simp add: thread_park_def teardown_done_def) (simp add: ceiling_def admission_ok_def)
qed (use assms(2) in \<open>auto simp: set_caller_def call_finish_def request_shutdown_def enter_ceiling poll_ceiling
    enqueue_ceiling start_begin_ceiling advanceSync_ceiling trampoline_ceiling teardown_ceiling\<close>)

interpretation reservations: run_invariant sys_init "sys_step parse dump" "\<lambda>s. ceiling (rtm s)" for parse dump
proof
  show "sys_init s \<Longrightarrow> ceiling (rtm s)" for s
    by (auto simp: sys_init_def new_runtime_def ceiling_def admission_ok_def)
qed (rule step_ceiling)

section \<open>Reservations and calls\<close>

fun is_holding :: "caller \<Rightarrow> bool" where
  "is_holding (Holding _ _) = True"
| "is_holding _ = False"

text \<open>The calls that hold a reservation: admitted callers, queued commands, calls in the library.\<close>

definition reserved :: "caller list \<Rightarrow> 'a rt_calls_scheme \<Rightarrow> int" where
  "reserved cs r = int (length (filter is_holding cs)) + int (length (m_queue r))
     + int (length (boxes_of {User, Heartbeat} r))"

lemma reserved_same:
  "m_queue q = m_queue r \<Longrightarrow> m_boxes q = m_boxes r \<Longrightarrow> m_slots q = m_slots r \<Longrightarrow> reserved cs q = reserved cs r"
  by (simp add: reserved_def boxes_of_def)

lemma reserved_update:
  "c < length cs \<Longrightarrow> reserved (cs[c := k]) r =
     reserved cs r - (if is_holding (cs ! c) then 1 else 0) + (if is_holding k then 1 else 0)"
  by (simp add: reserved_def length_filter_update)

lemma trampoline_counted:
  assumes "m_admitted r = reserved cs r" "i \<in> set (m_boxes r)"
  shows "m_admitted (callbackTrampoline parse secs status res i r)
    = reserved cs (callbackTrampoline parse secs status res i r)"
proof (cases "slot_kind (m_slots r i) \<in> {User, Heartbeat}")
  case True
  then have "i \<in> set (boxes_of {User, Heartbeat} r)" using assms(2) by simp
  then have "int (length (remove1 i (boxes_of {User, Heartbeat} r))) = int (length (boxes_of {User, Heartbeat} r)) - 1"
      "0 < length (boxes_of {User, Heartbeat} r)"
    by (rule int_length_remove1) (use \<open>i \<in> set (boxes_of _ r)\<close> in \<open>simp only: length_pos_if_in_set\<close>)
  then show ?thesis
    using True assms(1) by (auto simp: reserved_def boxes_of_trampoline split: Kind.split)
next
  case False
  then show ?thesis
    using assms(1) by (cases "slot_kind (m_slots r i)") (simp_all add: reserved_def boxes_of_trampoline)
qed

lemma reply_counted:
  "m_admitted r = reserved cs r \<Longrightarrow> i \<in> set (m_boxes r) \<Longrightarrow>
   m_admitted (library_reply parse secs reply i r) = reserved cs (library_reply parse secs reply i r)"
  by (cases reply) (auto simp: library_reply_def simp del: trampoline_admitted intro!: trampoline_counted)

text \<open>A fresh slot is in no list, so allocating it changes no count.\<close>

lemma boxes_of_added:
  assumes "slots_ok r" "m_boxes q = m_boxes r @ bs" "bs = [] \<or> bs = [m_nextId r]"
    "m_slots q = (m_slots r)(m_nextId r := sl)"
  shows "boxes_of ks q = boxes_of ks r @ (if slot_kind sl \<in> ks then bs else [])"
proof -
  have "m_nextId r \<notin> set (m_boxes r)" using slots_okD(5) [OF assms(1), of "m_nextId r"] by auto
  then have "filter (\<lambda>j. slot_kind (m_slots q j) \<in> ks) (m_boxes r) = boxes_of ks r"
    by (auto simp: boxes_of_def assms(4) intro!: filter_cong)
  then show ?thesis using assms(3) by (auto simp: boxes_of_def assms(2,4))
qed

lemma issueSync_counted:
  assumes "m_admitted r = reserved cs r" "slots_ok r" "kind = Sync \<or> kind = OpSync"
  shows "m_admitted (issueSync parse secs reply kind r) = reserved cs (issueSync parse secs reply kind r)"
proof -
  define m where "m = (if kind = OpSync then ''nvp_op_sync'' else ''nvp_eth_sync'')"
  define r2 where "r2 = prunePendingLocked (snd (alloc_slot m [] kind r))"
  define r3 where "r3 = r2\<lparr>m_pending := m_pending r2 @ [m_nextId r],
      m_syncPhase := (if kind = OpSync then PhaseOp else PhaseEth), m_boxes := m_boxes r2 @ [m_nextId r],
      m_inFlight := m_inFlight r2 + 1\<rparr>"
  have sel: "m_boxes r3 = m_boxes r @ [m_nextId r]" "m_queue r3 = m_queue r" "m_admitted r3 = m_admitted r"
      "m_slots r3 = (m_slots r)(m_nextId r := new_slot (m_nextId r) m [] kind)"
    by (simp_all add: r3_def r2_def alloc_slot_eq)
  have "boxes_of {User, Heartbeat} r3 = boxes_of {User, Heartbeat} r"
    using assms(3) boxes_of_added [OF assms(2) sel(1) _ sel(4)] by (auto simp: new_slot_def)
  then have "m_admitted r3 = reserved cs r3" using assms(1) by (simp add: reserved_def sel)
  then have "m_admitted (library_reply parse secs reply (m_nextId r) r3)
      = reserved cs (library_reply parse secs reply (m_nextId r) r3)"
    by (rule reply_counted) (simp add: sel)
  then show ?thesis by (simp add: issueSync_def Let_def r3_def r2_def m_def alloc_slot_eq)
qed

lemma reserved_cycle [simp]: "reserved cs (finishSyncCycle secs ok err r) = reserved cs r"
  by (rule reserved_same) simp_all

lemma advanceSync_counted:
  assumes "m_admitted r = reserved cs r" "slots_ok r"
  shows "m_admitted (advanceSync parse now secs reply r) = reserved cs (advanceSync parse now secs reply r)"
proof -
  have "slots_ok (r\<lparr>m_syncCycleStart := now\<rparr>)"
    using assms(2) by (simp add: slots_ok_def owned_def)
  then have "m_admitted (issueSync parse secs reply Sync (r\<lparr>m_syncCycleStart := now\<rparr>))
      = reserved cs (issueSync parse secs reply Sync (r\<lparr>m_syncCycleStart := now\<rparr>))"
    using assms(1) by (intro issueSync_counted) (simp_all add: reserved_def boxes_of_def)
  then show ?thesis
    using assms issueSync_counted [OF assms, of OpSync] by (simp add: advanceSync_def split: SyncPhase.split)
qed

lemma issueKeepAlive_counted:
  assumes "m_admitted r = reserved cs r" "slots_ok r"
  shows "m_admitted (issueKeepAlive parse secs snap reply r) = reserved cs (issueKeepAlive parse secs snap reply r)"
proof -
  obtain out q where t: "tryAdmit snap r = (out, q)" by fastforce
  show ?thesis
    using t
  proof (cases rule: tryAdmit_cases)
    case (refused e)
    then show ?thesis using t assms(1) by (simp add: issueKeepAlive_def)
  next
    case (admitted e)
    define r3 where "r3 = (snd (alloc_slot ''eth_getBlockByNumber'' beat_params Heartbeat q))
      \<lparr>m_heartbeatInFlight := True, m_inFlight := m_inFlight q + 1, m_boxes := m_boxes q @ [m_nextId q]\<rparr>"
    have sel: "m_boxes r3 = m_boxes r @ [m_nextId r]" "m_queue r3 = m_queue r" "m_admitted r3 = m_admitted r + 1"
        "m_slots r3 = (m_slots r)(m_nextId r := new_slot (m_nextId r) ''eth_getBlockByNumber'' beat_params Heartbeat)"
      using admitted(4) by (simp_all add: r3_def alloc_slot_eq)
    have "boxes_of {User, Heartbeat} r3 = boxes_of {User, Heartbeat} r @ [m_nextId r]"
      using boxes_of_added [OF assms(2) sel(1) _ sel(4)] by (simp add: new_slot_def)
    then have "m_admitted r3 = reserved cs r3" using assms(1) by (simp add: reserved_def sel)
    then have "m_admitted (library_reply parse secs reply (m_nextId r) r3)
        = reserved cs (library_reply parse secs reply (m_nextId r) r3)"
      by (rule reply_counted) (simp add: sel)
    moreover have "m_nextId q = m_nextId r" using admitted(4) by simp
    ultimately show ?thesis
      using t admitted(3) reserved_same
      by (simp add: issueKeepAlive_def Let_def r3_def alloc_slot_eq) (simp add: reserved_def boxes_of_def)
  qed
qed

section \<open>The first run\<close>

text \<open>The epoch counts the starts, so the first run is the one of epoch 1.\<close>

definition in_run :: "thread_pc \<Rightarrow> rt \<Rightarrow> bool" where
  "in_run p r \<longleftrightarrow> m_runRequested r \<or> p \<in> {Prologue, Pump, Drain}"

definition first_run :: "sys \<Rightarrow> bool" where
  "first_run s \<longleftrightarrow>
     (m_admissionEpoch (rtm s) = 0 \<longrightarrow> (\<forall>k \<in> set (callers s). k = Outside) \<and> m_queue (rtm s) = []
        \<and> m_boxes (rtm s) = [] \<and> \<not> live (rtm s) \<and> \<not> m_runRequested (rtm s) \<and> pc s \<in> {Parked, Exited})
     \<and> (m_admissionEpoch (rtm s) \<le> 1 \<and> pc s \<notin> {Parked, Exited} \<longrightarrow> \<not> m_runRequested (rtm s))
     \<and> (m_admissionEpoch (rtm s) = 1 \<and> in_run (pc s) (rtm s) \<longrightarrow>
          m_admitted (rtm s) = reserved (callers s) (rtm s))"

text \<open>Steps that leave the epoch, the request and the state of the thread: only the count matters.\<close>

lemma first_run_keep:
  assumes "first_run s" "m_admissionEpoch (rtm t) = m_admissionEpoch (rtm s)" "pc t = pc s"
    "m_runRequested (rtm t) = m_runRequested (rtm s)"
    "m_admissionEpoch (rtm s) \<noteq> 0"
    "m_admitted (rtm s) = reserved (callers s) (rtm s) \<Longrightarrow> m_admitted (rtm t) = reserved (callers t) (rtm t)"
  shows "first_run t"
  using assms by (simp add: first_run_def in_run_def)

lemma epoch_of_active:
  "first_run s \<Longrightarrow> c < length (callers s) \<Longrightarrow> callers s ! c \<noteq> Outside \<Longrightarrow> m_admissionEpoch (rtm s) \<noteq> 0"
  "first_run s \<Longrightarrow> pc s \<in> {Prologue, Pump, Drain, Freed} \<Longrightarrow> m_admissionEpoch (rtm s) \<noteq> 0"
  "first_run s \<Longrightarrow> live (rtm s) \<Longrightarrow> m_admissionEpoch (rtm s) \<noteq> 0"
  by (auto simp: first_run_def in_run_def)

lemma enqueue_counted:
  assumes "call_enqueue m ps r = (out, q)" "m_admitted r = reserved cs r" "slots_ok r"
    "c < length cs" "cs ! c = Holding m ps"
  shows "m_admitted q = reserved (cs[c := (case out of Inl _ \<Rightarrow> Outside | Inr i \<Rightarrow> OnSlot i)]) q"
  using assms(1)
proof (cases rule: call_enqueue_cases)
  case refused
  have sel: "m_boxes q = m_boxes r" "m_queue q = m_queue r"
      "m_slots q = (m_slots r)(m_nextId r := new_slot (m_nextId r) m ps User)"
    by (simp_all add: refused(3) alloc_slot_eq)
  have "reserved cs q = reserved cs r"
    using boxes_of_added [OF assms(3), of q "[]"] sel by (simp add: reserved_def)
  moreover have "cs ! c \<in> set (filter is_holding cs)" using nth_mem [OF assms(4)] assms(5) by simp
  then have "0 < length (filter is_holding cs)" by (rule length_pos_if_in_set)
  then have "0 < reserved cs r" by (simp add: reserved_def del: length_greater_0_conv)
  ultimately show ?thesis
    using refused assms(2,4,5) by (simp add: reserved_update releaseAdmission_def alloc_slot_eq)
next
  case queued
  have sel: "m_boxes q = m_boxes r" "m_queue q = m_queue r @ [m_nextId r]" "m_admitted q = m_admitted r"
      "m_slots q = (m_slots r)(m_nextId r := new_slot (m_nextId r) m ps User)"
    by (simp_all add: queued(3) alloc_slot_eq Let_def)
  have "reserved cs q = reserved cs r + 1"
    using boxes_of_added [OF assms(3), of q "[]"] sel by (simp add: reserved_def)
  then show ?thesis using queued(2) assms(2,4,5) sel by (simp add: reserved_update)
qed

lemma count_same:
  "m_admitted q = m_admitted r \<Longrightarrow> m_queue q = m_queue r \<Longrightarrow> m_boxes q = m_boxes r \<Longrightarrow> m_slots q = m_slots r \<Longrightarrow>
   m_admitted r = reserved cs r \<Longrightarrow> m_admitted q = reserved cs q"
  using reserved_same [of q r cs] by simp

lemma enter_counted:
  assumes "admission_enter snap now r = (out, q)" "m_admitted r = reserved cs (r :: rt)" "c < length cs" "\<not> is_holding (cs ! c)"
  shows "m_admitted q = reserved (cs[c := after_admission out m ps]) q"
  using assms(1) assms(2-4) reserved_same [of q r cs]
  by (elim enter_cases) (auto simp: reserved_update after_admission_def enqueued_def)

lemma poll_counted:
  assumes "admission_poll snap now w r = (out, q)" "m_admitted r = reserved cs (r :: rt)" "c < length cs" "\<not> is_holding (cs ! c)"
  shows "m_admitted q = reserved (cs[c := after_admission out m ps]) q"
  using assms(1) assms(2-4) reserved_same [of q r cs]
  by (elim poll_cases) (auto simp: reserved_update after_admission_def removeAdmissionTicketLocked_def)

lemma dispatch_counted:
  assumes "dispatch_front r = Some (i, q)" "m_admitted r = reserved cs r" "slots_ok r"
  shows "m_admitted q = reserved cs q"
  using assms by (auto simp: dispatch_front_Some reserved_def boxes_of_def slots_ok_def)

lemma epoch_frames [simp]:
  "m_admissionEpoch (issueSync parse secs reply kind r) = m_admissionEpoch r"
  "m_admissionEpoch (advanceSync parse now secs reply r) = m_admissionEpoch r"
  "m_admissionEpoch (issueKeepAlive parse secs snap reply r) = m_admissionEpoch r"
proof -
  show i: "m_admissionEpoch (issueSync parse secs reply kind r) = m_admissionEpoch r"
    for reply kind and r :: "'a rt_health_scheme"
    by (simp add: issueSync_def alloc_slot_eq Let_def)
  show "m_admissionEpoch (advanceSync parse now secs reply r) = m_admissionEpoch r"
    by (simp add: advanceSync_def i split: SyncPhase.split)
  show "m_admissionEpoch (issueKeepAlive parse secs snap reply r) = m_admissionEpoch r"
    by (cases "tryAdmit snap r")
       (auto simp: issueKeepAlive_def alloc_slot_eq Let_def elim!: tryAdmit_cases split: option.split)
qed

lemma epoch_callers:
  "admission_enter snap now r = (out, q) \<Longrightarrow> m_admissionEpoch q = m_admissionEpoch r"
  "admission_poll snap now w r = (out, q) \<Longrightarrow> m_admissionEpoch q = m_admissionEpoch r"
  "call_enqueue m ps r' = (out', q') \<Longrightarrow> m_admissionEpoch q' = m_admissionEpoch r'"
  by (auto simp: enqueued_def alloc_slot_eq Let_def elim!: enter_cases poll_cases call_enqueue_cases)

lemma precheck_live: "call_precheck params r = None \<Longrightarrow> live r"
  by (auto simp: call_precheck_def live_def running_def split: if_splits)

lemma first_run_caller:
  assumes "first_run s" "c < length (callers s)" "callers s ! c \<noteq> Outside"
    "m_admissionEpoch r = m_admissionEpoch (rtm s)" "m_runRequested r = m_runRequested (rtm s)"
    "m_admitted (rtm s) = reserved (callers s) (rtm s) \<Longrightarrow> m_admitted r = reserved ((callers s)[c := k]) r"
  shows "first_run (set_caller c k (s\<lparr>rtm := r\<rparr>))"
  by (rule first_run_keep [OF assms(1)])
     (use assms epoch_of_active(1) [OF assms(1-3)] in \<open>simp_all add: set_caller_def\<close>)

lemma first_run_thread:
  assumes "first_run s" "pc s \<in> {Prologue, Pump, Drain}"
    "m_admissionEpoch r = m_admissionEpoch (rtm s)" "m_runRequested r = m_runRequested (rtm s)"
    "m_admitted (rtm s) = reserved (callers s) (rtm s) \<Longrightarrow> m_admitted r = reserved (callers s) r"
  shows "first_run (s\<lparr>rtm := r\<rparr>)"
  by (rule first_run_keep [OF assms(1)]) (use assms epoch_of_active(2) [OF assms(1)] in auto)

text \<open>A start that finds no other one makes the first epoch, with nothing reserved.\<close>

lemma first_run_start:
  assumes "start_begin dump snap cfg (rtm s) = (res, r)" "first_run s"
  shows "first_run (s\<lparr>rtm := r\<rparr>)"
  using assms(1)
proof (cases rule: start_begin_cases)
  case active
  then show ?thesis using assms(2) by simp
next
  case refused
  have "m_admissionEpoch r = m_admissionEpoch (rtm s) + 1" "m_admitted r = 0" "m_queue r = m_queue (rtm s)"
      "m_boxes r = m_boxes (rtm s)" "m_runRequested r = m_runRequested (rtm s)"
    by (simp_all add: refused(4) start_reset_def setState_def emit_def Let_def)
  then show ?thesis using assms(2) by (auto simp: first_run_def in_run_def)
next
  case (requested capacity)
  have "m_admissionEpoch r = m_admissionEpoch (rtm s) + 1" "m_admitted r = 0" "m_queue r = m_queue (rtm s)"
      "m_boxes r = m_boxes (rtm s)"
    by (simp_all add: requested(5) start_reset_def setState_def emit_def Let_def)
  moreover have "m_admissionEpoch (rtm s) = 0 \<Longrightarrow> reserved (callers s) r = 0"
    using assms(2) calculation(3,4) by (auto simp: first_run_def reserved_def boxes_of_def filter_empty_conv)
  ultimately show ?thesis using assms(2) by (auto simp: first_run_def in_run_def)
qed

lemma step_first_run:
  assumes "sys_step parse dump s e t" "first_run s" "sys_ok s"
  shows "first_run t"
proof -
  have so: "slots_ok (rtm s)"
    using assms(3) by (simp_all add: sys_ok_def calls_ok_def good_def)
  note active = epoch_of_active [OF assms(2)]
  show ?thesis
    using assms(1)
  proof (cases rule: sys_step.cases)
    case (check_ok c params mth)
    then have "m_admissionEpoch (rtm s) \<noteq> 0" using active(3) precheck_live by blast
    then show ?thesis
      using check_ok by (intro first_run_keep [OF assms(2)]) (simp_all add: set_caller_def reserved_update)
  next
    case (enter c mth params snap now out r)
    then show ?thesis
      using first_run_caller [OF assms(2), of c r] epoch_callers(1) [OF enter(5)] same_more(3) [OF enter_more [OF enter(5)]]
        enter_counted [OF enter(5)] by simp
  next
    case (poll c w mth params snap now out r)
    then show ?thesis
      using first_run_caller [OF assms(2), of c r] epoch_callers(2) [OF poll(5)] same_more(3) [OF poll_more [OF poll(5)]]
        poll_counted [OF poll(5)] by simp
  next
    case (enqueue c mth params out r)
    then show ?thesis
      using first_run_caller [OF assms(2), of c r] epoch_callers(3) [OF enqueue(5)]
        same_more(3) [OF enqueue_more [OF enqueue(5)]] enqueue_counted [OF enqueue(5) _ so] by simp
  next
    case (finish c i report res r)
    then have "m_admitted r = m_admitted (rtm s)" "reserved cs r = reserved cs (rtm s)"
        "m_admissionEpoch r = m_admissionEpoch (rtm s)" "m_runRequested r = m_runRequested (rtm s)" for cs
      by (auto simp: call_finish_def intro: reserved_same)
    then show ?thesis
      using finish first_run_caller [OF assms(2), of c r] by (simp add: reserved_update)
  next
    case (start_call cfg snap res r)
    then show ?thesis using first_run_start assms(2) by simp
  next
    case (start_return report secs res r)
    obtain n where "r = (rtm s)\<lparr>m_startedAt := n\<rparr>" using start_end_state [OF start_return(3)] by blast
    then have "rtm t = (rtm s)\<lparr>m_startedAt := n\<rparr>" "callers t = callers s" "pc t = pc s"
      using start_return by simp_all
    then show ?thesis
      using assms(2) by (auto simp: first_run_def in_run_def reserved_def boxes_of_def live_def)
  next
    case (stop_call res r)
    then have "r = (rtm s)\<lparr>m_stopRequested := m_stopRequested r\<rparr>" by (auto simp: stop_begin_def split: if_splits)
    then obtain b where "rtm t = (rtm s)\<lparr>m_stopRequested := b\<rparr>" "callers t = callers s" "pc t = pc s"
      using stop_call by simp
    then show ?thesis
      using assms(2) by (auto simp: first_run_def in_run_def reserved_def boxes_of_def live_def)
  next
    case shut_down
    then show ?thesis
      using assms(2) by (simp add: first_run_def in_run_def request_shutdown_def reserved_def boxes_of_def live_def)
  next
    case (wake go r)
    then show ?thesis
      using assms(2)
      by (auto simp: first_run_def in_run_def thread_wake_def thread_wakes_def run_reset_def reserved_def boxes_of_def
          live_def split: if_splits)
  next
    case start_fails
    have "m_admissionEpoch (thread_park (run_refused (rtm s))) = m_admissionEpoch (rtm s)"
        "m_runRequested (thread_park (run_refused (rtm s))) = m_runRequested (rtm s)"
      by (simp_all add: thread_park_def run_refused_def Let_def setState_def emit_def)
    then show ?thesis
      using start_fails assms(2) active(2) by (auto simp: first_run_def in_run_def)
  next
    case (start_succeeds now interval)
    then show ?thesis
      using assms(2) active(2)
      by (simp add: first_run_def in_run_def run_accepted_def Let_def reserved_def boxes_of_def)
  next
    case (dispatch i r rep secs)
    have r: "i \<in> set (m_boxes r)" "m_admissionEpoch r = m_admissionEpoch (rtm s)"
        "m_runRequested r = m_runRequested (rtm s)"
      using dispatch(4) by (auto simp: dispatch_front_Some)
    then show ?thesis
      using dispatch first_run_thread [OF assms(2), of "library_reply parse secs rep i r"]
        same_more(3) [OF reply_more, of parse secs rep i r]
        reply_counted [OF dispatch_counted [OF dispatch(4) _ so] r(1)] by simp
  next
    case (advance now secs rep)
    then show ?thesis
      using first_run_thread [OF assms(2), of "advanceSync parse now secs rep (rtm s)"]
        same_more(3) [OF advance_more, of parse now secs rep "rtm s"] advanceSync_counted [OF _ so] by simp
  next
    case (beat now snap rep secs)
    define q where "q = issueKeepAlive parse secs snap rep (rtm s)"
    have "first_run (s\<lparr>rtm := q\<lparr>nextKeepAlive := now + sint (keepAliveIntervalMs (m_cfg (rtm s)))\<rparr>\<rparr>)"
      using beat same_more(3) [OF keepAlive_more, of parse secs snap rep "rtm s"]
        issueKeepAlive_counted [OF _ so, of "callers s" parse secs snap rep]
      by (intro first_run_thread [OF assms(2)]) (simp_all add: q_def reserved_def boxes_of_def)
    then show ?thesis using beat by (simp add: q_def)
  next
    case (callback i status res secs)
    then show ?thesis
      using first_run_thread [OF assms(2), of "callbackTrampoline parse secs status res i (rtm s)"]
        same_more(3) [OF trampoline_more, of parse secs status res i "rtm s"]
        trampoline_counted [of "rtm s" "callers s" i parse secs status res] by auto
  next
    case leave_pump
    have "m_admissionEpoch (teardown_begin (rtm s)) = m_admissionEpoch (rtm s)"
        "m_runRequested (teardown_begin (rtm s)) = m_runRequested (rtm s)"
        "m_admitted (teardown_begin (rtm s)) = m_admitted (rtm s)"
        "reserved (callers s) (teardown_begin (rtm s)) = reserved (callers s) (rtm s)"
      using same_more(3) [OF release_more, of False "''the proxy was stopped before its first light-client sync''" "rtm s"]
      by (simp_all add: teardown_begin_def reserved_def boxes_of_def) (simp add: setState_def emit_def Let_def)
    then show ?thesis
      using leave_pump assms(2) active(2) by (simp add: first_run_def in_run_def)
  next
    case free
    have "m_admissionEpoch (teardown_free (rtm s)) = m_admissionEpoch (rtm s)"
        "m_runRequested (teardown_free (rtm s)) = m_runRequested (rtm s)"
      using same_more(3) [OF fail_each_more, of "''proxy shutting down''" "m_pending (rtm s)" "(rtm s)\<lparr>m_pending := [], m_queue := []\<rparr>"]
      by (simp_all add: teardown_free_def failAllPending_def Let_def)
    then show ?thesis
      using free assms(2) active(2) by (auto simp: first_run_def in_run_def)
  next
    case all_done
    have "m_admissionEpoch (thread_park (teardown_done (rtm s))) = m_admissionEpoch (rtm s)"
        "m_runRequested (thread_park (teardown_done (rtm s))) = m_runRequested (rtm s)"
      by (simp_all add: thread_park_def teardown_done_def setState_def emit_def Let_def)
    then show ?thesis
      using all_done assms(2) active(2) by (auto simp: first_run_def in_run_def)
  qed
qed

interpretation accounting: run_invariant sys_init "sys_step parse dump" "\<lambda>s. sys_ok s \<and> first_run s" for parse dump
proof
  show "sys_init s \<Longrightarrow> sys_ok s \<and> first_run s" for s
    using init_ok by (auto simp: sys_init_def first_run_def new_runtime_def live_def)
  show "sys_ok s \<and> first_run s \<Longrightarrow> sys_step parse dump s e t \<Longrightarrow> sys_ok t \<and> first_run t" for s e t
    using step_first_run step_calls step_run by (auto simp: sys_ok_def)
qed

end
