(* ===== verification/Runtime_Queue.thy ===== *)
theory Runtime_Queue
  imports Runtime_Budget
begin

text \<open>
  The admission queue as an invariant of the concurrent runtime: its tickets are exactly those of
  the callers that wait in the current epoch, so no ticket is left behind to block the others.
\<close>

section \<open>Tickets and their owners\<close>

definition waits :: "caller list \<Rightarrow> nat \<Rightarrow> waiter \<Rightarrow> bool" where
  "waits cs c w \<longleftrightarrow> c < length cs \<and> (\<exists>m ps. cs ! c = InQueue w m ps)"

definition queue_ok :: "caller list \<Rightarrow> 'a rt_admission_scheme \<Rightarrow> bool" where
  "queue_ok cs r \<longleftrightarrow> admission_ok r
     \<and> (\<forall>t \<in> set (m_admissionQueue r). \<exists>c w. waits cs c w \<and> w_ticket w = t \<and> w_epoch w = m_admissionEpoch r)
     \<and> (\<forall>c w. waits cs c w \<longrightarrow> w_ticket w < m_nextAdmissionTicket r \<and> w_epoch w \<le> m_admissionEpoch r
          \<and> (w_epoch w = m_admissionEpoch r \<longrightarrow> w_ticket w \<in> set (m_admissionQueue r)))
     \<and> (\<forall>c w d v. waits cs c w \<and> waits cs d v \<and> w_ticket w = w_ticket v \<longrightarrow> c = d)"

lemma queue_okD:
  assumes "queue_ok cs r"
  shows "admission_ok r"
    "t \<in> set (m_admissionQueue r) \<Longrightarrow> \<exists>c w. waits cs c w \<and> w_ticket w = t \<and> w_epoch w = m_admissionEpoch r"
    "waits cs c w \<Longrightarrow> w_ticket w < m_nextAdmissionTicket r"
    "waits cs c w \<Longrightarrow> w_epoch w \<le> m_admissionEpoch r"
    "waits cs c w \<Longrightarrow> w_epoch w = m_admissionEpoch r \<Longrightarrow> w_ticket w \<in> set (m_admissionQueue r)"
    "waits cs c w \<Longrightarrow> waits cs d v \<Longrightarrow> w_ticket w = w_ticket v \<Longrightarrow> c = d"
  using assms unfolding queue_ok_def by blast+

lemma waits_update:
  "c < length cs \<Longrightarrow> waits (cs[c := k]) d w \<longleftrightarrow>
     (if d = c then \<exists>m ps. k = InQueue w m ps else waits cs d w)"
  by (auto simp: waits_def nth_list_update)

lemma waits_unique: "waits cs c w \<Longrightarrow> waits cs c v \<Longrightarrow> w = v"
  by (auto simp: waits_def)

lemma queue_ok_same:
  assumes "queue_ok cs r" "m_admissionQueue q = m_admissionQueue r"
    "m_nextAdmissionTicket q = m_nextAdmissionTicket r" "m_admissionEpoch q = m_admissionEpoch r"
    "m_queuedNow q = m_queuedNow r" "0 \<le> m_admitted q" "\<And>c w. waits cs' c w = waits cs c w"
  shows "queue_ok cs' q"
  using assms by (simp add: queue_ok_def admission_ok_def)

lemma waits_leave:
  "c < length cs \<Longrightarrow> \<forall>w m ps. cs ! c \<noteq> InQueue w m ps \<Longrightarrow> \<forall>w m ps. k \<noteq> InQueue w m ps \<Longrightarrow>
   waits (cs[c := k]) d w = waits cs d w"
  by (auto simp: waits_def nth_list_update)

text \<open>A caller that leaves the queue takes its ticket with it.\<close>

lemma queue_ok_remove:
  assumes "queue_ok cs r" "waits cs c w" "\<forall>v m ps. k \<noteq> InQueue v m ps" "admission_ok q"
    "set (m_admissionQueue q) = set (m_admissionQueue r) - {w_ticket w}"
    "m_nextAdmissionTicket q = m_nextAdmissionTicket r" "m_admissionEpoch q = m_admissionEpoch r"
  shows "queue_ok (cs[c := k]) q"
proof -
  have c: "c < length cs" using assms(2) by (simp add: waits_def)
  have w: "waits (cs[c := k]) d v \<longleftrightarrow> d \<noteq> c \<and> waits cs d v" for d v
    using assms(3) by (auto simp: waits_update [OF c])
  have own: "\<exists>d v. (d \<noteq> c \<and> waits cs d v) \<and> w_ticket v = t \<and> w_epoch v = m_admissionEpoch r"
    if t: "t \<in> set (m_admissionQueue r)" "t \<noteq> w_ticket w" for t
  proof -
    obtain d v where "waits cs d v" "w_ticket v = t" "w_epoch v = m_admissionEpoch r"
      using queue_okD(2) [OF assms(1) t(1)] by blast
    moreover have "d \<noteq> c" using t(2) calculation waits_unique [OF assms(2), of v] by auto
    ultimately show ?thesis by blast
  qed
  have other: "w_ticket v \<noteq> w_ticket w" if "d \<noteq> c" "waits cs d v" for d v
    using queue_okD(6) [OF assms(1) that(2) assms(2)] that(1) by blast
  show ?thesis
    unfolding queue_ok_def w assms(5-7) using assms(4) own other queue_okD(3-6) [OF assms(1)] by blast
qed

text \<open>A caller that only notes its last blocker keeps its place.\<close>

lemma queue_ok_rewrite:
  assumes "queue_ok cs r" "waits cs c w" "w_ticket v = w_ticket w" "w_epoch v = w_epoch w"
  shows "queue_ok (cs[c := InQueue v m ps]) r"
proof -
  have c: "c < length cs" using assms(2) by (simp add: waits_def)
  have w: "waits (cs[c := InQueue v m ps]) d u \<longleftrightarrow> (if d = c then u = v else waits cs d u)" for d u
    by (auto simp: waits_update [OF c])
  define pre where "pre d u = (if d = c then w else u)" for d u
  have b: "waits cs d (pre d u)" "w_ticket (pre d u) = w_ticket u" "w_epoch (pre d u) = w_epoch u"
    if "waits (cs[c := InQueue v m ps]) d u" for d u
    using that assms(2-4) by (auto simp: w pre_def split: if_splits)
  have own: "\<exists>d u. waits (cs[c := InQueue v m ps]) d u \<and> w_ticket u = t \<and> w_epoch u = m_admissionEpoch r"
    if t: "t \<in> set (m_admissionQueue r)" for t
  proof -
    obtain d u where u: "waits cs d u" "w_ticket u = t" "w_epoch u = m_admissionEpoch r"
      using queue_okD(2) [OF assms(1) t] by blast
    show ?thesis
    proof (cases "d = c")
      case True
      then have "u = w" using waits_unique [OF assms(2)] u(1) by blast
      then show ?thesis using u assms(3,4) by (intro exI [of _ c] exI [of _ v]) (simp add: w)
    next
      case False
      then show ?thesis using u by (intro exI [of _ d] exI [of _ u]) (simp add: w)
    qed
  qed
  show ?thesis
    unfolding queue_ok_def
  proof (intro conjI ballI allI impI)
    fix d u e x
    let ?p = "\<lambda>d u. waits (cs[c := InQueue v m ps]) d u"
    show "w_ticket u < m_nextAdmissionTicket r" if "?p d u" using queue_okD(3) [OF assms(1) b(1) [OF that]] b(2) [OF that] by simp
    show "w_epoch u \<le> m_admissionEpoch r" if "?p d u" using queue_okD(4) [OF assms(1) b(1) [OF that]] b(3) [OF that] by simp
    show "w_ticket u \<in> set (m_admissionQueue r)" if "?p d u" "w_epoch u = m_admissionEpoch r"
      using queue_okD(5) [OF assms(1) b(1) [OF that(1)]] b(2,3) [OF that(1)] that(2) by simp
    show "d = e" if a: "?p d u \<and> ?p e x \<and> w_ticket u = w_ticket x"
    proof (rule queue_okD(6) [OF assms(1)])
      show "waits cs d (pre d u)" "waits cs e (pre e x)" "w_ticket (pre d u) = w_ticket (pre e x)"
        using a b by simp_all
    qed
  qed (use queue_okD(1) [OF assms(1)] own in blast)+
qed

lemma enter_queue_ok:
  assumes "queue_ok cs r" "admission_enter snap now r = (out, q)" "c < length cs" "cs ! c = Checked m ps"
  shows "queue_ok (cs[c := after_admission out m ps]) q"
  using assms(2)
proof (cases rule: enter_cases)
  case refused
  then show ?thesis
    using queue_okD(1) [OF assms(1)] assms(3,4)
    by (intro queue_ok_same [OF assms(1)]) (simp_all add: after_admission_def waits_leave admission_ok_def)
next
  case (admitted e)
  then show ?thesis
    using queue_okD(1) [OF assms(1)] assms(3,4)
    by (intro queue_ok_same [OF assms(1)]) (simp_all add: after_admission_def waits_leave admission_ok_def)
next
  case (waiting blocker b)
  define w where "w = \<lparr>w_ticket = m_nextAdmissionTicket r, w_epoch = m_admissionEpoch r,
      w_deadline = now + sint (queueTimeoutMs (m_cfg r)), w_blocker = blocker, w_blockedBy = b\<rparr>"
  have out: "after_admission out m ps = InQueue w m ps" using waiting(5) by (simp add: after_admission_def w_def)
  have w: "waits (cs[c := InQueue w m ps]) d v \<longleftrightarrow> (if d = c then v = w else waits cs d v)" for d v
    by (auto simp: waits_update [OF assms(3)])
  have no: "\<not> waits cs c v" for v using assms(4) by (simp add: waits_def)
  have q: "m_admissionQueue q = m_admissionQueue r @ [w_ticket w]" "m_nextAdmissionTicket q = m_nextAdmissionTicket r + 1"
      "m_admissionEpoch q = m_admissionEpoch r" "w_epoch w = m_admissionEpoch r" "w_ticket w = m_nextAdmissionTicket r"
    by (simp_all add: waiting(4) enqueued_def w_def)
  have ok: "admission_ok q" using enter_ok [OF assms(2)] queue_okD(1) [OF assms(1)] by blast
  note old = queue_okD(3-5) [OF assms(1)] and inj = queue_okD(6) [OF assms(1)]
  have own: "\<exists>d v. (if d = c then v = w else waits cs d v) \<and> w_ticket v = t \<and> w_epoch v = m_admissionEpoch r"
    if t: "t \<in> set (m_admissionQueue r @ [w_ticket w])" for t
  proof (cases "t = w_ticket w")
    case True
    then show ?thesis using q(4) by (intro exI [of _ c] exI [of _ w]) simp
  next
    case False
    then have "t \<in> set (m_admissionQueue r)" using t by simp
    then obtain d v where "waits cs d v" "w_ticket v = t" "w_epoch v = m_admissionEpoch r"
      using queue_okD(2) [OF assms(1)] by blast
    then show ?thesis using no by (intro exI [of _ d] exI [of _ v]) auto
  qed
  show ?thesis
    unfolding out queue_ok_def w q(1-3)
  proof (intro conjI ballI allI impI)
    fix d v assume d: "if d = c then v = w else waits cs d v"
    show "w_ticket v < m_nextAdmissionTicket r + 1"
      using d q(5) old(1) [of d v] by (cases "d = c") simp_all
    show "w_epoch v \<le> m_admissionEpoch r" using d q(4) old(2) [of d v] by (cases "d = c") simp_all
    assume "w_epoch v = m_admissionEpoch r"
    then show "w_ticket v \<in> set (m_admissionQueue r @ [w_ticket w])"
      using d old(3) [of d v] by (cases "d = c") simp_all
  next
    fix d v e u
    assume a: "(if d = c then v = w else waits cs d v) \<and> (if e = c then u = w else waits cs e u) \<and> w_ticket v = w_ticket u"
    then show "d = e"
    proof (cases "d = c \<or> e = c")
      case True
      have "w_ticket x \<noteq> m_nextAdmissionTicket r" if "waits cs y x" for x y using old(1) [OF that] by simp
      then show ?thesis using True a q(5) by metis
    next
      case False
      then have "waits cs d v" "waits cs e u" "w_ticket v = w_ticket u" using a by simp_all
      then show ?thesis by (rule inj)
    qed
  qed (use ok own in auto)
qed

lemma after_admission_refused [simp]: "after_admission (Refused e) m ps = Outside"
  and after_admission_admitted [simp]: "after_admission Admitted m ps = Holding m ps"
  and after_admission_waiting [simp]: "after_admission (Waiting w) m ps = InQueue w m ps"
  by (simp_all add: after_admission_def)

lemma remove_ticket_frames [simp]:
  "m_admissionQueue (snd (removeAdmissionTicketLocked t r)) = remove1 t (m_admissionQueue r)"
  by (simp_all add: removeAdmissionTicketLocked_def remove1_idem)

lemma queue_minus: "admission_ok r \<Longrightarrow> set (remove1 t (m_admissionQueue r)) = set (m_admissionQueue r) - {t}"
  by (rule set_remove1_eq) (rule admission_ok_distinct)

lemma poll_queue_ok:
  assumes "queue_ok cs r" "admission_poll snap now w r = (out, q)" "c < length cs" "cs ! c = InQueue w m ps"
  shows "queue_ok (cs[c := after_admission out m ps]) q"
proof -
  have ok: "admission_ok q" using poll_ok [OF assms(2)] queue_okD(1) [OF assms(1)] by blast
  have w: "waits cs c w" using assms(3,4) by (simp add: waits_def)
  note leave = queue_ok_remove [OF assms(1) w _ ok] and minus = queue_minus [OF queue_okD(1) [OF assms(1)]]
  show ?thesis
    using assms(2)
  proof (cases rule: poll_cases)
    case stopped
    then show ?thesis by (intro leave) (simp_all add: minus)
  next
    case (admitted rest e)
    have "w_ticket w \<notin> set rest" using admission_ok_distinct [OF queue_okD(1) [OF assms(1)]] admitted(3) by simp
    then show ?thesis using admitted by (intro leave) auto
  next
    case (expired blocker n)
    then show ?thesis by (intro leave) (simp_all add: minus)
  next
    case (waiting blocker b)
    show ?thesis
      unfolding waiting(4,5) after_admission_waiting
      by (rule queue_ok_rewrite [OF assms(1) w]) simp_all
  qed
qed

section \<open>Every step\<close>

lemma queue_ok_frame:
  "queue_ok cs r \<Longrightarrow> same_admission q r \<Longrightarrow> 0 \<le> m_admitted q \<Longrightarrow> queue_ok cs q"
  by (erule queue_ok_same) (simp_all add: same_admission_def)

lemma queue_ok_outside:
  "queue_ok cs r \<Longrightarrow> same_admission q r \<Longrightarrow> 0 \<le> m_admitted q \<Longrightarrow> c < length cs \<Longrightarrow>
   \<forall>w m ps. cs ! c \<noteq> InQueue w m ps \<Longrightarrow> \<forall>w m ps. k \<noteq> InQueue w m ps \<Longrightarrow> queue_ok (cs[c := k]) q"
  by (erule queue_ok_same) (simp_all add: same_admission_def waits_leave)

lemma same_admission_refl [simp]: "same_admission r r"
  by (simp add: same_admission_def)

lemma trampoline_admission: "same_admission (callbackTrampoline parse secs status res i r) r"
  by (simp add: same_admission_def)

lemma reply_admission: "same_admission (library_reply parse secs reply i r) r"
  by (simp add: library_reply_def trampoline_admission split: option.split)

lemma same_admission_trans: "same_admission r q \<Longrightarrow> same_admission q p \<Longrightarrow> same_admission r p"
  by (simp add: same_admission_def)

lemma issueSync_admission: "same_admission (issueSync parse secs reply kind r) r"
  by (auto simp: issueSync_def alloc_slot_eq Let_def intro!: same_admission_trans [OF reply_admission])
    (simp_all add: same_admission_def)

lemma advanceSync_admission: "same_admission (advanceSync parse now secs reply r) r"
  by (auto simp: advanceSync_def split: SyncPhase.split intro!: same_admission_trans [OF issueSync_admission])
    (simp_all add: same_admission_def)

lemma issueKeepAlive_admission: "same_admission (issueKeepAlive parse secs snap reply r) r"
  by (cases "tryAdmit snap r")
    (auto simp: issueKeepAlive_def alloc_slot_eq Let_def same_admission_def reply_admission [unfolded same_admission_def]
      elim!: tryAdmit_cases split: option.split)

lemma enqueue_admission: "call_enqueue m ps r = (out, q) \<Longrightarrow> same_admission q r"
  by (erule call_enqueue_cases) (simp_all add: alloc_slot_eq Let_def same_admission_def)

text \<open>A new epoch empties the queue, and no caller waits in it yet.\<close>

lemma new_epoch_queue_ok:
  assumes "queue_ok cs q" "m_admissionQueue r = []" "m_admissionEpoch r = m_admissionEpoch q + 1" "m_queuedNow r = 0"
    "m_admitted r = 0" "m_nextAdmissionTicket r = m_nextAdmissionTicket q"
  shows "queue_ok cs r"
proof -
  have "w_epoch w \<noteq> m_admissionEpoch q + 1" if "waits cs c w" for c w
    using queue_okD(4) [OF assms(1) that] by simp
  then show ?thesis
    using assms(2-) queue_okD(3,4,6) [OF assms(1)]
    by (auto simp: queue_ok_def [of cs r] admission_ok_def le_SucI)
qed

lemma start_queue_ok:
  assumes "start_begin dump snap cfg q = (res, r)" "queue_ok cs q"
  shows "queue_ok cs r"
proof (cases "r = q")
  case False
  then show ?thesis
    using assms(1) by (intro new_epoch_queue_ok [OF assms(2)]) (auto simp: start_reset_def elim!: start_begin_cases)
qed (use assms(2) in simp)

lemma step_queue_ok:
  assumes "sys_step parse dump s e t" "queue_ok (callers s) (rtm s)" "0 \<le> m_admitted (rtm t)"
  shows "queue_ok (callers t) (rtm t)"
proof -
  note frame = queue_ok_frame [OF assms(2) _ assms(3)]
  note outside = queue_ok_outside [OF assms(2) _ assms(3)]
  show ?thesis
    using assms(1)
  proof (cases rule: sys_step.cases)
    case (check_ok c params mth)
    then show ?thesis using outside [of c "Checked mth (dump params)"] by (simp add: set_caller_def)
  next
    case (enter c mth params snap now out r)
    then show ?thesis using enter_queue_ok [OF assms(2)] by (simp add: set_caller_def)
  next
    case (poll c w mth params snap now out r)
    then show ?thesis using poll_queue_ok [OF assms(2)] by (simp add: set_caller_def)
  next
    case (enqueue c mth params out r)
    then show ?thesis
      using outside [of c "case out of Inl _ \<Rightarrow> Outside | Inr i \<Rightarrow> OnSlot i"] enqueue_admission [OF enqueue(5)]
      by (simp add: set_caller_def split: sum.split)
  next
    case (finish c i report res r)
    then have "same_admission r (rtm s)" by (auto simp: call_finish_def same_admission_def)
    then show ?thesis using finish outside [of c Outside] by (simp add: set_caller_def)
  next
    case (start_call cfg snap res r)
    then show ?thesis using start_queue_ok assms(2) by simp
  next
    case (start_return report secs res r)
    then have "same_admission r (rtm s)" using start_end_state by (fastforce simp: same_admission_def)
    then show ?thesis using start_return frame by simp
  next
    case (stop_call res r)
    then have "same_admission r (rtm s)" by (auto simp: stop_begin_def same_admission_def split: if_splits)
    then show ?thesis using stop_call frame by simp
  next
    case shut_down
    then show ?thesis using frame by (simp add: request_shutdown_def same_admission_def)
  next
    case (wake go r)
    then have "same_admission (if go then run_reset r else r) (rtm s)"
      by (auto simp: thread_wake_def run_reset_def same_admission_def split: if_splits)
    then show ?thesis using wake frame by simp
  next
    case start_fails
    then show ?thesis using frame by (simp add: thread_park_def run_refused_def Let_def same_admission_def)
  next
    case (start_succeeds now interval)
    then show ?thesis using frame by (simp add: run_accepted_def Let_def same_admission_def)
  next
    case (dispatch i r rep secs)
    then have "same_admission r (rtm s)" by (auto simp: dispatch_front_Some same_admission_def)
    then show ?thesis
      using dispatch frame same_admission_trans [OF reply_admission, of r "rtm s" parse secs rep i] by simp
  next
    case (advance now secs rep)
    then show ?thesis using frame advanceSync_admission [of parse now secs rep "rtm s"] by simp
  next
    case (beat now snap rep secs)
    have "same_admission (rtm t) (rtm s)"
      using issueKeepAlive_admission [of parse secs snap rep "rtm s"] beat by (simp add: same_admission_def)
    then show ?thesis using beat frame by simp
  next
    case (callback i status res secs)
    then show ?thesis using frame trampoline_admission [of parse secs status res i "rtm s"] by simp
  next
    case leave_pump
    then show ?thesis using frame by (simp add: teardown_begin_def same_admission_def)
  next
    case free
    then show ?thesis using frame by (simp add: teardown_free_def failAllPending_def Let_def same_admission_def)
  next
    case all_done
    then show ?thesis using frame by (simp add: thread_park_def teardown_done_def same_admission_def)
  qed
qed

interpretation tickets: run_invariant sys_init "sys_step parse dump"
    "\<lambda>s. ceiling (rtm s) \<and> queue_ok (callers s) (rtm s)" for parse dump
proof
  fix s assume i: "sys_init s"
  have "\<not> waits (callers s) c w" for c w
  proof
    assume "waits (callers s) c w"
    then have "c < length (callers s)" "callers s ! c \<noteq> Outside" by (auto simp: waits_def)
    then show False using i nth_mem [of c "callers s"] by (auto simp: sys_init_def)
  qed
  moreover have "m_admissionQueue (rtm s) = []" using i by (auto simp: sys_init_def new_runtime_def)
  ultimately show "ceiling (rtm s) \<and> queue_ok (callers s) (rtm s)"
    using reservations.inv_init [OF i] by (simp add: queue_ok_def ceiling_def)
next
  show "ceiling (rtm s) \<and> queue_ok (callers s) (rtm s) \<Longrightarrow> sys_step parse dump s e t \<Longrightarrow>
      ceiling (rtm t) \<and> queue_ok (callers t) (rtm t)" for s e t
    using step_ceiling step_queue_ok ceiling_nonneg by blast
qed

end
