(* ===== verification/Runtime_Trace.thy ===== *)
theory Runtime_Trace
  imports Runtime_Queue
begin

text \<open>
  The step relation as a function on an event, for the events a run is made of, and the runs the
  examples use: a start with its first sync, a call that reaches the library, a teardown.
\<close>

section \<open>Executing events\<close>

text \<open>Clocks of an event that names none are 0 and the library reports no sync interval.\<close>

fun sys_exec :: "(string \<Rightarrow> string + json) \<Rightarrow> (json \<Rightarrow> string) \<Rightarrow> event \<Rightarrow> sys \<Rightarrow> sys option" where
  "sys_exec parse dump (Check c method params) s =
     (if c < length (callers s) \<and> callers s ! c = Outside \<and> call_precheck params (rtm s) = None
      then Some (set_caller c (Checked method (dump params)) s) else None)"
| "sys_exec parse dump (Enter c snap now) s =
     (if c < length (callers s) then
        (case callers s ! c of Checked method params \<Rightarrow>
           (case admission_enter snap now (rtm s) of (out, r) \<Rightarrow>
              Some (set_caller c (after_admission out method params) (s\<lparr>rtm := r\<rparr>)))
         | _ \<Rightarrow> None) else None)"
| "sys_exec parse dump (Poll c snap now) s =
     (if c < length (callers s) then
        (case callers s ! c of InQueue w method params \<Rightarrow>
           (case admission_poll snap now w (rtm s) of (out, r) \<Rightarrow>
              Some (set_caller c (after_admission out method params) (s\<lparr>rtm := r\<rparr>)))
         | _ \<Rightarrow> None) else None)"
| "sys_exec parse dump (Enqueue c) s =
     (if c < length (callers s) then
        (case callers s ! c of Holding method params \<Rightarrow>
           (case call_enqueue method params (rtm s) of (out, r) \<Rightarrow>
              Some (set_caller c (case out of Inl _ \<Rightarrow> Outside | Inr i \<Rightarrow> OnSlot i) (s\<lparr>rtm := r\<rparr>)))
         | _ \<Rightarrow> None) else None)"
| "sys_exec parse dump (Finish c) s =
     (if c < length (callers s) then
        (case callers s ! c of OnSlot i \<Rightarrow>
           Some (set_caller c Outside (s\<lparr>rtm := snd (call_finish parse (\<lambda>what q. what) i (rtm s))\<rparr>))
         | _ \<Rightarrow> None) else None)"
| "sys_exec parse dump (StartCall snap cfg) s =
     (if 0 < sint (maxInFlight cfg) then Some (s\<lparr>rtm := snd (start_begin dump snap cfg (rtm s))\<rparr>) else None)"
| "sys_exec parse dump (StartReturn secs) s =
     Some (s\<lparr>rtm := snd (start_end (\<lambda>what q. what) secs (rtm s))\<rparr>)"
| "sys_exec parse dump StopCall s = Some (s\<lparr>rtm := snd (stop_begin (rtm s))\<rparr>)"
| "sys_exec parse dump Shutdown s = Some (s\<lparr>rtm := request_shutdown (rtm s)\<rparr>)"
| "sys_exec parse dump Wake s =
     (if pc s = Parked \<and> thread_wakes (rtm s) then
        (case thread_wake (rtm s) of (go, r) \<Rightarrow>
           Some (s\<lparr>rtm := (if go then run_reset r else r), pc := (if go then Prologue else Exited)\<rparr>))
      else None)"
| "sys_exec parse dump StartFails s =
     (if pc s = Prologue then Some (s\<lparr>rtm := thread_park (run_refused (rtm s)), pc := Parked\<rparr>) else None)"
| "sys_exec parse dump (StartSucceeds now interval) s =
     (if pc s = Prologue then Some (s\<lparr>rtm := run_accepted parse now interval (rtm s), pc := Pump\<rparr>) else None)"
| "sys_exec parse dump (Dispatch rep) s =
     (if pc s = Pump then
        map_option (\<lambda>(i, r). s\<lparr>rtm := library_reply parse 0 rep i r\<rparr>) (dispatch_front (rtm s))
      else None)"
| "sys_exec parse dump (Advance now secs rep) s =
     (if pc s = Pump \<and> \<not> stopping (rtm s) then Some (s\<lparr>rtm := advanceSync parse now secs rep (rtm s)\<rparr>) else None)"
| "sys_exec parse dump (Beat snap now rep) s =
     (if pc s = Pump \<and> beat_due now (rtm s) then
        Some (s\<lparr>rtm := (issueKeepAlive parse 0 snap rep (rtm s))
                  \<lparr>nextKeepAlive := now + sint (keepAliveIntervalMs (m_cfg (rtm s)))\<rparr>\<rparr>)
      else None)"
| "sys_exec parse dump (Callback i status res secs) s =
     (if (pc s = Pump \<or> pc s = Drain) \<and> i \<in> set (m_boxes (rtm s))
      then Some (s\<lparr>rtm := callbackTrampoline parse secs status res i (rtm s)\<rparr>) else None)"
| "sys_exec parse dump LeavePump s =
     (if pc s = Pump then Some (s\<lparr>rtm := teardown_begin (rtm s), pc := Drain\<rparr>) else None)"
| "sys_exec parse dump Free s =
     (if pc s = Drain then Some (s\<lparr>rtm := teardown_free (rtm s), pc := Freed\<rparr>) else None)"
| "sys_exec parse dump Done s =
     (if pc s = Freed then Some (s\<lparr>rtm := thread_park (teardown_done (rtm s)), pc := Parked\<rparr>) else None)"

lemma sys_exec_step: "sys_exec parse dump e s = Some t \<Longrightarrow> sys_step parse dump s e t"
proof (cases e)
  case (Finish c)
  assume "sys_exec parse dump e s = Some t"
  then show ?thesis
    using Finish by (auto split: if_splits caller.splits intro!: finish [OF _ _ prod.collapse [symmetric]])
next
  case (StartReturn secs)
  assume "sys_exec parse dump e s = Some t"
  then show ?thesis using StartReturn by (auto intro!: start_return [OF prod.collapse [symmetric]])
next
  case (Dispatch rep)
  assume "sys_exec parse dump e s = Some t"
  then show ?thesis using Dispatch by (auto split: if_splits intro: dispatch)
next
  case Wake
  assume "sys_exec parse dump e s = Some t"
  then show ?thesis using Wake wake [of s] by (cases "thread_wake (rtm s)") (auto split: if_splits)
qed (auto split: if_splits caller.splits prod.splits intro: sys_step.intros prod.collapse [symmetric])

fun run_events :: "(string \<Rightarrow> string + json) \<Rightarrow> (json \<Rightarrow> string) \<Rightarrow> event list \<Rightarrow> sys \<Rightarrow> sys option" where
  "run_events parse dump [] s = Some s"
| "run_events parse dump (e # es) s =
     (case sys_exec parse dump e s of None \<Rightarrow> None | Some t \<Rightarrow> run_events parse dump es t)"

lemma run_events_reach:
  "run_events parse dump es s = Some t \<Longrightarrow> reach sys_init (sys_step parse dump) s \<Longrightarrow>
   reach sys_init (sys_step parse dump) t"
proof (induction es arbitrary: s)
  case (Cons e es)
  then show ?case by (auto split: option.splits dest!: sys_exec_step intro: reach_step)
qed simp

section \<open>Example runs\<close>

text \<open>A host with room for descriptors and one with none, a parser that refuses and a printer.\<close>

definition roomy :: DescriptorSnapshot where
  "roomy = \<lparr>softLimit = 4096, openCount = 16\<rparr>"

definition crowded :: DescriptorSnapshot where
  "crowded = \<lparr>softLimit = 4096, openCount = 4090\<rparr>"

definition no_parse :: "string \<Rightarrow> string + json" where
  "no_parse t = Inl []"

definition no_dump :: "json \<Rightarrow> string" where
  "no_dump j = []"

definition fresh :: "nat \<Rightarrow> sys" where
  "fresh n = \<lparr>rtm = new_runtime False, callers = replicate n Outside, pc = Parked\<rparr>"

definition run_of :: "nat \<Rightarrow> event list \<Rightarrow> sys" where
  "run_of n es = the (run_events no_parse no_dump es (fresh n))"

definition first_sync :: "event list" where
  "first_sync = [StartCall roomy default_config, Wake, StartSucceeds 0 None,
     Advance 0 0 (Some (RET_SUCCESS, [])), Advance 0 0 None]"

definition one_call :: "nat \<Rightarrow> event list" where
  "one_call c = [Check c ''eth_blockNumber'' (JArr []), Enter c roomy 0, Enqueue c]"

lemma run_of_reach:
  "run_events no_parse no_dump es (fresh n) \<noteq> None \<Longrightarrow>
   reach sys_init (sys_step no_parse no_dump) (run_of n es)"
proof -
  assume "run_events no_parse no_dump es (fresh n) \<noteq> None"
  moreover have "sys_init (fresh n)" by (auto simp: fresh_def sys_init_def)
  ultimately show ?thesis
    by (auto simp: run_of_def intro: run_events_reach [OF _ reach_init])
qed

text \<open>A view of the end of a run, evaluated once: it also shows that every event of the run could happen.\<close>

lemma run_view:
  assumes "map_option f (run_events no_parse no_dump es (fresh n)) = Some v"
  shows "f (run_of n es) = v" "reach sys_init (sys_step no_parse no_dump) (run_of n es)"
proof -
  show "f (run_of n es) = v" using assms by (auto simp: run_of_def)
  show "reach sys_init (sys_step no_parse no_dump) (run_of n es)"
    using assms by (intro run_of_reach) auto
qed

end
