(* ===== verification/Runtime_Properties.thy ===== *)
theory Runtime_Properties
  imports Runtime_Trace
begin

text \<open>
  What holds of the runtime in every state it can reach, read off the invariants: the accounting of
  the calls in the library, the callers that are never lost, the health of the run, the admission
  queue and the reservations. Each comes with a concrete run it speaks about.
\<close>

section \<open>Calls in flight\<close>


definition busy_run :: "event list" where
  "busy_run = first_sync @ one_call 0 @ [Dispatch None, Advance 100000 0 None] @ one_call 1"

definition busy_view :: "sys \<Rightarrow> int \<times> nat \<times> caller list \<times> bool" where
  "busy_view s = (m_inFlight (rtm s), length (m_queue (rtm s)), callers s, slot_done (m_slots (rtm s) 4))"

lemma busy_run_view:
  "map_option busy_view (run_events no_parse no_dump busy_run (fresh 2)) = Some (2, 1, [OnSlot 2, OnSlot 4], False)"
  by code_simp

lemmas busy_run_facts = run_view [OF busy_run_view, unfolded busy_view_def prod.inject]


section \<open>Callers\<close>

text \<open>
  C2: No caller is lost. A caller that waits on its slot is the only one on it, and the slot is
  finished, or it is still queued or held by the library and also listed in the pending list, where
  the teardown finds it.
\<close>

theorem no_caller_lost:
  assumes "reach sys_init (sys_step parse dump) s" "c < length (callers s)" "callers s ! c = OnSlot i"
  shows "(slot_done (m_slots (rtm s) i)
      \<or> i \<in> set (m_pending (rtm s)) \<and> (i \<in> set (m_queue (rtm s)) \<or> i \<in> set (m_boxes (rtm s))))
    \<and> slot_kind (m_slots (rtm s) i) = User
    \<and> (\<forall>d < length (callers s). callers s ! d = OnSlot i \<longrightarrow> d = c)"
proof -
  have "sys_ok s" by (rule runtime.reach_inv [OF assms(1)])
  then have ok: "callers_ok (callers s) (rtm s)" by (simp add: sys_ok_def calls_ok_def good_def)
  then have "served (rtm s) i" using assms(2,3) by (simp add: callers_ok_def)
  moreover have "\<forall>d < length (callers s). callers s ! d = OnSlot i \<longrightarrow> d = c"
    using ok assms(2,3) unfolding callers_ok_def by blast
  ultimately show ?thesis by (auto simp: served_def)
qed

theorem no_caller_lost_witness:
  "callers (run_of 2 busy_run) ! 1 = OnSlot 4 \<and> \<not> slot_done (m_slots (rtm (run_of 2 busy_run)) 4)
   \<and> 4 \<in> set (m_pending (rtm (run_of 2 busy_run)))"
  using no_caller_lost [OF busy_run_facts(2), of 1 4] busy_run_facts(1) by simp

text \<open>
  C3: The teardown leaves nobody waiting. Once it has freed the context every caller on a slot
  finds it finished: with the library's answer when that came first, and otherwise with the error
  \<^verbatim>\<open>proxy shutting down\<close>. The queue, the boxes and the reservations are empty then.
\<close>

theorem teardown_releases_callers:
  assumes "reach sys_init (sys_step parse dump) s" "sys_step parse dump s Free t"
    "c < length (callers t)" "callers t ! c = OnSlot i"
  shows "slot_done (m_slots (rtm t) i)
    \<and> (if slot_done (m_slots (rtm s) i) then m_slots (rtm t) i = m_slots (rtm s) i
       else slot_status (m_slots (rtm t) i) = RET_ERROR
         \<and> slot_result (m_slots (rtm t) i) = ''proxy shutting down'')
    \<and> m_queue (rtm t) = [] \<and> m_boxes (rtm t) = [] \<and> m_inFlight (rtm t) = 0 \<and> m_admitted (rtm t) = 0"
proof -
  have "sys_ok s" by (rule runtime.reach_inv [OF assms(1)])
  then have ok: "callers_ok (callers s) (rtm s)" by (simp add: sys_ok_def calls_ok_def good_def)
  have t: "t = s\<lparr>rtm := teardown_free (rtm s), pc := Freed\<rparr>"
    using assms(2) by (simp add: sys_step_free)
  have s: "served (rtm s) i" using ok assms(3,4) by (simp add: callers_ok_def t)
  define r where "r = (rtm s)\<lparr>m_pending := [], m_queue := []\<rparr>"
  have slots: "m_slots (rtm t) i =
      (if i \<in> set (m_pending (rtm s)) \<and> owned r i then finish_slot RET_ERROR ''proxy shutting down'' (m_slots (rtm s) i)
       else m_slots (rtm s) i)"
    by (simp add: t teardown_free_def failAllPending_def Let_def fail_each_slots r_def)
  have "owned r i" using s by (simp add: served_def owned_def r_def)
  then show ?thesis
    using s slots by (auto simp: t served_def finish_slot_def teardown_free_def failAllPending_def Let_def)
qed

definition cut_run :: "event list" where
  "cut_run = first_sync @ one_call 0 @ [LeavePump]"

definition cut_view :: "sys \<Rightarrow> caller list \<times> bool \<times> thread_pc" where
  "cut_view s = (callers s, slot_done (m_slots (rtm s) 2), pc s)"

lemma cut_run_view:
  "map_option cut_view (run_events no_parse no_dump cut_run (fresh 1)) = Some ([OnSlot 2], False, Drain)"
  by code_simp

lemmas cut_run_facts = run_view [OF cut_run_view, unfolded cut_view_def prod.inject]

theorem teardown_releases_callers_witness:
  "slot_result (m_slots (teardown_free (rtm (run_of 1 cut_run))) 2) = ''proxy shutting down''"
proof -
  have step: "sys_step no_parse no_dump (run_of 1 cut_run) Free
      ((run_of 1 cut_run)\<lparr>rtm := teardown_free (rtm (run_of 1 cut_run)), pc := Freed\<rparr>)"
    using cut_run_facts(1) by (intro free) simp
  then show ?thesis
    using teardown_releases_callers [OF cut_run_facts(2) step, of 0 2] cut_run_facts(1) by simp
qed

section \<open>Health\<close>

text \<open>
  C11: A proxy that takes calls is Running or Degraded, only while its thread is in the pump loop
  with a context, and it is Degraded exactly when three heartbeats or three sync cycles in a row
  have failed. Before the first good sync no heartbeat is out and none has failed.
\<close>

theorem health_follows_streaks:
  assumes "reach sys_init (sys_step parse dump) s"
  shows "(m_state (rtm s) = Running \<or> m_state (rtm s) = Degraded \<longrightarrow>
       pc s = Pump \<and> m_ctx (rtm s)
       \<and> (m_state (rtm s) = Degraded \<longleftrightarrow> 3 \<le> m_heartbeatStreak (rtm s) \<or> 3 \<le> m_syncStreak (rtm s)))
    \<and> (pc s = Pump \<and> \<not> m_startReleased (rtm s) \<longrightarrow>
       \<not> m_heartbeatInFlight (rtm s) \<and> m_heartbeatStreak (rtm s) = 0)"
proof -
  have "sys_ok s" by (rule runtime.reach_inv [OF assms])
  then have "run_ok (pc s) (rtm s)" by (simp add: sys_ok_def)
  then show ?thesis
    by (cases "pc s = Pump")
      (auto simp: run_ok_def live_def health_def before_sync_def in_library_def kDegradeAfter_def)
qed

definition synced_view :: "sys \<Rightarrow> State" where
  "synced_view s = m_state (rtm s)"

lemma synced_run_view: "map_option synced_view (run_events no_parse no_dump first_sync (fresh 1)) = Some Running"
  by code_simp

lemmas synced_run_facts = run_view [OF synced_run_view, unfolded synced_view_def]

theorem health_follows_streaks_witness:
  "m_state (rtm (run_of 1 first_sync)) = Running \<and> m_ctx (rtm (run_of 1 first_sync))
   \<and> m_heartbeatStreak (rtm (run_of 1 first_sync)) < 3 \<and> m_syncStreak (rtm (run_of 1 first_sync)) < 3"
  using health_follows_streaks [OF synced_run_facts(2)] synced_run_facts(1) by simp

section \<open>Admission\<close>


definition admitted_view :: "sys \<Rightarrow> nat \<times> bool \<times> nat \<times> nat" where
  "admitted_view s = (m_admissionEpoch (rtm s), m_runActive (rtm s),
     length (filter is_holding (callers s)) + length (m_queue (rtm s)), length (boxes_of {User, Heartbeat} (rtm s)))"

lemma admitted_run_view:
  "map_option admitted_view (run_events no_parse no_dump busy_run (fresh 2)) = Some (1, True, 1, 1)"
  by code_simp


text \<open>
  C6: The admission queue holds exactly the tickets of the callers that wait in the current
  epoch, in the order they came: no ticket of a caller that left stays to block the ones behind
  it, and no two callers share one. The counter of queued calls is the length of the queue.
\<close>

theorem queue_is_its_waiters:
  assumes "reach sys_init (sys_step parse dump) s"
  shows "set (m_admissionQueue (rtm s)) =
      {w_ticket w | c w. waits (callers s) c w \<and> w_epoch w = m_admissionEpoch (rtm s)}
    \<and> sorted_wrt (<) (m_admissionQueue (rtm s))
    \<and> m_queuedNow (rtm s) = int (length (m_admissionQueue (rtm s)))
    \<and> (\<forall>c d w v. waits (callers s) c w \<and> waits (callers s) d v \<and> w_ticket w = w_ticket v \<longrightarrow> c = d)"
proof -
  have q: "queue_ok (callers s) (rtm s)" using tickets.reach_inv [OF assms] by blast
  have "set (m_admissionQueue (rtm s)) =
      {w_ticket w | c w. waits (callers s) c w \<and> w_epoch w = m_admissionEpoch (rtm s)}"
    using queue_okD(2,5) [OF q] by blast
  moreover have "\<forall>c d w v. waits (callers s) c w \<and> waits (callers s) d v \<and> w_ticket w = w_ticket v \<longrightarrow> c = d"
    using queue_okD(6) [OF q] by blast
  ultimately show ?thesis using queue_okD(1) [OF q] by (simp add: admission_ok_def)
qed

definition waiting_run :: "event list" where
  "waiting_run = first_sync @ [Check 0 ''a'' (JArr []), Check 1 ''b'' (JArr []), Enter 1 crowded 0, Enter 0 crowded 0]"

definition waiting_view :: "sys \<Rightarrow> nat list" where
  "waiting_view s = m_admissionQueue (rtm s)"

lemma waiting_run_view:
  "map_option waiting_view (run_events no_parse no_dump waiting_run (fresh 2)) = Some [1, 2]"
  by code_simp

theorem queue_is_its_waiters_witness:
  "m_queuedNow (rtm (run_of 2 waiting_run)) = 2 \<and> m_admissionQueue (rtm (run_of 2 waiting_run)) = [1, 2]
   \<and> (\<exists>c w. waits (callers (run_of 2 waiting_run)) c w \<and> w_ticket w = 2)"
proof -
  have q: "m_admissionQueue (rtm (run_of 2 waiting_run)) = [1, 2]"
    using run_view(1) [OF waiting_run_view] by (simp add: waiting_view_def)
  note all = queue_is_its_waiters [OF run_view(2) [OF waiting_run_view], unfolded q]
  have "2 \<in> set [1, 2 :: nat]" by simp
  with all show ?thesis using q by auto
qed

section \<open>Two races\<close>

definition next_run :: "event list" where
  "next_run = first_sync @ [Check 0 ''eth_blockNumber'' (JArr []), Enter 0 roomy 0, LeavePump, Free, Done,
     StartCall roomy default_config, Wake, StartSucceeds 0 None, Enqueue 0, Dispatch None]"

definition next_view :: "sys \<Rightarrow> nat \<times> int \<times> nat list" where
  "next_view s = (m_admissionEpoch (rtm s), m_admitted (rtm s), m_boxes (rtm s))"

lemma next_run_view:
  "map_option next_view (run_events no_parse no_dump next_run (fresh 1)) = Some (2, 0, [2])"
  by code_simp

text \<open>
  The admission epoch is checked while a caller waits and not when it queues its command, so
  a caller that was admitted in one run can cross into the next: there is a reachable state of the
  second run with a call in the library and no reservation, although the comment at the start says
  that the fresh epoch prevents it.
\<close>

theorem admitted_caller_crosses_runs:
  "\<exists>s. reach sys_init (sys_step no_parse no_dump) s \<and> m_admissionEpoch (rtm s) = 2 \<and> m_runActive (rtm s)
     \<and> m_boxes (rtm s) \<noteq> [] \<and> m_admitted (rtm s) = 0"
proof -
  have r: "reach sys_init (sys_step no_parse no_dump) (run_of 1 next_run)" by (rule run_view(2) [OF next_run_view])
  have v: "m_admissionEpoch (rtm (run_of 1 next_run)) = 2" "m_boxes (rtm (run_of 1 next_run)) = [2]"
      "m_admitted (rtm (run_of 1 next_run)) = 0"
    using run_view(1) [OF next_run_view] by (simp_all add: next_view_def)
  have "sys_ok (run_of 1 next_run)" by (rule runtime.reach_inv [OF r])
  then have "m_runActive (rtm (run_of 1 next_run))"
    using v(2) by (auto simp: sys_ok_def run_ok_def calls_ok_def good_def boxes_ok_def split: if_splits)
  then show ?thesis using r v by auto
qed

definition race_run :: "event list" where
  "race_run = first_sync @ [LeavePump, Free, StartCall roomy default_config, Done]"

definition race_view :: "sys \<Rightarrow> bool \<times> State \<times> StdLogosResult option" where
  "race_view s = (m_runRequested (rtm s), m_state (rtm s), fst (stop_begin (rtm s)))"

lemma race_run_view:
  "map_option race_view (run_events no_parse no_dump race_run (fresh 0)) =
     Some (True, Stopped, Some (fail_result ''proxy is not running''))"
  by code_simp

text \<open>
  C36: A start that comes after the teardown has released the run and before it reports its end is
  accepted, and the teardown then marks the new run as finished and the proxy as Stopped: a run is
  requested, and yet a stop is refused because the proxy is not running.
\<close>

theorem start_during_teardown_lost:
  "\<exists>s. reach sys_init (sys_step no_parse no_dump) s \<and> m_runRequested (rtm s) \<and> m_runFinished (rtm s)
     \<and> m_state (rtm s) = Stopped \<and> stop_begin (rtm s) = (Some (fail_result ''proxy is not running''), rtm s)"
proof -
  have v: "m_runRequested (rtm (run_of 0 race_run))" "m_state (rtm (run_of 0 race_run)) = Stopped"
      "fst (stop_begin (rtm (run_of 0 race_run))) = Some (fail_result ''proxy is not running'')"
    using run_view(1) [OF race_run_view] by (simp_all add: race_view_def)
  moreover have "m_thread (rtm (run_of 0 race_run))" "m_runFinished (rtm (run_of 0 race_run))"
    by code_simp+
  ultimately show ?thesis
    using run_view(2) [OF race_run_view] by (intro exI [of _ "run_of 0 race_run"]) (auto simp: stop_begin_def split: if_splits)
qed

end
