(* ===== verification/Runtime_Operations.thy ===== *)
theory Runtime_Operations
  imports Runtime_Trace
begin

text \<open>
  The behaviour of single operations of the runtime on every state: what a start decides, the order
  in which commands enter the library, the pending list, the pump's histogram, the end of a call
  and of a run.
\<close>

section \<open>Starting\<close>

text \<open>
  A start that is let through on a host whose budget is known fixes a ceiling of at least one
  call and at most the configured one, such that that many calls at the estimated cost fit under
  the soft limit together with the descriptors already open and the reserve. The estimate is at
  least four and covers every parallel block download.
\<close>

theorem start_within_budget:
  assumes run: "start_begin dump snap cfg r = (None, r')"
    and snap: "0 \<le> sint (softLimit snap)" "0 \<le> sint (openCount snap)" "sint (openCount snap) < 2 ^ 62"
    and cfg: "0 < sint (maxInFlight cfg)" "0 \<le> sint (parallelBlockDownloads cfg)"
      "sint (parallelBlockDownloads cfg) < 2 ^ 62"
    and n: "n = sint (m_effectiveMaxInFlight r')" and p: "p = sint (m_descriptorsPerCall r')"
  shows "0 < n \<and> n \<le> sint (maxInFlight cfg) \<and> p = max 4 (sint (parallelBlockDownloads cfg) + 2)
    \<and> n * p + sint (openCount snap) + sint (descriptorReserve (softLimit snap)) \<le> sint (softLimit snap)
    \<and> m_state r' = Starting \<and> m_runRequested r' \<and> m_admitted r' = 0 \<and> m_admissionQueue r' = []"
  using run
proof (cases rule: start_begin_cases)
  case (requested capacity)
  have fan: "sint (i64_max 4 (fan_out_estimate cfg)) = max 4 (sint (parallelBlockDownloads cfg) + 2)"
    using cfg(2,3) by (simp add: fan_out_estimate_def fits_i64_def sint_add_i64)
  have c: "sint capacity = max 0 ((sint (softLimit snap) - sint (openCount snap)
      - sint (descriptorReserve (softLimit snap))) sdiv sint (i64_max 4 (fan_out_estimate cfg)))"
    unfolding requested(3) using snap by (intro capacity_exact) simp_all
  moreover have "sint capacity \<noteq> 0" using requested(4) signed_eq_0_iff by blast
  ultimately have "0 < sint capacity" by simp
  moreover have "sint (m_effectiveMaxInFlight r') = min (sint (maxInFlight cfg)) (sint capacity)"
      "m_descriptorsPerCall r' = i64_max 4 (fan_out_estimate cfg)"
      "m_state r' = Starting \<and> m_runRequested r' \<and> m_admitted r' = 0 \<and> m_admissionQueue r' = []"
    using \<open>0 < sint capacity\<close> by (simp_all add: requested(5) start_reset_def)
  moreover have "sint capacity * sint (i64_max 4 (fan_out_estimate cfg)) \<le> sint (softLimit snap)
      - sint (openCount snap) - sint (descriptorReserve (softLimit snap))"
    using capacity_nat_bounds [of "sint (i64_max 4 (fan_out_estimate cfg))"] c calculation(1) by simp
  moreover have "min (sint (maxInFlight cfg)) (sint capacity) * p \<le> sint capacity * p"
    using fan calculation(3) p by (intro mult_right_mono) simp_all
  ultimately show ?thesis using fan cfg(1) n p by auto
qed simp_all

theorem start_within_budget_witness:
  "\<exists>r'. start_begin no_dump roomy default_config (new_runtime False) = (None, r')
     \<and> sint (m_effectiveMaxInFlight r') = 64 \<and> 64 * 12 + 16 + 128 \<le> (4096 :: int)"
proof -
  have v: "(case start_begin no_dump roomy default_config (new_runtime False) of
      (out, r') \<Rightarrow> (out, m_effectiveMaxInFlight r', m_descriptorsPerCall r')) = (None, 64, 12)"
    by code_simp
  then obtain r' where run: "start_begin no_dump roomy default_config (new_runtime False) = (None, r')"
      and eff: "m_effectiveMaxInFlight r' = 64" "m_descriptorsPerCall r' = 12"
    by (auto split: prod.splits)
  have "0 < sint (maxInFlight default_config)" "0 \<le> sint (parallelBlockDownloads default_config)"
      "sint (parallelBlockDownloads default_config) < 2 ^ 62"
    by (simp_all add: default_config_def)
  from start_within_budget [OF run _ _ _ this refl refl] show ?thesis
    using run eff by (simp add: roomy_def sint_reserve)
qed

text \<open>
  A start that is refused never asks the thread to run. While a run is active it changes
  nothing; without room for a single call it leaves the runtime Failed, with the error it returns.
\<close>

theorem start_refusals:
  assumes "start_begin dump snap cfg r = (Some e, r')"
  shows "\<not> success e \<and> m_runRequested r' = m_runRequested r \<and> m_runFinished r' = m_runFinished r
    \<and> (if m_runActive r then r' = r \<and> result_error e = ''proxy already started''
       else m_state r' = Failed \<and> m_lastError r' = result_error e \<and> \<not> m_runActive r')"
  using assms
proof (cases rule: start_begin_cases)
  case refused
  have "m_runRequested r' = m_runRequested r" "m_runFinished r' = m_runFinished r" "m_runActive r' = m_runActive r"
    by (simp_all add: refused(4) start_reset_def setState_def emit_def Let_def)
  moreover have "m_state r' = Failed" by (simp add: refused(4))
  moreover have "m_lastError r' = no_descriptors_error snap" by (simp add: refused(4) no_descriptors_error_def)
  ultimately show ?thesis using refused(1,2) by (simp add: fail_result_def)
qed (auto simp: fail_result_def)

theorem start_refusals_witness:
  "\<exists>e r'. start_begin no_dump crowded default_config (new_runtime False) = (Some e, r') \<and> m_state r' = Failed"
proof -
  have "descriptorOperationCapacity crowded (i64_max 4 (fan_out_estimate default_config)) = 0" by code_simp
  then obtain e r' where run: "start_begin no_dump crowded default_config (new_runtime False) = (Some e, r')"
    by (simp add: start_begin_def Let_def new_runtime_def)
  then show ?thesis using start_refusals [OF run] by (auto simp: new_runtime_def)
qed

section \<open>Commands and the pending list\<close>

text \<open>The callback within an entry into the library takes the box it was given back.\<close>

lemma reply_calls:
  "m_boxes (library_reply parse secs reply i r) = (if reply = None then m_boxes r else remove1 i (m_boxes r))"
  "m_slots (library_reply parse secs reply i r) =
     (case reply of None \<Rightarrow> m_slots r | Some (status, res) \<Rightarrow> (m_slots r)(i := finish_slot status res (m_slots r i)))"
  by (simp_all add: library_reply_def split: option.split)

lemma remove1_snoc: "i \<notin> set xs \<Longrightarrow> remove1 i (xs @ [i]) = xs"
  by (simp add: remove1_append)

text \<open>
  C19: The proxy thread hands every queued command to the library, once each and in the order they
  were queued, before it does anything else. Those the library answers at once are finished with
  its answer; the boxes of the others stay with the library, behind those it already held.
\<close>

theorem drain_in_order:
  assumes "distinct (m_boxes r @ m_queue r)" "r' = drainCommands parse secs lib r"
  shows "m_queue r' = []
    \<and> m_boxes r' = m_boxes r @ filter (\<lambda>i. lib i = None) (m_queue r)
    \<and> m_callsTotal r' = m_callsTotal r + int (length (m_queue r))
    \<and> (\<forall>i. m_slots r' i = (if i \<in> set (m_queue r)
         then (case lib i of None \<Rightarrow> m_slots r i | Some (status, res) \<Rightarrow> finish_slot status res (m_slots r i))
         else m_slots r i))"
  using assms
proof (induction "length (m_queue r)" arbitrary: r r')
  case 0
  then show ?case by (simp add: drainCommands.simps [of parse secs lib r] dispatch_front_def)
next
  case (Suc n)
  then obtain i js where q: "m_queue r = i # js" by (cases "m_queue r") auto
  define r1 where "r1 = r\<lparr>m_queue := js, m_boxes := m_boxes r @ [i], m_inFlight := m_inFlight r + 1,
    m_callsTotal := m_callsTotal r + 1\<rparr>"
  define r2 where "r2 = library_reply parse secs (lib i) i r1"
  have run: "r' = drainCommands parse secs lib r2"
    using Suc.prems(2) q by (simp add: drainCommands.simps [of parse secs lib r] dispatch_front_def r1_def r2_def)
  have i: "i \<notin> set (m_boxes r)" "i \<notin> set js" using Suc.prems(1) q by auto
  have sel: "m_queue r2 = js" "m_boxes r2 = m_boxes r @ (if lib i = None then [i] else [])"
      "m_callsTotal r2 = m_callsTotal r + 1"
      "m_slots r2 = (case lib i of None \<Rightarrow> m_slots r
         | Some (status, res) \<Rightarrow> (m_slots r)(i := finish_slot status res (m_slots r i)))"
    using i(1) by (simp_all add: r2_def r1_def reply_calls remove1_snoc split: option.split)
  have "n = length (m_queue r2)" "distinct (m_boxes r2 @ m_queue r2)"
    using Suc.hyps(2) Suc.prems(1) q sel(1,2) by auto
  from Suc.hyps(1) [OF this run] show ?case
    using q sel i by (auto split: option.splits)
qed

definition queued_calls :: rt where
  "queued_calls = (new_runtime False)\<lparr>m_queue := [4, 6, 7], m_boxes := [2], m_inFlight := 1\<rparr>"

theorem drain_in_order_witness:
  "m_boxes (drainCommands no_parse 0 (\<lambda>i. if i = 6 then Some (RET_SUCCESS, ''x'') else None) queued_calls) = [2, 4, 7]"
  using drain_in_order [of queued_calls _ no_parse 0 "\<lambda>i. if i = 6 then Some (RET_SUCCESS, ''x'') else None", OF _ refl]
  by (simp add: queued_calls_def)

text \<open>
  Pruning the pending list only drops slots nobody holds any more: the live ones stay, in
  their order. What is left is shorter than the sweep bound or has no dead entry at all, so the
  list cannot grow beyond the bound with slots that are gone.
\<close>

theorem pruning_keeps_live_slots:
  "filter (owned r) (pruned r ps) = filter (owned r) ps
   \<and> length (pruned r ps) \<le> length ps
   \<and> (length (pruned r ps) < kPendingSweepAt \<or> filter (expired r) (pruned r ps) = [])"
proof -
  have d: "filter (owned r) (dropWhile (expired r) ps) = filter (owned r) ps"
    by (induction ps) (auto simp: expired_def)
  show ?thesis
  proof (cases "length (dropWhile (expired r) ps) < kPendingSweepAt")
    case True
    then show ?thesis using d by (simp add: pruned_def Let_def length_dropWhile_le)
  next
    case False
    then have p: "pruned r ps = filter (owned r) (dropWhile (expired r) ps)"
      by (simp add: pruned_def Let_def expired_def)
    have "length (pruned r ps) \<le> length ps"
      unfolding p by (rule le_trans [OF length_filter_le length_dropWhile_le])
    moreover have "filter (expired r) (pruned r ps) = []" unfolding p by (simp add: expired_def filter_empty_conv)
    ultimately show ?thesis using d p by simp
  qed
qed

section \<open>The outcome of a call\<close>

text \<open>
  C20: A caller gets the library's answer to its own call, and only the first one: the callback
  for its slot gives exactly the decoded payload, or the error text when the status is not a
  success. A completion that comes after the slot was finished changes nothing the caller reads,
  and the callback for another slot never does.
\<close>

theorem caller_gets_its_answer:
  assumes "r' = callbackTrampoline parse secs status res i r"
  shows "(\<not> slot_done (m_slots r i) \<longrightarrow>
      fst (call_finish parse report i r') =
        (if status = RET_SUCCESS then ok_result (fst (decodePayload parse res))
         else fail_result (errorMessage parse status res)))
    \<and> (slot_done (m_slots r i) \<longrightarrow> fst (call_finish parse report i r') = fst (call_finish parse report i r))
    \<and> (j \<noteq> i \<longrightarrow> m_slots r' j = m_slots r j)
    \<and> (i \<in> set (m_waiters r) \<longrightarrow> m_waiters (snd (call_finish parse report i r')) = remove1 i (m_waiters r))"
  using assms by (auto simp: call_finish_def slot_outcome_def finish_slot_def)

theorem caller_gets_its_answer_witness:
  "fst (call_finish (\<lambda>t. Inr (JInt 7)) (\<lambda>what q. what) 4
     (callbackTrampoline (\<lambda>t. Inr (JInt 7)) 0 RET_SUCCESS ''7'' 4 queued_calls)) = ok_result (JInt 7)"
  using caller_gets_its_answer [of _ "\<lambda>t. Inr (JInt 7)" 0 RET_SUCCESS "''7''" 4 queued_calls "\<lambda>what q. what", OF refl]
  by (simp add: queued_calls_def new_runtime_def new_slot_def decodePayload_def)

section \<open>The pump's histogram\<close>

definition pump_ok :: "'a rt_pump_scheme \<Rightarrow> bool" where
  "pump_ok r \<longleftrightarrow> length (m_pumpIdle r) = length kEdges + 1 \<and> length (m_pumpBusy r) = length kEdges + 1
     \<and> sum_list (m_pumpIdle r) + sum_list (m_pumpBusy r) = m_pumpCalls r"

lemma pump_bucket_le: "pump_bucket ms \<le> length kEdges"
  by (simp add: pump_bucket_def length_takeWhile_le)

lemma pump_bucket_edges:
  "(\<forall>k < pump_bucket ms. kEdges ! k \<le> ms) \<and> (pump_bucket ms < length kEdges \<longrightarrow> ms < kEdges ! pump_bucket ms)"
proof -
  have "kEdges ! k \<le> ms" if "k < pump_bucket ms" for k
  proof -
    have "takeWhile (\<lambda>e. \<not> ms < e) kEdges ! k \<in> set (takeWhile (\<lambda>e. \<not> ms < e) kEdges)"
      using that by (simp add: pump_bucket_def)
    then have "\<not> ms < takeWhile (\<lambda>e. \<not> ms < e) kEdges ! k" by (blast dest: set_takeWhileD)
    then show ?thesis using that by (simp add: pump_bucket_def takeWhile_nth)
  qed
  then show ?thesis by (auto simp: pump_bucket_def dest: nth_length_takeWhile)
qed

lemma sum_list_bump: "b < length xs \<Longrightarrow> sum_list (bump_at b xs) = sum_list xs + (1 :: int)"
  by (induction xs arbitrary: b) (auto simp: bump_at_def nth_Cons split: nat.split)

text \<open>
  Every pump call is counted once: in the idle or the busy row, in the one bucket its duration
  falls in, the lower edge included and the upper excluded, the last one open. The two rows keep
  their seven buckets and together always add up to the number of pump calls, and the longest call
  is the maximum of all.
\<close>

theorem pump_histogram_counts:
  assumes "pump_ok r"
  shows "pump_ok (recordPump ms busy r) \<and> m_pumpCalls (recordPump ms busy r) = m_pumpCalls r + 1
    \<and> ms \<le> m_pumpMaxMs (recordPump ms busy r) \<and> m_pumpMaxMs r \<le> m_pumpMaxMs (recordPump ms busy r)
    \<and> (\<exists>b \<le> length kEdges. (b = 0 \<or> kEdges ! (b - 1) \<le> ms) \<and> (b = length kEdges \<or> ms < kEdges ! b)
        \<and> (if busy then m_pumpBusy (recordPump ms busy r) = (m_pumpBusy r)[b := m_pumpBusy r ! b + 1]
              \<and> m_pumpIdle (recordPump ms busy r) = m_pumpIdle r
           else m_pumpIdle (recordPump ms busy r) = (m_pumpIdle r)[b := m_pumpIdle r ! b + 1]
              \<and> m_pumpBusy (recordPump ms busy r) = m_pumpBusy r))"
proof -
  let ?b = "pump_bucket ms"
  have b: "?b \<le> length kEdges" by (rule pump_bucket_le)
  have "pump_ok (recordPump ms busy r)"
    using assms b by (auto simp: pump_ok_def recordPump_def Let_def sum_list_bump) (simp_all add: bump_at_def)
  moreover have "?b = 0 \<or> kEdges ! (?b - 1) \<le> ms" "?b = length kEdges \<or> ms < kEdges ! ?b"
    using pump_bucket_edges [of ms] b by (cases ?b, simp_all) (metis le_neq_implies_less pump_bucket_edges)
  ultimately show ?thesis
    using b by (auto simp: recordPump_def Let_def bump_at_def intro!: exI [of _ ?b])
qed

theorem pump_histogram_counts_witness:
  "pump_ok (recordPump 19 True (new_runtime False)) \<and> m_pumpCalls (recordPump 19 True (new_runtime False)) = 1"
proof -
  have "pump_ok (new_runtime False)" "m_pumpCalls (new_runtime False) = 0"
    by (simp_all add: pump_ok_def new_runtime_def kEdges_def sum_list_replicate)
  with pump_histogram_counts [OF this(1), of 19 True] show ?thesis by simp
qed

section \<open>Parameters that cannot be printed\<close>

text \<open>A call that comes back at once, without a wait, and whose parameters cannot be printed.\<close>

definition unprintable_call ::
  "(string \<Rightarrow> string + json) \<Rightarrow> (json \<Rightarrow> exn + string) \<Rightarrow> (string \<Rightarrow> rt \<Rightarrow> string) \<Rightarrow> DescriptorSnapshot \<Rightarrow> int
     \<Rightarrow> string \<Rightarrow> json \<Rightarrow> rt \<Rightarrow> rt" where
  "unprintable_call parse dump report snap now method params r =
     (case call_op parse dump report snap now [] (\<lambda>q. q) (\<lambda>q. q) method params r of
        Some (_, r') \<Rightarrow> r' | None \<Rightarrow> r)"

lemma unprintable_call_leaks:
  assumes "dump params = Inl e" "is_array params" "live r" "\<not> stopping r" "m_admissionQueue r = []"
    and "m_admitted r < sint (m_effectiveMaxInFlight r)" "sint (softLimit snap) < 0"
  shows "unprintable_call parse dump report snap now method params r =
     snd (alloc_slot method [] User (r\<lparr>m_admitted := m_admitted r + 1\<rparr>))"
  using assms
  by (auto simp: unprintable_call_def call_op_def call_precheck_def running_def live_def waitForAdmission_def
      admission_enter_def admissionBlockLocked_def Let_def)

text \<open>
  C21: A call reserves its place before its parameters are printed, and an exception of the
  printer, as text that is not UTF-8 raises, does not give it back. As many such calls as there are
  places leave a proxy that is running, with nothing queued and nothing in the library, at its
  ceiling: the next caller is not admitted, and no call is there whose end could let it in.
\<close>

theorem unprintable_params_starve:
  fixes r :: rt
  assumes "dump params = Inl e" "is_array params" "live r" "\<not> stopping r" "m_admissionQueue r = []"
    and "m_admitted r + int n = sint (m_effectiveMaxInFlight r)" "sint (softLimit snap) < 0"
    and "r' = (unprintable_call parse dump report snap now method params ^^ n) r"
  shows "m_admitted r' = sint (m_effectiveMaxInFlight r) \<and> m_effectiveMaxInFlight r' = m_effectiveMaxInFlight r
    \<and> live r' \<and> m_queue r' = m_queue r \<and> m_boxes r' = m_boxes r \<and> m_waiters r' = m_waiters r
    \<and> fst (admission_enter snap now r') \<noteq> Admitted"
proof -
  let ?f = "unprintable_call parse dump report snap now method params"
  have "live ((?f ^^ k) r) \<and> \<not> stopping ((?f ^^ k) r) \<and> m_admissionQueue ((?f ^^ k) r) = []
      \<and> m_effectiveMaxInFlight ((?f ^^ k) r) = m_effectiveMaxInFlight r
      \<and> m_admitted ((?f ^^ k) r) = m_admitted r + int k \<and> m_queue ((?f ^^ k) r) = m_queue r
      \<and> m_boxes ((?f ^^ k) r) = m_boxes r \<and> m_waiters ((?f ^^ k) r) = m_waiters r" if "k \<le> n" for k
    using that
  proof (induction k)
    case (Suc k)
    then have "?f ((?f ^^ k) r) = snd (alloc_slot method [] User (((?f ^^ k) r)\<lparr>m_admitted := m_admitted ((?f ^^ k) r) + 1\<rparr>))"
      using assms by (intro unprintable_call_leaks) auto
    then show ?case
      using Suc by (simp add: alloc_slot_eq) (simp add: live_def stopping_def)
  qed (use assms in simp)
  from this [of n] show ?thesis
    using assms by (simp add: admission_enter_def admissionBlockLocked_def Let_def)
qed

definition starved_run :: rt where
  "starved_run = (unprintable_call (\<lambda>_. Inl []) (\<lambda>_. Inl TypeError) (\<lambda>what _. what) unknown_snapshot 0 [] (JArr []) ^^ 64)
     ((new_runtime False)\<lparr>m_state := Running\<rparr>)"

theorem unprintable_params_starve_witness:
  "m_admitted starved_run = 64 \<and> live starved_run \<and> m_boxes starved_run = []
     \<and> fst (admission_enter unknown_snapshot 0 starved_run) \<noteq> Admitted"
proof -
  let ?r = "(new_runtime False)\<lparr>m_state := Running\<rparr>"
  have "live ?r" "\<not> stopping ?r" "m_admissionQueue ?r = []" "m_admitted ?r + int 64 = sint (m_effectiveMaxInFlight ?r)"
    "m_effectiveMaxInFlight ?r = 64" "m_boxes ?r = []" "sint (softLimit unknown_snapshot) < 0"
    by (simp_all add: new_runtime_def live_def stopping_def unknown_snapshot_def)
  then show ?thesis
    using unprintable_params_starve [of "\<lambda>_. Inl TypeError" "JArr []" TypeError ?r 64 unknown_snapshot
        starved_run "\<lambda>_. Inl []" "\<lambda>what _. what" 0 "[]"]
    by (simp add: starved_run_def)
qed

section \<open>The end of a run\<close>

text \<open>The caller of \<^verbatim>\<open>start\<close> has been told, whenever the first sync has been decided.\<close>

definition told :: "'a rt_health_scheme \<Rightarrow> bool" where
  "told r \<longleftrightarrow> (m_startReleased r \<longrightarrow> m_startDone r)"

lemma told_same: "m_startReleased q = m_startReleased r \<Longrightarrow> m_startDone q = m_startDone r \<Longrightarrow> told q = told r"
  by (simp add: told_def)

lemma releaseStart_told: "told r \<Longrightarrow> told (releaseStart ok err r)"
  by (auto simp: told_def releaseStart_def Let_def)

lemma releaseStart_done: "told r \<Longrightarrow> m_startDone (releaseStart ok err r)"
  by (auto simp: told_def releaseStart_def Let_def)

lemma told_cycle: "told r \<Longrightarrow> told (finishSyncCycle secs ok err r)"
  by (auto simp: finishSyncCycle_def Let_def told_def releaseStart_def)

lemma told_fire: "told (fire_callbacks parse secs cbs r) = told r"
  by (induction parse secs cbs r rule: fire_callbacks.induct) (simp_all add: told_def)

lemma told_drain: "told (drainCommands parse secs lib r) = told r"
proof -
  have "m_startReleased (drainCommands parse secs lib r) = m_startReleased r
      \<and> m_startDone (drainCommands parse secs lib r) = m_startDone r"
  proof (induction parse secs lib r rule: drainCommands.induct)
    case (1 parse secs lib r)
    show ?case
    proof (cases "dispatch_front r")
      case (Some x)
      obtain i r1 where x: "x = (i, r1)" by fastforce
      then have "drainCommands parse secs lib r = drainCommands parse secs lib (library_reply parse secs (lib i) i r1)"
        using Some by (simp add: drainCommands.simps [of parse secs lib r])
      moreover have "m_startReleased r1 = m_startReleased r \<and> m_startDone r1 = m_startDone r"
        using Some x by (auto simp: dispatch_front_Some)
      ultimately show ?thesis using 1 [OF Some x [symmetric]] by simp
    qed (simp add: drainCommands.simps [of parse secs lib r])
  qed
  then show ?thesis by (simp add: told_def)
qed

lemma told_issueSync: "told (issueSync parse secs reply kind r) = told r"
  by (simp add: issueSync_def alloc_slot_eq Let_def told_def)

lemma told_keepAlive: "told (issueKeepAlive parse secs snap reply r) = told r"
  by (cases "tryAdmit snap r")
    (auto simp: issueKeepAlive_def alloc_slot_eq Let_def told_def elim!: tryAdmit_cases split: option.split)

lemma told_advance: "told r \<Longrightarrow> told (advanceSync parse now secs reply r)"
  by (auto simp: advanceSync_def told_issueSync told_cycle split: SyncPhase.split) (simp_all add: told_def)

lemma told_turn: "pump_turn parse t r = (b, r') \<Longrightarrow> told r \<Longrightarrow> told r'"
proof -
  assume run: "pump_turn parse t r = (b, r')" and r: "told r"
  define r1 where "r1 = drainCommands parse (t_secs t) (t_calls t) r"
  define r2 where "r2 = advanceSync parse (t_now t) (t_secs t) (t_sync t) r1"
  define r3 where "r3 = keepalive_step parse t r2"
  have t1: "told r1" using r by (simp add: r1_def told_drain)
  then have t2: "told r2" by (simp add: r2_def told_advance)
  then have "told r3"
    using told_keepAlive [of parse "t_secs t" "t_snapshot t" "t_beat t" r2]
    by (auto simp: r3_def keepalive_step_def told_def)
  then have "told (recordPump ms busy (fire_callbacks parse (t_secs t) (t_callbacks t) r3))" for ms busy
    using told_fire [of parse "t_secs t" "t_callbacks t" r3] by (simp add: told_def recordPump_def Let_def)
  then show ?thesis
    using run t1 by (auto simp: pump_turn_def Let_def r1_def r2_def r3_def split: if_splits)
qed

lemma told_loop: "pump_loop parse ts r = (b, r') \<Longrightarrow> told r \<Longrightarrow> told r'"
proof (induction parse ts r rule: pump_loop.induct)
  case (2 parse t ts r)
  then show ?case
    by (cases "pump_turn parse t r") (auto split: if_splits bool.splits dest: told_turn)
qed simp

lemma drain_loop_done: "m_startDone (drain_loop parse secs deadline ts now r) = m_startDone r"
proof -
  have f: "m_startDone (fire_callbacks parse secs cbs r) = m_startDone r" for parse secs cbs and r :: rt
    by (induction parse secs cbs r rule: fire_callbacks.induct) simp_all
  show ?thesis
    by (induction parse secs deadline ts now r rule: drain_loop.induct) (auto simp: f Let_def)
qed

lemma teardown_rest:
  "m_startDone (teardown_done (teardown_free r)) = m_startDone r" "m_runFinished (teardown_done q)"
  "m_state (teardown_done q) = Stopped" "m_runActive (teardown_done (teardown_free r)) = False"
  "m_queue (teardown_done (teardown_free r)) = []" "m_boxes (teardown_done (teardown_free r)) = []"
  "m_ctx (teardown_done (teardown_free r)) = False"
proof -
  have f: "m_startDone (fail_each why ps q) = m_startDone q" for why ps and q :: rt
    by (induction why ps q rule: fail_each.induct) simp_all
  show "m_startDone (teardown_done (teardown_free r)) = m_startDone r"
    by (simp add: teardown_done_def teardown_free_def failAllPending_def f Let_def setState_def emit_def)
qed (simp_all add: teardown_done_def teardown_free_def failAllPending_def Let_def setState_def emit_def)


definition last_turn :: turn where
  "last_turn = \<lparr>t_now = 0, t_secs = 0, t_snapshot = roomy, t_calls = (\<lambda>i. None), t_sync = None, t_beat = None,
     t_callbacks = [], t_rc = RET_CANCELLED, t_ms = 0\<rparr>"

lemma last_turn_leaves: "fst (pump_turn parse last_turn r)"
  by (simp add: pump_turn_def last_turn_def Let_def)


end
