(* ===== verification/Runtime_Ledger.thy ===== *)
theory Runtime_Ledger
  imports Runtime_Trace
begin

text \<open>
  What the runtime promises its callers, as an abstract machine: a ledger that issues call ids one
  after the other and writes the answer of an issued id once. The concurrent runtime refines it:
  every step of any thread is a sequence of ledger steps on the ids and finished slots.
\<close>

section \<open>The ledger\<close>

record ledger =
  issued :: nat
  answers :: "nat \<rightharpoonup> int \<times> string"

inductive ledger_step :: "ledger \<Rightarrow> ledger \<Rightarrow> bool" where
  issue: "ledger_step L (L\<lparr>issued := issued L + 1\<rparr>)"
| written: "i < issued L \<Longrightarrow> answers L i = None \<Longrightarrow> ledger_step L (L\<lparr>answers := (answers L)(i \<mapsto> a)\<rparr>)"

definition ledger_steps :: "ledger \<Rightarrow> ledger \<Rightarrow> bool" where
  "ledger_steps = ledger_step\<^sup>*\<^sup>*"

lemma ledger_steps_refl [simp]: "ledger_steps L L"
  by (simp add: ledger_steps_def)

lemma ledger_steps_one: "ledger_step L M \<Longrightarrow> ledger_steps L M"
  by (simp add: ledger_steps_def)

lemma ledger_steps_trans [trans]: "ledger_steps L M \<Longrightarrow> ledger_steps M N \<Longrightarrow> ledger_steps L N"
  unfolding ledger_steps_def by (rule rtranclp_trans)

lemma ledger_write_once: "ledger_steps L M \<Longrightarrow> answers L \<subseteq>\<^sub>m answers M \<and> issued L \<le> issued M"
  unfolding ledger_steps_def
proof (induction rule: rtranclp_induct)
  case (step M N)
  have "answers M \<subseteq>\<^sub>m answers N \<and> issued M \<le> issued N"
    using step(2) by cases (auto simp: map_le_def)
  then show ?case using step.IH map_le_trans le_trans by blast
qed simp

section \<open>The ledger of a runtime\<close>

definition ledger_of :: "'a rt_calls_scheme \<Rightarrow> ledger" where
  "ledger_of r = \<lparr>issued = m_nextId r, answers = (\<lambda>i.
     if i < m_nextId r \<and> slot_done (m_slots r i) then Some (slot_status (m_slots r i), slot_result (m_slots r i)) else None)\<rparr>"

lemma ledger_same: "m_slots q = m_slots r \<Longrightarrow> m_nextId q = m_nextId r \<Longrightarrow> ledger_of q = ledger_of r"
  by (auto simp: ledger_of_def fun_eq_iff)

lemma ledger_same_steps: "m_slots q = m_slots r \<Longrightarrow> m_nextId q = m_nextId r \<Longrightarrow> ledger_steps (ledger_of r) (ledger_of q)"
  using ledger_same [of q r] by simp

lemma ledger_alloc:
  assumes "m_nextId q = m_nextId r + 1" "m_slots q = (m_slots r)(m_nextId r := sl)" "\<not> slot_done sl"
  shows "ledger_steps (ledger_of r) (ledger_of q)"
proof -
  have "ledger_of q = (ledger_of r)\<lparr>issued := issued (ledger_of r) + 1\<rparr>"
    using assms by (auto simp: ledger_of_def fun_eq_iff less_Suc_eq)
  then show ?thesis using ledger_steps_one [OF issue] by metis
qed

lemma ledger_finish:
  assumes "m_nextId q = m_nextId r" "m_slots q = (m_slots r)(i := finish_slot status res (m_slots r i))" "i < m_nextId r"
  shows "ledger_steps (ledger_of r) (ledger_of q)"
proof (cases "slot_done (m_slots r i)")
  case True
  then have "m_slots q = m_slots r" using assms(2) by (simp add: finish_slot_def)
  then show ?thesis using assms(1) ledger_same [of q r] by simp
next
  case False
  have "ledger_of q = (ledger_of r)\<lparr>answers := (answers (ledger_of r))(i \<mapsto> (status, res))\<rparr>"
    using assms False by (auto simp: ledger_of_def fun_eq_iff finish_slot_def)
  moreover have "i < issued (ledger_of r)" "answers (ledger_of r) i = None"
    using assms(3) False by (simp_all add: ledger_of_def)
  ultimately show ?thesis using ledger_steps_one [OF written] by metis
qed

section \<open>Operations\<close>

lemma trampoline_ledger:
  "i < m_nextId r \<Longrightarrow> ledger_steps (ledger_of r) (ledger_of (callbackTrampoline parse secs status res i r))"
  by (rule ledger_finish) simp_all

lemma reply_ledger: "i < m_nextId r \<Longrightarrow> ledger_steps (ledger_of r) (ledger_of (library_reply parse secs reply i r))"
  by (simp add: library_reply_def trampoline_ledger split: option.split)

lemma issueSync_ledger: "ledger_steps (ledger_of r) (ledger_of (issueSync parse secs reply kind r))"
proof -
  define r1 where "r1 = (prunePendingLocked (snd (alloc_slot (if kind = OpSync then ''nvp_op_sync'' else ''nvp_eth_sync'') [] kind r)))
    \<lparr>m_pending := m_pending (prunePendingLocked (snd (alloc_slot (if kind = OpSync then ''nvp_op_sync'' else ''nvp_eth_sync'') [] kind r)))
        @ [m_nextId r],
     m_syncPhase := (if kind = OpSync then PhaseOp else PhaseEth), m_boxes := m_boxes r @ [m_nextId r], m_inFlight := m_inFlight r + 1\<rparr>"
  have run: "issueSync parse secs reply kind r = library_reply parse secs reply (m_nextId r) r1"
    by (simp add: issueSync_def r1_def alloc_slot_eq Let_def)
  have "ledger_steps (ledger_of r) (ledger_of r1)"
    by (rule ledger_alloc [where sl = "new_slot (m_nextId r) (if kind = OpSync then ''nvp_op_sync'' else ''nvp_eth_sync'') [] kind"])
      (simp_all add: r1_def alloc_slot_eq, simp add: new_slot_def)
  also have "ledger_steps (ledger_of r1) (ledger_of (library_reply parse secs reply (m_nextId r) r1))"
    by (rule reply_ledger) (simp add: r1_def alloc_slot_eq)
  finally show ?thesis using run by simp
qed

lemma advanceSync_ledger: "ledger_steps (ledger_of r) (ledger_of (advanceSync parse now secs reply r))"
proof -
  have "ledger_steps (ledger_of r) (ledger_of (issueSync parse secs reply Sync (r\<lparr>m_syncCycleStart := now\<rparr>)))"
    using issueSync_ledger [of "r\<lparr>m_syncCycleStart := now\<rparr>" parse secs reply Sync]
      ledger_same [of "r\<lparr>m_syncCycleStart := now\<rparr>" r] by simp
  then show ?thesis
    by (simp add: advanceSync_def issueSync_ledger ledger_same_steps split: SyncPhase.split)
qed

lemma issueKeepAlive_ledger: "ledger_steps (ledger_of r) (ledger_of (issueKeepAlive parse secs snap reply r))"
proof -
  obtain out q where t: "tryAdmit snap r = (out, q)" by fastforce
  then have q: "m_slots q = m_slots r" "m_nextId q = m_nextId r" by (auto elim: tryAdmit_cases)
  show ?thesis
  proof (cases out)
    case None
    define r1 where "r1 = (snd (alloc_slot ''eth_getBlockByNumber'' beat_params Heartbeat q))
      \<lparr>m_heartbeatInFlight := True, m_inFlight := m_inFlight q + 1, m_boxes := m_boxes q @ [m_nextId q]\<rparr>"
    have "ledger_steps (ledger_of r) (ledger_of r1)"
      by (rule ledger_alloc [where sl = "new_slot (m_nextId r) ''eth_getBlockByNumber'' beat_params Heartbeat"])
        (simp_all add: r1_def q alloc_slot_eq, simp add: new_slot_def)
    also have "ledger_steps (ledger_of r1) (ledger_of (library_reply parse secs reply (m_nextId q) r1))"
      by (rule reply_ledger) (simp add: r1_def alloc_slot_eq)
    also have "ledger_of (library_reply parse secs reply (m_nextId q) r1) = ledger_of (issueKeepAlive parse secs snap reply r)"
      by (rule ledger_same) (simp_all add: issueKeepAlive_def t None r1_def alloc_slot_eq Let_def)
    finally show ?thesis .
  qed (simp add: issueKeepAlive_def t q ledger_same_steps)
qed

lemma fail_each_ledger:
  "\<forall>i \<in> set ps. owned r i \<longrightarrow> i < m_nextId r \<Longrightarrow> ledger_steps (ledger_of r) (ledger_of (fail_each why ps r))"
proof (induction why ps r rule: fail_each.induct)
  case (2 why i js r)
  define q where "q = r\<lparr>m_slots := (m_slots r)(i := finish_slot RET_ERROR why (m_slots r i)), m_leaked := m_leaked r + 1\<rparr>"
  have o: "owned q = owned r" by (simp add: owned_def fun_eq_iff q_def)
  show ?case
  proof (cases "expired r i \<or> slot_done (m_slots r i)")
    case False
    then have "ledger_steps (ledger_of r) (ledger_of q)"
      using 2(3) by (intro ledger_finish [where i = i and status = RET_ERROR and res = why]) (simp_all add: q_def expired_def)
    also have "ledger_steps (ledger_of q) (ledger_of (fail_each why js q))"
      using 2(2) [OF False] 2(3) o by (simp add: q_def)
    finally show ?thesis using False by (simp add: q_def)
  qed (use 2 in auto)
qed simp

lemma teardown_ledger:
  assumes "slots_off d r"
  shows "ledger_steps (ledger_of r) (ledger_of (teardown_free r))"
proof -
  define q where "q = r\<lparr>m_pending := [], m_queue := []\<rparr>"
  have "\<forall>i \<in> set (m_pending r). owned q i \<longrightarrow> i < m_nextId q"
    using assms by (auto simp: slots_ok_def q_def)
  then have "ledger_steps (ledger_of q) (ledger_of (fail_each ''proxy shutting down'' (m_pending r) q))"
    by (rule fail_each_ledger)
  also have "ledger_of (fail_each ''proxy shutting down'' (m_pending r) q) = ledger_of (teardown_free r)"
    by (rule ledger_same) (simp_all add: teardown_free_def failAllPending_def q_def Let_def)
  also have "ledger_of q = ledger_of r" by (rule ledger_same) (simp_all add: q_def)
  finally show ?thesis .
qed

section \<open>Refinement\<close>

lemma step_ledger_slots:
  assumes so: "slots_off d (rtm s)" and "sys_step parse dump s e t"
  shows "ledger_steps (ledger_of (rtm s)) (ledger_of (rtm t))"
proof -
  note same = ledger_same_steps
  show ?thesis
    using assms(2)
  proof (cases rule: sys_step.cases)
    case (enter c mth params snap now out r)
    then show ?thesis by (elim enter_cases) (simp_all add: set_caller_def same enqueued_def)
  next
    case (poll c w mth params snap now out r)
    then show ?thesis
      by (elim poll_cases) (simp_all add: set_caller_def same removeAdmissionTicketLocked_def)
  next
    case (enqueue c mth params out r)
    have "ledger_steps (ledger_of (rtm s)) (ledger_of r)"
      using enqueue(5)
      by (rule call_enqueue_cases; intro ledger_alloc [where sl = "new_slot (m_nextId (rtm s)) mth params User"])
        (simp_all add: alloc_slot_eq Let_def, simp_all add: new_slot_def)
    then show ?thesis using enqueue by (simp add: set_caller_def)
  next
    case (start_call cfg snap res r)
    have "m_slots r = m_slots (rtm s) \<and> m_nextId r = m_nextId (rtm s)"
      using start_call(4) by (rule start_begin_cases) (simp_all add: start_reset_def)
    then show ?thesis using start_call by (simp add: same)
  next
    case (start_return report secs res r)
    then show ?thesis using start_end_state by (fastforce intro: same)
  next
    case (stop_call res r)
    then show ?thesis by (auto simp: stop_begin_def same split: if_splits)
  next
    case (wake go r)
    then show ?thesis by (auto simp: thread_wake_def run_reset_def same split: if_splits)
  next
    case (dispatch i r rep secs)
    then have "i < m_nextId r" "m_slots r = m_slots (rtm s)" "m_nextId r = m_nextId (rtm s)"
      using so by (auto simp: dispatch_front_Some slots_ok_def owned_def)
    then show ?thesis using dispatch reply_ledger [of i r parse secs rep] ledger_same [of r "rtm s"] by simp
  next
    case (beat now snap rep secs)
    then have "ledger_of (rtm t) = ledger_of (issueKeepAlive parse secs snap rep (rtm s))"
      by (intro ledger_same) simp_all
    then show ?thesis using issueKeepAlive_ledger [of "rtm s" parse secs snap rep] by simp
  next
    case (callback i status res secs)
    then have "i < m_nextId (rtm s)" using so by (auto simp: slots_ok_def owned_def)
    then show ?thesis using callback by (simp add: trampoline_ledger)
  qed (auto simp: set_caller_def same call_finish_def request_shutdown_def thread_park_def run_refused_def
      run_accepted_def advanceSync_ledger teardown_begin_def teardown_done_def teardown_ledger [OF so] Let_def)
qed

lemma step_ledger:
  assumes "reach sys_init (sys_step parse dump) s" "sys_step parse dump s e t"
  shows "ledger_steps (ledger_of (rtm s)) (ledger_of (rtm t))"
proof -
  have "sys_ok s" by (rule runtime.reach_inv [OF assms(1)])
  then have "slots_ok (rtm s)" by (simp add: sys_ok_def calls_ok_def good_def)
  then show ?thesis using assms(2) by (rule step_ledger_slots)
qed

text \<open>
  C1: The runtime refines the ledger: whatever thread takes the next step, the ids it hands out
  are new and consecutive, and the only answers it writes are those of ids handed out before that
  have none yet. So the answer of a call is given once and never changed, by no late callback, by
  no teardown and by no later run.
\<close>

theorem runtime_refines_ledger:
  assumes "reach sys_init (sys_step parse dump) s" "sys_step parse dump s e t"
  shows "ledger_steps (ledger_of (rtm s)) (ledger_of (rtm t))
    \<and> answers (ledger_of (rtm s)) \<subseteq>\<^sub>m answers (ledger_of (rtm t))"
  using step_ledger [OF assms] ledger_write_once by blast

definition called_run :: "event list" where
  "called_run = first_sync @ one_call 0 @ [Dispatch None]"

definition called_view :: "sys \<Rightarrow> thread_pc \<times> nat list \<times> bool \<times> nat" where
  "called_view s = (pc s, m_boxes (rtm s), slot_done (m_slots (rtm s) 2), m_nextId (rtm s))"

lemma called_run_view:
  "map_option called_view (run_events no_parse no_dump called_run (fresh 1)) = Some (Pump, [2], False, 3)"
  by code_simp

lemmas called_run_facts = run_view [OF called_run_view, unfolded called_view_def prod.inject]

theorem runtime_refines_ledger_witness:
  "\<exists>t. sys_step no_parse no_dump (run_of 1 called_run) (Callback 2 RET_SUCCESS ''7'' 0) t
     \<and> ledger_steps (ledger_of (rtm (run_of 1 called_run))) (ledger_of (rtm t))
     \<and> answers (ledger_of (rtm (run_of 1 called_run))) 2 = None
     \<and> answers (ledger_of (rtm t)) 2 = Some (RET_SUCCESS, ''7'')"
proof -
  let ?s = "run_of 1 called_run"
  let ?t = "?s\<lparr>rtm := callbackTrampoline no_parse 0 RET_SUCCESS ''7'' 2 (rtm ?s)\<rparr>"
  have step: "sys_step no_parse no_dump ?s (Callback 2 RET_SUCCESS ''7'' 0) ?t"
    using called_run_facts(1) by (intro callback) simp_all
  have "answers (ledger_of (rtm ?s)) 2 = None" "answers (ledger_of (rtm ?t)) 2 = Some (RET_SUCCESS, ''7'')"
    using called_run_facts(1) by (simp_all add: ledger_of_def finish_slot_def)
  then show ?thesis using step runtime_refines_ledger [OF called_run_facts(2) step] by blast
qed

end
