(* ===== verification/Runtime_Shutdown.thy ===== *)
theory Runtime_Shutdown
  imports Runtime_Trace
begin

text \<open>
  The end of the runtime: the destructor, which asks the proxy thread to leave and waits for it with
  a deadline, and the way of the thread out once it has been asked.
\<close>

section \<open>The destructor\<close>

definition kThreadExitDeadlineMs :: int where
  "kThreadExitDeadlineMs = 30000"

text \<open>It returns without a thread or after joining it, or aborts the process with a report.\<close>

datatype destroyed = NoThread | Joined | Aborted string

text \<open>\<open>stopped\<close> and \<open>left\<close> are what the other threads do while it waits for the stop and for the thread.\<close>

definition destroy :: "(string \<Rightarrow> rt \<Rightarrow> string) \<Rightarrow> (rt \<Rightarrow> rt) \<Rightarrow> (rt \<Rightarrow> rt) \<Rightarrow> rt \<Rightarrow> destroyed \<times> rt" where
  "destroy report stopped left r =
     (let r1 = (if m_runActive r then snd (stop_op report stopped r) else r);
          r2 = request_shutdown r1
      in if \<not> m_thread r2 then (NoThread, r2)
         else
           let r3 = left r2 in
           (if m_threadExited r3 then Joined
            else Aborted (report (''the proxy thread has not left threadMain ''
                   @ to_string kThreadExitDeadlineMs @ ''ms after shutdown was requested'') r3), r3))"

section \<open>The way out\<close>

text \<open>How many steps of its own the thread is away from its end, at most.\<close>

fun steps_left :: "thread_pc \<Rightarrow> nat" where
  "steps_left Prologue = 5"
| "steps_left Pump = 4"
| "steps_left Drain = 3"
| "steps_left Freed = 2"
| "steps_left Parked = 1"
| "steps_left Exited = 0"

text \<open>The thread's next step: the library did start, the pump is left, the teardown is run, the thread wakes up.\<close>

fun way_out :: "thread_pc \<Rightarrow> event list" where
  "way_out Prologue = [StartSucceeds 0 None, LeavePump, Free, Done, Wake]"
| "way_out Pump = [LeavePump, Free, Done, Wake]"
| "way_out Drain = [Free, Done, Wake]"
| "way_out Freed = [Done, Wake]"
| "way_out Parked = [Wake]"
| "way_out Exited = []"

lemma thread_frames:
  "m_shutdown (teardown_begin r) = m_shutdown r" "m_shutdown (teardown_free r) = m_shutdown r"
  "m_shutdown (teardown_done r) = m_shutdown r" "m_shutdown (thread_park r) = m_shutdown r"
  "m_shutdown (run_refused r) = m_shutdown r" "m_shutdown (run_accepted parse now interval r) = m_shutdown r"
  "m_shutdown (run_reset r) = m_shutdown r" "m_threadExited (run_reset r) = m_threadExited r"
  by (simp_all add: teardown_begin_def teardown_free_def failAllPending_def teardown_done_def thread_park_def
      run_refused_def run_accepted_def run_reset_def Let_def)

lemma start_flags:
  "start_begin dump snap cfg q = (res, r) \<Longrightarrow> m_shutdown r = m_shutdown q \<and> m_threadExited r = m_threadExited q"
  by (erule start_begin_cases) (simp_all add: start_reset_def setState_def emit_def Let_def)

lemma enter_flags: "admission_enter snap now q = (out, r) \<Longrightarrow> m_shutdown r = m_shutdown q"
  by (erule enter_cases) (simp_all add: enqueued_def)

lemma poll_flags: "admission_poll snap now w q = (out, r) \<Longrightarrow> m_shutdown r = m_shutdown q"
  by (erule poll_cases) (simp_all add: removeAdmissionTicketLocked_def)

lemma enqueue_flags: "call_enqueue mth ps q = (res, r) \<Longrightarrow> m_shutdown r = m_shutdown q"
  by (erule call_enqueue_cases) (simp_all add: alloc_slot_eq Let_def)

lemma finish_flags:
  "call_finish parse report i (q :: rt) = (ans, r) \<Longrightarrow> m_shutdown r = m_shutdown q \<and> m_threadExited r = m_threadExited q"
  by (auto simp: call_finish_def)

lemma stop_flags: "stop_begin q = (rep, r) \<Longrightarrow> m_shutdown r = m_shutdown q \<and> m_threadExited r = m_threadExited q"
  by (auto simp: stop_begin_def split: if_splits)

lemma keepAlive_shutdown: "m_shutdown (issueKeepAlive parse secs snap reply r) = m_shutdown r"
  by (cases "tryAdmit snap r")
    (auto simp: issueKeepAlive_def alloc_slot_eq Let_def elim!: tryAdmit_cases split: option.split)

lemma advance_shutdown: "m_shutdown (advanceSync parse now secs reply r) = m_shutdown r"
  by (simp add: advanceSync_def issueSync_def alloc_slot_eq Let_def split: SyncPhase.split)

lemmas flag_simps = enter_flags poll_flags enqueue_flags finish_flags stop_flags start_flags keepAlive_shutdown
  advance_shutdown thread_frames

text \<open>Asked to leave, the thread moves only towards its end, and it says so when it gets there.\<close>

lemma step_to_exit:
  assumes "sys_step parse dump s e t" "m_shutdown (rtm s)"
  shows "m_shutdown (rtm t) \<and> (pc t = pc s \<or> steps_left (pc t) < steps_left (pc s))"
  using assms
  by (cases rule: sys_step.cases)
    (auto simp: set_caller_def flag_simps thread_wake_def request_shutdown_def dispatch_front_Some dest: start_end_state)

lemma step_exited:
  assumes "pc s = Exited \<longrightarrow> m_threadExited (rtm s)" "sys_step parse dump s e t"
  shows "pc t = Exited \<longrightarrow> m_threadExited (rtm t)"
  using assms(2,1)
  by (cases rule: sys_step.cases)
    (auto simp: set_caller_def flag_simps thread_wake_def request_shutdown_def
      dest: start_end_state same_more(7) [OF enter_more] same_more(7) [OF poll_more] same_more(7) [OF enqueue_more] split: if_splits)

interpretation exited: run_invariant sys_init "sys_step parse dump" "\<lambda>s. pc s = Exited \<longrightarrow> m_threadExited (rtm s)"
  for parse dump
  by unfold_locales (simp add: sys_init_def, rule step_exited)

lemma way_out_runs:
  assumes "m_shutdown (rtm s)"
  shows "\<exists>t. run_events parse dump (way_out (pc s)) s = Some t \<and> pc t = Exited"
  using assms
  by (cases "pc s") (simp_all add: thread_wakes_def thread_wake_def thread_frames)


definition leaving_run :: "event list" where
  "leaving_run = [StartCall roomy default_config, Wake, StartSucceeds 0 None, Shutdown]"

definition leaving_view :: "sys \<Rightarrow> bool \<times> bool \<times> thread_pc" where
  "leaving_view s = (m_shutdown (rtm s), m_thread (rtm s), pc s)"

lemma leaving_run_view:
  "map_option leaving_view (run_events no_parse no_dump leaving_run (fresh 1)) = Some (True, True, Pump)"
  by code_simp


end
