(* ===== verification/Rpc_Http.thy ===== *)
theory Rpc_Http
  imports Json_Value
begin

text \<open>
  \<^verbatim>\<open>src/rpc_http_server.h\<close> and \<^verbatim>\<open>src/rpc_http_server.cpp\<close>: the JSON-RPC 2.0 framing of one request
  body, the callback that collects a body from its chunks, and the listener's start and stop.
  A verified call is the argument \<open>dispatch\<close>; it changes a state of any type and returns a result
  or throws. The JSON parser and printer, the address parser and the listener of the HTTP library
  are arguments too; the printer may throw, as it does on text that is not UTF-8.
\<close>

section \<open>Exceptions\<close>

text \<open>What a C++ callee throws: an exception with a message, or something else.\<close>

datatype thrown = StdException string | OtherThrown

type_synonym 's dispatch = "string \<Rightarrow> json \<Rightarrow> 's \<Rightarrow> (thrown + StdLogosResult) \<times> 's"

section \<open>Envelopes\<close>

definition kParseError :: i64 where "kParseError = -32700"
definition kInvalidRequest :: i64 where "kInvalidRequest = -32600"
definition kInvalidParams :: i64 where "kInvalidParams = -32602"
definition kInternalError :: i64 where "kInternalError = -32603"
definition kServerError :: i64 where "kServerError = -32000"
definition kMethodNotFound :: i64 where "kMethodNotFound = -32601"

definition takesOptimisticStateFetch :: "string \<Rightarrow> bool" where
  "takesOptimisticStateFetch m \<longleftrightarrow>
     m \<in> set [''eth_call'', ''eth_estimateGas'', ''eth_createAccessList'',
              ''op_call'', ''op_estimateGas'', ''op_createAccessList'']"

definition errorObject :: "i64 \<Rightarrow> string \<Rightarrow> json" where
  "errorObject code msg = jobj [(''code'', JInt code), (''message'', JStr msg)]"

definition responseEnvelope :: "json \<Rightarrow> json \<Rightarrow> json" where
  "responseEnvelope rid v = jobj [(''jsonrpc'', JStr ''2.0''), (''id'', rid), (''result'', v)]"

definition errorEnvelope :: "json \<Rightarrow> i64 \<Rightarrow> string \<Rightarrow> json" where
  "errorEnvelope rid code msg =
     jobj [(''jsonrpc'', JStr ''2.0''), (''id'', rid), (''error'', errorObject code msg)]"

section \<open>One request\<close>

definition is_notification :: "json \<Rightarrow> bool" where
  "is_notification req \<longleftrightarrow>
     \<not> is_object req \<or> \<not> contains req ''id'' \<or> jfield req ''id'' = Some JNull"

definition request_id :: "json \<Rightarrow> json" where
  "request_id req = (case jfield req ''id'' of Some v \<Rightarrow> v | None \<Rightarrow> JNull)"

text \<open>The parameter list; \<^term>\<open>None\<close> when there is one that is not an array.\<close>

definition request_params :: "json \<Rightarrow> json list option" where
  "request_params req =
     (case jfield req ''params'' of
        None \<Rightarrow> Some []
      | Some JNull \<Rightarrow> Some []
      | Some (JArr ps) \<Rightarrow> Some ps
      | Some _ \<Rightarrow> None)"

definition adapt_params :: "string \<Rightarrow> json list \<Rightarrow> json list" where
  "adapt_params m ps =
     (if takesOptimisticStateFetch m \<and> length ps = 2 then ps @ [JBool False] else ps)"

definition answer :: "json \<Rightarrow> StdLogosResult \<Rightarrow> json" where
  "answer rid r =
     (if \<not> success r
      then errorEnvelope rid (if find_str ''unknown method'' (result_error r) \<noteq> None then kMethodNotFound
                              else kServerError) (result_error r)
      else responseEnvelope rid (result_value r))"

definition handleOne :: "'s dispatch \<Rightarrow> json \<Rightarrow> 's \<Rightarrow> (thrown + json option) \<times> 's" where
  "handleOne dispatch req s =
     (let reply = (\<lambda>out. if is_notification req then None else Some out);
          fail = (\<lambda>code msg. (Inr (reply (errorEnvelope (request_id req) code msg)), s))
      in if \<not> is_object req then fail kInvalidRequest ''request must be a JSON object''
         else case jfield req ''method'' of
             Some (JStr method) \<Rightarrow>
               (case request_params req of
                  None \<Rightarrow> fail kInvalidParams
                            (quoted ''params'' @ '' must be an array (named parameters are not supported)'')
                | Some ps \<Rightarrow>
                    (case dispatch method (JArr (adapt_params method ps)) s of
                       (Inl e, s') \<Rightarrow> (Inl e, s')
                     | (Inr r, s') \<Rightarrow> (Inr (reply (answer (request_id req) r)), s')))
           | _ \<Rightarrow> fail kInvalidRequest (quoted ''method'' @ '' is required and must be a string''))"

section \<open>One body\<close>

fun handleBatch :: "'s dispatch \<Rightarrow> json list \<Rightarrow> 's \<Rightarrow> (thrown + json list) \<times> 's" where
  "handleBatch dispatch [] s = (Inr [], s)"
| "handleBatch dispatch (one # rest) s =
     (case handleOne dispatch one s of
        (Inl e, s1) \<Rightarrow> (Inl e, s1)
      | (Inr resp, s1) \<Rightarrow>
          (case handleBatch dispatch rest s1 of
             (Inl e, s2) \<Rightarrow> (Inl e, s2)
           | (Inr out, s2) \<Rightarrow> (Inr ((case resp of None \<Rightarrow> [] | Some r \<Rightarrow> [r]) @ out), s2)))"

definition handleBody ::
  "(string \<Rightarrow> string + json) \<Rightarrow> (json \<Rightarrow> thrown + string) \<Rightarrow> 's dispatch \<Rightarrow> string \<Rightarrow> 's \<Rightarrow> (thrown + string) \<times> 's" where
  "handleBody parse dump dispatch body s =
     (case parse body of
        Inl what \<Rightarrow> (dump (errorEnvelope JNull kParseError (''invalid JSON: '' @ what)), s)
      | Inr (JArr reqs) \<Rightarrow>
          if reqs = [] then (dump (errorEnvelope JNull kInvalidRequest ''empty batch''), s)
          else (case handleBatch dispatch reqs s of
                  (Inl e, s') \<Rightarrow> (Inl e, s')
                | (Inr out, s') \<Rightarrow> (if out = [] then Inr [] else dump (JArr out), s'))
      | Inr req \<Rightarrow>
          (case handleOne dispatch req s of
             (Inl e, s') \<Rightarrow> (Inl e, s')
           | (Inr None, s') \<Rightarrow> (Inr [], s')
           | (Inr (Some resp), s') \<Rightarrow> (dump resp, s')))"

section \<open>The request callback\<close>

text \<open>
  The callback is called once per event of a connection: first without data, then once per chunk,
  then once with an empty chunk. \<open>con\<close> is the connection's accumulator, \<^term>\<open>None\<close> while the
  pointer is null. A call either asks to go on or queues a response; an exception that leaves the
  handler is the \<^term>\<open>Inl\<close> of the result.
\<close>

datatype mhd_result = Continue | Respond nat string

definition describe_thrown :: "thrown \<Rightarrow> string" where
  "describe_thrown e = (case e of StdException what \<Rightarrow> what | OtherThrown \<Rightarrow> ''unknown error'')"

definition onRequest ::
  "(string \<Rightarrow> string + json) \<Rightarrow> (json \<Rightarrow> thrown + string) \<Rightarrow> 's dispatch \<Rightarrow> string \<Rightarrow> string
     \<Rightarrow> string option \<Rightarrow> 's \<Rightarrow> (thrown + mhd_result) \<times> string option \<times> 's" where
  "onRequest parse dump dispatch http_method chunk con s =
     (if http_method \<noteq> ''POST'' then
        (map_res (Respond 405) (dump (errorEnvelope JNull kInvalidRequest ''JSON-RPC requires POST'')), con, s)
      else case con of
        None \<Rightarrow> (Inr Continue, Some [], s)
      | Some body \<Rightarrow>
          if chunk \<noteq> [] then (Inr Continue, Some (body @ chunk), s)
          else
            let (r, s') = handleBody parse dump dispatch body s;
                out = (case r of Inr out \<Rightarrow> Inr out
                       | Inl e \<Rightarrow> dump (errorEnvelope JNull kInternalError (describe_thrown e)))
            in (map_res (\<lambda>text. Respond (if text = [] then 204 else 200) text) out, con, s'))"

definition onRequestCompleted :: "string option \<Rightarrow> string option" where
  "onRequestCompleted con = None"

text \<open>The callback over the events of one request: the last call's result.\<close>

fun serve_events ::
  "(string \<Rightarrow> string option \<Rightarrow> 's \<Rightarrow> (thrown + mhd_result) \<times> string option \<times> 's) \<Rightarrow> string list
     \<Rightarrow> string option \<Rightarrow> 's \<Rightarrow> (thrown + mhd_result) \<times> string option \<times> 's" where
  "serve_events f [] con s = (Inr Continue, con, s)"
| "serve_events f (c # cs) con s =
     (case f c con s of
        (Inr Continue, con', s') \<Rightarrow> serve_events f cs con' s'
      | other \<Rightarrow> other)"

definition post_events :: "string list \<Rightarrow> string list" where
  "post_events chunks = [] # chunks @ [[]]"

section \<open>The listener\<close>

text \<open>\<^verbatim>\<open>RpcHttpServer::Impl\<close>; \<open>'d\<close> is the HTTP library's daemon handle.\<close>

record 'd http_server =
  hs_daemon :: "'d option"
  hs_host :: string
  hs_port :: u16

definition new_http_server :: "'d http_server" where
  "new_http_server = \<lparr>hs_daemon = None, hs_host = [], hs_port = 0\<rparr>"

definition http_start ::
  "(string \<Rightarrow> bool) \<Rightarrow> (string \<Rightarrow> u16 \<Rightarrow> u32 \<Rightarrow> 'd option) \<Rightarrow> string \<Rightarrow> u16 \<Rightarrow> u32
     \<Rightarrow> 'd http_server \<Rightarrow> string option \<times> 'd http_server" where
  "http_start inet_pton start_daemon host port maxConnections h =
     (if hs_daemon h \<noteq> None then (Some ''http server already running'', h)
      else if maxConnections = 0 then (Some ''http server connection limit must be positive'', h)
      else if \<not> inet_pton host
      then (Some (''httpServer.host must be a literal IPv4 address (got '' @ quoted host @ '')''), h)
      else case start_daemon host port maxConnections of
          None \<Rightarrow> (Some (''failed to bind '' @ host @ '':'' @ to_string (uint port)
                        @ '' (port in use, or not permitted)''), h)
        | Some d \<Rightarrow> (None, h\<lparr>hs_daemon := Some d, hs_host := host, hs_port := port\<rparr>))"

definition http_stop :: "'d http_server \<Rightarrow> 'd http_server" where
  "http_stop h = (if hs_daemon h = None then h else h\<lparr>hs_daemon := None, hs_port := 0\<rparr>)"

definition http_running :: "'d http_server \<Rightarrow> bool" where
  "http_running h \<longleftrightarrow> hs_daemon h \<noteq> None"

definition http_endpoint :: "'d http_server \<Rightarrow> string" where
  "http_endpoint h =
     (if hs_daemon h = None then [] else ''http://'' @ hs_host h @ '':'' @ to_string (uint (hs_port h)))"

end
