(* ===== verification/Rpc_Properties.thy ===== *)
theory Rpc_Properties
  imports Rpc_Http
begin

text \<open>
  The properties of the JSON-RPC endpoint: what a batch is answered with and which verified calls
  it makes, how results and errors are framed, that the handler never lets an exception out while
  its callee does not throw, that a body may arrive in any chunks, and the listener's life.
\<close>

section \<open>Batches\<close>

text \<open>The verified call a request leads to, if any; and a dispatcher run over a list of calls.\<close>

definition request_call :: "json \<Rightarrow> (string \<times> json) option" where
  "request_call req =
     (case jfield req ''method'' of
        Some (JStr m) \<Rightarrow> map_option (\<lambda>ps. (m, JArr (adapt_params m ps))) (request_params req)
      | _ \<Rightarrow> None)"

definition run_calls :: "'s dispatch \<Rightarrow> (string \<times> json) list \<Rightarrow> 's \<Rightarrow> 's" where
  "run_calls dispatch calls s = foldl (\<lambda>t (m, p). snd (dispatch m p t)) s calls"

definition calls_of :: "json list \<Rightarrow> (string \<times> json) list" where
  "calls_of reqs = List.map_filter request_call reqs"

lemma run_calls_simps [simp]:
  "run_calls dispatch [] s = s"
  "run_calls dispatch (c # cs) s = run_calls dispatch cs (snd (dispatch (fst c) (snd c) s))"
  by (simp_all add: run_calls_def split: prod.split)

lemma jfield_not_object [simp]: "\<not> is_object j \<Longrightarrow> jfield j k = None"
  by (cases j) simp_all

lemma errorEnvelope_fields [json_simps]:
  "jfield (errorEnvelope rid c m) ''id'' = Some rid"
  "jfield (errorEnvelope rid c m) ''jsonrpc'' = Some (JStr ''2.0'')"
  "jfield (errorEnvelope rid c m) ''result'' = None"
  "jfield (errorEnvelope rid c m) ''error'' = Some (errorObject c m)"
  by (simp_all add: errorEnvelope_def json_simps)

lemma responseEnvelope_fields [json_simps]:
  "jfield (responseEnvelope rid v) ''id'' = Some rid"
  "jfield (responseEnvelope rid v) ''jsonrpc'' = Some (JStr ''2.0'')"
  "jfield (responseEnvelope rid v) ''result'' = Some v"
  "jfield (responseEnvelope rid v) ''error'' = None"
  by (simp_all add: responseEnvelope_def json_simps)

definition well_framed :: "json \<Rightarrow> json \<Rightarrow> bool" where
  "well_framed rid out \<longleftrightarrow> jfield out ''id'' = Some rid \<and> jfield out ''jsonrpc'' = Some (JStr ''2.0'')
     \<and> contains out ''result'' = (\<not> contains out ''error'')"

lemma well_framed_envelopes [simp]:
  "well_framed rid (errorEnvelope rid c m)" "well_framed rid (answer rid r)"
  by (simp_all add: well_framed_def answer_def contains_def json_simps)

text \<open>One request: the state after it, and whether and how it is answered.\<close>

lemma handleOne_Inr:
  assumes "handleOne dispatch req s = (Inr resp, s')"
  shows "s' = run_calls dispatch (calls_of [req]) s
    \<and> (if is_notification req then resp = None
       else \<exists>out. resp = Some out \<and> well_framed (request_id req) out)"
proof (cases "is_object req \<and> (\<exists>m ps. jfield req ''method'' = Some (JStr m) \<and> request_params req = Some ps)")
  case True
  then obtain m ps where c: "is_object req" "jfield req ''method'' = Some (JStr m)" "request_params req = Some ps"
    by blast
  obtain r s1 where d: "dispatch m (JArr (adapt_params m ps)) s = (Inr r, s1)"
    using assms c by (cases "dispatch m (JArr (adapt_params m ps)) s"; cases "fst (dispatch m (JArr (adapt_params m ps)) s)")
      (auto simp: handleOne_def)
  then show ?thesis
    using assms c by (auto simp: handleOne_def calls_of_def map_filter_simps request_call_def)
next
  case False
  then have "calls_of [req] = []"
    by (auto simp: calls_of_def map_filter_simps request_call_def split: option.splits json.splits)
  with False assms show ?thesis
    by (auto simp: handleOne_def Let_def split: if_splits option.splits json.splits)
qed

lemma calls_of_Cons: "calls_of (req # reqs) = calls_of [req] @ calls_of reqs"
  by (simp add: calls_of_def map_filter_simps split: option.split)

lemma run_calls_append [simp]: "run_calls dispatch (cs @ ds) s = run_calls dispatch ds (run_calls dispatch cs s)"
  by (simp add: run_calls_def)

text \<open>
  C27: A batch is answered with exactly one response for every request that is not a notification,
  in the order of the requests and with their ids; each response is version 2.0 with either a
  result or an error. The verified calls made are those of the well-formed requests, notifications
  included, once each and in order.
\<close>

theorem batch_answered_in_order:
  assumes "handleBatch dispatch reqs s = (Inr outs, s')"
  shows "list_all2 well_framed (map request_id (filter (\<lambda>req. \<not> is_notification req) reqs)) outs
    \<and> s' = run_calls dispatch (calls_of reqs) s"
  using assms
proof (induction reqs arbitrary: s outs)
  case Nil
  then show ?case by (simp add: calls_of_def map_filter_simps)
next
  case (Cons req reqs)
  then obtain resp s1 outs' where one: "handleOne dispatch req s = (Inr resp, s1)"
      and rest: "handleBatch dispatch reqs s1 = (Inr outs', s')"
      and outs: "outs = (case resp of None \<Rightarrow> [] | Some r \<Rightarrow> [r]) @ outs'"
    by (auto split: prod.splits sum.splits)
  then show ?case
    using Cons.IH [OF rest] handleOne_Inr [OF one] by (subst calls_of_Cons) (auto split: if_splits)
qed

definition echo :: "(string \<times> json) list dispatch" where
  "echo m p log = (Inr (ok_result p), log @ [(m, p)])"

definition sample_batch :: "json list" where
  "sample_batch =
     [jobj [(''method'', JStr ''eth_call''), (''params'', JArr [JNull, JStr ''latest'']), (''id'', JInt 7)],
      jobj [(''method'', JStr ''eth_chainId'')],
      jobj [(''method'', JInt 3), (''id'', JStr ''b'')]]"

theorem batch_answered_in_order_witness:
  "\<exists>a b. handleBatch echo sample_batch [] =
     (Inr [a, b], [(''eth_call'', JArr [JNull, JStr ''latest'', JBool False]), (''eth_chainId'', JArr [])])
   \<and> jfield a ''id'' = Some (JInt 7) \<and> jfield b ''id'' = Some (JStr ''b'') \<and> contains a ''result'' = (\<not> contains a ''error'')"
proof -
  obtain a b log where run: "handleBatch echo sample_batch [] = (Inr [a, b], log)"
    by (simp add: sample_batch_def handleOne_def echo_def request_params_def adapt_params_def is_notification_def
        contains_def json_simps Let_def takesOptimisticStateFetch_def)
  from batch_answered_in_order [OF run] show ?thesis
    using run by (simp add: sample_batch_def is_notification_def contains_def json_simps calls_of_def map_filter_simps
        request_call_def request_params_def adapt_params_def takesOptimisticStateFetch_def echo_def
        request_id_def well_framed_def)
qed

section \<open>Framing of one request\<close>



text \<open>
  A request that is not an object makes no call and gets no response at all, and a body that
  is neither an object nor an array has an empty answer: the \<open>-32600\<close> error the code builds for
  it is never sent.
\<close>

theorem non_object_ignored:
  assumes "\<not> is_object req"
  shows "handleOne dispatch req s = (Inr None, s)
    \<and> (parse body = Inr req \<longrightarrow> \<not> is_array req \<longrightarrow> handleBody parse dump dispatch body s = (Inr [], s))"
proof -
  have "handleOne dispatch req s = (Inr None, s)"
    using assms by (simp add: handleOne_def is_notification_def)
  then show ?thesis
    by (auto simp: handleBody_def split: json.split)
qed

theorem non_object_ignored_witness:
  "handleBody (\<lambda>_. Inr (JInt 1)) (\<lambda>_. Inr ''x'') echo ''1'' [] = (Inr [], [])"
  using non_object_ignored [of "JInt 1" echo "[]" "\<lambda>_. Inr (JInt 1)" "''1''" "\<lambda>_. Inr ''x''"] by simp

section \<open>Exceptions\<close>

text \<open>The contract of a dispatcher: on an array of parameters it returns.\<close>

locale rpc_backend =
  fixes dispatch :: "'s dispatch"
  assumes returns: "\<exists>r s'. dispatch m (JArr ps) s = (Inr r, s')"
begin

lemma handleOne_returns: "\<exists>resp s'. handleOne dispatch req s = (Inr resp, s')"
proof (cases "is_object req")
  case True
  show ?thesis
  proof (cases "jfield req ''method''")
    case (Some v)
    then show ?thesis
    proof (cases "request_params req")
      case ps: (Some ps)
      show ?thesis
        using True Some ps returns [of "case v of JStr m \<Rightarrow> m" "adapt_params (case v of JStr m \<Rightarrow> m) ps" s]
        by (cases v) (auto simp: handleOne_def)
    qed (cases v; simp add: handleOne_def)
  qed (simp add: handleOne_def)
qed (simp add: handleOne_def)

lemma handleBatch_returns: "\<exists>outs s'. handleBatch dispatch reqs s = (Inr outs, s')"
proof (induction reqs arbitrary: s)
  case (Cons req reqs)
  obtain resp s1 where "handleOne dispatch req s = (Inr resp, s1)" using handleOne_returns by blast
  then show ?case using Cons.IH [of s1] by auto
qed simp

lemma handleBody_returns:
  assumes "\<And>v. \<exists>t. dump v = Inr t"
  shows "\<exists>out s'. handleBody parse dump dispatch body s = (Inr out, s')"
proof (cases "parse body")
  case (Inl what)
  then show ?thesis using assms by (auto simp: handleBody_def)
next
  case (Inr req)
  obtain resp s1 where one: "handleOne dispatch req s = (Inr resp, s1)" using handleOne_returns by blast
  obtain outs s2 where many: "handleBatch dispatch (jitems req) s = (Inr outs, s2)" using handleBatch_returns by blast
  obtain t where t: "dump (JArr outs) = Inr t" using assms by blast
  obtain u where u: "dump (the resp) = Inr u" using assms by blast
  obtain w where w: "dump (errorEnvelope JNull kInvalidRequest ''empty batch'') = Inr w" using assms by blast
  show ?thesis
    using Inr one many t u w by (cases req; cases resp) (simp_all add: handleBody_def)
qed

end

section \<open>A body in chunks\<close>

text \<open>What the callback answers once the body is complete.\<close>

definition body_response :: "(json \<Rightarrow> thrown + string) \<Rightarrow> thrown + string \<Rightarrow> thrown + mhd_result" where
  "body_response dump r =
     map_res (\<lambda>out. Respond (if out = [] then 204 else 200) out)
       (case r of Inr out \<Rightarrow> Inr out | Inl e \<Rightarrow> dump (errorEnvelope JNull kInternalError (describe_thrown e)))"

lemma body_response_final: "body_response dump r \<noteq> Inr Continue"
  by (cases "case r of Inr out \<Rightarrow> Inr out | Inl e \<Rightarrow> dump (errorEnvelope JNull kInternalError (describe_thrown e))")
    (simp_all add: body_response_def)

lemma onRequest_post:
  "onRequest parse dump dispatch ''POST'' c None s = (Inr Continue, Some [], s)"
  "c \<noteq> [] \<Longrightarrow> onRequest parse dump dispatch ''POST'' c (Some body) s = (Inr Continue, Some (body @ c), s)"
  "onRequest parse dump dispatch ''POST'' [] (Some body) s =
     (body_response dump (fst (handleBody parse dump dispatch body s)), Some body,
      snd (handleBody parse dump dispatch body s))"
  by (simp_all add: onRequest_def body_response_def split: prod.split)

lemma serve_body:
  "[] \<notin> set chunks \<Longrightarrow>
   serve_events (onRequest parse dump dispatch ''POST'') (chunks @ [[]]) (Some body) s =
     (body_response dump (fst (handleBody parse dump dispatch (body @ concat chunks) s)), Some (body @ concat chunks),
      snd (handleBody parse dump dispatch (body @ concat chunks) s))"
proof (induction chunks arbitrary: body)
  case Nil
  show ?case
    using body_response_final [of dump "fst (handleBody parse dump dispatch body s)"]
    by (auto simp: onRequest_post split: sum.split mhd_result.split)
next
  case (Cons c cs)
  then have "c \<noteq> []" by auto
  then show ?case using Cons by (simp add: onRequest_post)
qed

text \<open>
  C29: However the body of a request is cut into chunks, it is handled once, as a whole, after the
  last one: the verified calls and the response are those of the concatenation. An empty answer is
  status 204, any other 200, and an exception out of the handler becomes an internal error with its
  text. A request that is no POST is answered with 405 at once and makes no call.
\<close>

theorem body_in_any_chunks:
  assumes "[] \<notin> set chunks"
    and run: "serve_events (onRequest parse dump dispatch http_method) (post_events chunks) None s = (resp, con, s')"
  shows "if http_method = ''POST'' then
      s' = snd (handleBody parse dump dispatch (concat chunks) s)
      \<and> (case fst (handleBody parse dump dispatch (concat chunks) s) of
           Inr out \<Rightarrow> resp = Inr (Respond (if out = [] then 204 else 200) out)
         | Inl e \<Rightarrow> \<forall>text. dump (errorEnvelope JNull kInternalError (describe_thrown e)) = Inr text \<longrightarrow>
             resp = Inr (Respond (if text = [] then 204 else 200) text))
    else s' = s \<and> (\<forall>text. dump (errorEnvelope JNull kInvalidRequest ''JSON-RPC requires POST'') = Inr text \<longrightarrow>
             resp = Inr (Respond 405 text))"
proof (cases "http_method = ''POST''")
  case True
  have "serve_events (onRequest parse dump dispatch ''POST'') (post_events chunks) None s =
      serve_events (onRequest parse dump dispatch ''POST'') (chunks @ [[]]) (Some []) s"
    by (simp add: post_events_def onRequest_post)
  also have "\<dots> = (body_response dump (fst (handleBody parse dump dispatch (concat chunks) s)), Some (concat chunks),
      snd (handleBody parse dump dispatch (concat chunks) s))"
    using serve_body [OF assms(1), of parse dump dispatch "[]" s] by simp
  finally show ?thesis
    using run True by (auto simp: body_response_def split: sum.split)
next
  case False
  then show ?thesis
    using run by (cases "dump (errorEnvelope JNull kInvalidRequest ''JSON-RPC requires POST'')")
      (auto simp: post_events_def onRequest_def)
qed

theorem body_in_any_chunks_witness:
  "\<exists>con s'. serve_events (onRequest (\<lambda>t. if t = ''abc'' then Inr JNull else Inl ''no'') (\<lambda>_. Inr ''x'') echo ''POST'')
      (post_events [''a'', ''bc'']) None [] = (Inr (Respond 204 []), con, s')"
proof -
  let ?f = "onRequest (\<lambda>t. if t = ''abc'' then Inr JNull else Inl ''no'') (\<lambda>_. Inr ''x'') echo ''POST''"
  obtain resp con s' where run: "serve_events ?f (post_events [''a'', ''bc'']) None [] = (resp, con, s')"
    by (metis surj_pair)
  have "handleBody (\<lambda>t. if t = ''abc'' then Inr JNull else Inl ''no'') (\<lambda>_. Inr ''x'') echo ''abc'' [] = (Inr [], [])"
    by (simp add: handleBody_def handleOne_def is_notification_def)
  with body_in_any_chunks [OF _ run] run show ?thesis by simp
qed

section \<open>The listener\<close>

text \<open>
  A listener starts only when it is not running, with a positive connection limit and a
  literal address, and only if the library could bind; then it is running and its endpoint names
  exactly the host and port asked for. A start that fails gives a reason and leaves the listener as
  it was, in particular a running one on its endpoint. A stop always leaves it not running, without
  an endpoint, ready to start again.
\<close>

theorem listener_life:
  assumes "http_start inet_pton start_daemon host port limit h = (err, h')"
  shows "(case err of
       None \<Rightarrow> \<not> http_running h \<and> 0 < uint limit \<and> inet_pton host \<and> http_running h'
         \<and> http_endpoint h' = ''http://'' @ host @ '':'' @ to_string (uint port)
         \<and> fst (http_start inet_pton start_daemon host2 port2 limit2 h') = Some ''http server already running''
     | Some e \<Rightarrow> e \<noteq> [] \<and> h' = h)
    \<and> \<not> http_running (http_stop h') \<and> http_endpoint (http_stop h') = []"
  using assms
  by (auto simp: http_start_def http_running_def http_endpoint_def http_stop_def word_neq_0_conv word_less_def
      split: if_splits option.splits)

theorem listener_life_witness:
  "http_endpoint (snd (http_start (\<lambda>_. True) (\<lambda>_ _ _. Some ()) ''127.0.0.1'' 8545 16 new_http_server))
     = ''http://127.0.0.1:8545''"
proof -
  obtain h where run: "http_start (\<lambda>_. True) (\<lambda>_ _ _. Some ()) ''127.0.0.1'' 8545 16 new_http_server = (None, h)"
    by (simp add: http_start_def new_http_server_def)
  have "to_string 8545 = ''8545''"
    by (simp add: to_string_def digits_in.simps [of 8 8545] digits_in.simps [of 8 854] digits_in.simps [of 8 85]
        digits_in.simps [of 8 8] digit_char_def char_of_def bit_Suc bit_0)
  with listener_life [OF run] run show ?thesis by simp
qed

end
