(* ===== verification/Rpc_Wrappers.thy ===== *)
theory Rpc_Wrappers
  imports Payload Rpc_Properties
begin

text \<open>
  The typed surface of the module, \<^verbatim>\<open>src/verified_proxy_rpc.cpp\<close> with its declarations in
  \<^verbatim>\<open>src/verified_proxy_impl.h\<close>: one constructor per typed method, with the arguments of its
  declaration, and the JSON-RPC method and parameters each of them calls \<^verbatim>\<open>rpc\<close> with.
\<close>

section \<open>Typed methods\<close>

text \<open>A transaction, a filter or a list of percentiles is the JSON value the caller hands over.\<close>

datatype eth_method =
    EthChainId
  | EthBlockNumber
  | EthGetBalance string string
  | EthGetStorageAt string string string
  | EthGetTransactionCount string string
  | EthGetCode string string
  | EthGetBlockByHash string bool
  | EthGetBlockByNumber string bool
  | EthGetUncleCountByBlockNumber string
  | EthGetUncleCountByBlockHash string
  | EthGetBlockTransactionCountByNumber string
  | EthGetBlockTransactionCountByHash string
  | EthGetTransactionByBlockNumberAndIndex string u64
  | EthGetTransactionByBlockHashAndIndex string u64
  | EthCall json string bool
  | EthCreateAccessList json string bool
  | EthEstimateGas json string bool
  | EthGetTransactionByHash string
  | EthGetBlockReceipts string
  | EthGetTransactionReceipt string
  | EthGetLogs json
  | EthNewFilter json
  | EthUninstallFilter string
  | EthGetFilterLogs string
  | EthGetFilterChanges string
  | EthBlobBaseFee
  | EthGasPrice
  | EthMaxPriorityFeePerGas
  | EthFeeHistory u64 string json
  | EthSendRawTransaction string

datatype op_method =
    OpChainId
  | OpBlockNumber
  | OpGetBalance string string
  | OpGetStorageAt string string string
  | OpGetTransactionCount string string
  | OpGetCode string string
  | OpGetBlockByHash string bool
  | OpGetBlockByNumber string bool
  | OpGetUncleCountByBlockNumber string
  | OpGetUncleCountByBlockHash string
  | OpGetBlockTransactionCountByNumber string
  | OpGetBlockTransactionCountByHash string
  | OpGetTransactionByBlockNumberAndIndex string u64
  | OpGetTransactionByBlockHashAndIndex string u64
  | OpCall json string bool
  | OpCreateAccessList json string bool
  | OpEstimateGas json string bool
  | OpGetTransactionByHash string
  | OpGetBlockReceipts string
  | OpGetTransactionReceipt string
  | OpGetLogs json
  | OpNewFilter json
  | OpUninstallFilter string
  | OpGetFilterLogs string
  | OpGetFilterChanges string
  | OpBlobBaseFee
  | OpGasPrice
  | OpMaxPriorityFeePerGas
  | OpFeeHistory u64 string json
  | OpSendRawTransaction string

fun eth_request :: "eth_method \<Rightarrow> string \<times> json list" where
  "eth_request EthChainId = (''eth_chainId'', [])"
| "eth_request EthBlockNumber = (''eth_blockNumber'', [])"
| "eth_request (EthGetBalance address blockTag) = (''eth_getBalance'', [JStr address, JStr blockTag])"
| "eth_request (EthGetStorageAt address slot blockTag) = (''eth_getStorageAt'', [JStr address, JStr slot, JStr blockTag])"
| "eth_request (EthGetTransactionCount address blockTag) = (''eth_getTransactionCount'', [JStr address, JStr blockTag])"
| "eth_request (EthGetCode address blockTag) = (''eth_getCode'', [JStr address, JStr blockTag])"
| "eth_request (EthGetBlockByHash blockHash fullTransactions) = (''eth_getBlockByHash'', [JStr blockHash, JBool fullTransactions])"
| "eth_request (EthGetBlockByNumber blockTag fullTransactions) = (''eth_getBlockByNumber'', [JStr blockTag, JBool fullTransactions])"
| "eth_request (EthGetUncleCountByBlockNumber blockTag) = (''eth_getUncleCountByBlockNumber'', [JStr blockTag])"
| "eth_request (EthGetUncleCountByBlockHash blockHash) = (''eth_getUncleCountByBlockHash'', [JStr blockHash])"
| "eth_request (EthGetBlockTransactionCountByNumber blockTag) = (''eth_getBlockTransactionCountByNumber'', [JStr blockTag])"
| "eth_request (EthGetBlockTransactionCountByHash blockHash) = (''eth_getBlockTransactionCountByHash'', [JStr blockHash])"
| "eth_request (EthGetTransactionByBlockNumberAndIndex blockTag index) = (''eth_getTransactionByBlockNumberAndIndex'', [JStr blockTag, JStr (quantityHex index)])"
| "eth_request (EthGetTransactionByBlockHashAndIndex blockHash index) = (''eth_getTransactionByBlockHashAndIndex'', [JStr blockHash, JStr (quantityHex index)])"
| "eth_request (EthCall txArgs blockTag optimisticStateFetch) = (''eth_call'', [txArgs, JStr blockTag, JBool optimisticStateFetch])"
| "eth_request (EthCreateAccessList txArgs blockTag optimisticStateFetch) = (''eth_createAccessList'', [txArgs, JStr blockTag, JBool optimisticStateFetch])"
| "eth_request (EthEstimateGas txArgs blockTag optimisticStateFetch) = (''eth_estimateGas'', [txArgs, JStr blockTag, JBool optimisticStateFetch])"
| "eth_request (EthGetTransactionByHash txHash) = (''eth_getTransactionByHash'', [JStr txHash])"
| "eth_request (EthGetBlockReceipts blockTag) = (''eth_getBlockReceipts'', [JStr blockTag])"
| "eth_request (EthGetTransactionReceipt txHash) = (''eth_getTransactionReceipt'', [JStr txHash])"
| "eth_request (EthGetLogs filterOptions) = (''eth_getLogs'', [filterOptions])"
| "eth_request (EthNewFilter filterOptions) = (''eth_newFilter'', [filterOptions])"
| "eth_request (EthUninstallFilter filterId) = (''eth_uninstallFilter'', [JStr filterId])"
| "eth_request (EthGetFilterLogs filterId) = (''eth_getFilterLogs'', [JStr filterId])"
| "eth_request (EthGetFilterChanges filterId) = (''eth_getFilterChanges'', [JStr filterId])"
| "eth_request EthBlobBaseFee = (''eth_blobBaseFee'', [])"
| "eth_request EthGasPrice = (''eth_gasPrice'', [])"
| "eth_request EthMaxPriorityFeePerGas = (''eth_maxPriorityFeePerGas'', [])"
| "eth_request (EthFeeHistory blockCount newestBlock rewardPercentiles) = (''eth_feeHistory'', [JStr (quantityHex blockCount), JStr newestBlock, rewardPercentiles])"
| "eth_request (EthSendRawTransaction txHexBytes) = (''eth_sendRawTransaction'', [JStr txHexBytes])"

fun op_request :: "op_method \<Rightarrow> string \<times> json list" where
  "op_request OpChainId = (''op_chainId'', [])"
| "op_request OpBlockNumber = (''op_blockNumber'', [])"
| "op_request (OpGetBalance address blockTag) = (''op_getBalance'', [JStr address, JStr blockTag])"
| "op_request (OpGetStorageAt address slot blockTag) = (''op_getStorageAt'', [JStr address, JStr slot, JStr blockTag])"
| "op_request (OpGetTransactionCount address blockTag) = (''op_getTransactionCount'', [JStr address, JStr blockTag])"
| "op_request (OpGetCode address blockTag) = (''op_getCode'', [JStr address, JStr blockTag])"
| "op_request (OpGetBlockByHash blockHash fullTransactions) = (''op_getBlockByHash'', [JStr blockHash, JBool fullTransactions])"
| "op_request (OpGetBlockByNumber blockTag fullTransactions) = (''op_getBlockByNumber'', [JStr blockTag, JBool fullTransactions])"
| "op_request (OpGetUncleCountByBlockNumber blockTag) = (''op_getUncleCountByBlockNumber'', [JStr blockTag])"
| "op_request (OpGetUncleCountByBlockHash blockHash) = (''op_getUncleCountByBlockHash'', [JStr blockHash])"
| "op_request (OpGetBlockTransactionCountByNumber blockTag) = (''op_getBlockTransactionCountByNumber'', [JStr blockTag])"
| "op_request (OpGetBlockTransactionCountByHash blockHash) = (''op_getBlockTransactionCountByHash'', [JStr blockHash])"
| "op_request (OpGetTransactionByBlockNumberAndIndex blockTag index) = (''op_getTransactionByBlockNumberAndIndex'', [JStr blockTag, JStr (quantityHex index)])"
| "op_request (OpGetTransactionByBlockHashAndIndex blockHash index) = (''op_getTransactionByBlockHashAndIndex'', [JStr blockHash, JStr (quantityHex index)])"
| "op_request (OpCall txArgs blockTag optimisticStateFetch) = (''op_call'', [txArgs, JStr blockTag, JBool optimisticStateFetch])"
| "op_request (OpCreateAccessList txArgs blockTag optimisticStateFetch) = (''op_createAccessList'', [txArgs, JStr blockTag, JBool optimisticStateFetch])"
| "op_request (OpEstimateGas txArgs blockTag optimisticStateFetch) = (''op_estimateGas'', [txArgs, JStr blockTag, JBool optimisticStateFetch])"
| "op_request (OpGetTransactionByHash txHash) = (''op_getTransactionByHash'', [JStr txHash])"
| "op_request (OpGetBlockReceipts blockTag) = (''op_getBlockReceipts'', [JStr blockTag])"
| "op_request (OpGetTransactionReceipt txHash) = (''op_getTransactionReceipt'', [JStr txHash])"
| "op_request (OpGetLogs filterOptions) = (''op_getLogs'', [filterOptions])"
| "op_request (OpNewFilter filterOptions) = (''op_newFilter'', [filterOptions])"
| "op_request (OpUninstallFilter filterId) = (''op_uninstallFilter'', [JStr filterId])"
| "op_request (OpGetFilterLogs filterId) = (''op_getFilterLogs'', [JStr filterId])"
| "op_request (OpGetFilterChanges filterId) = (''op_getFilterChanges'', [JStr filterId])"
| "op_request OpBlobBaseFee = (''op_blobBaseFee'', [])"
| "op_request OpGasPrice = (''op_gasPrice'', [])"
| "op_request OpMaxPriorityFeePerGas = (''op_maxPriorityFeePerGas'', [])"
| "op_request (OpFeeHistory blockCount newestBlock rewardPercentiles) = (''op_feeHistory'', [JStr (quantityHex blockCount), JStr newestBlock, rewardPercentiles])"
| "op_request (OpSendRawTransaction txHexBytes) = (''op_sendRawTransaction'', [JStr txHexBytes])"

fun to_op :: "eth_method \<Rightarrow> op_method" where
  "to_op EthChainId = OpChainId"
| "to_op EthBlockNumber = OpBlockNumber"
| "to_op (EthGetBalance address blockTag) = OpGetBalance address blockTag"
| "to_op (EthGetStorageAt address slot blockTag) = OpGetStorageAt address slot blockTag"
| "to_op (EthGetTransactionCount address blockTag) = OpGetTransactionCount address blockTag"
| "to_op (EthGetCode address blockTag) = OpGetCode address blockTag"
| "to_op (EthGetBlockByHash blockHash fullTransactions) = OpGetBlockByHash blockHash fullTransactions"
| "to_op (EthGetBlockByNumber blockTag fullTransactions) = OpGetBlockByNumber blockTag fullTransactions"
| "to_op (EthGetUncleCountByBlockNumber blockTag) = OpGetUncleCountByBlockNumber blockTag"
| "to_op (EthGetUncleCountByBlockHash blockHash) = OpGetUncleCountByBlockHash blockHash"
| "to_op (EthGetBlockTransactionCountByNumber blockTag) = OpGetBlockTransactionCountByNumber blockTag"
| "to_op (EthGetBlockTransactionCountByHash blockHash) = OpGetBlockTransactionCountByHash blockHash"
| "to_op (EthGetTransactionByBlockNumberAndIndex blockTag index) = OpGetTransactionByBlockNumberAndIndex blockTag index"
| "to_op (EthGetTransactionByBlockHashAndIndex blockHash index) = OpGetTransactionByBlockHashAndIndex blockHash index"
| "to_op (EthCall txArgs blockTag optimisticStateFetch) = OpCall txArgs blockTag optimisticStateFetch"
| "to_op (EthCreateAccessList txArgs blockTag optimisticStateFetch) = OpCreateAccessList txArgs blockTag optimisticStateFetch"
| "to_op (EthEstimateGas txArgs blockTag optimisticStateFetch) = OpEstimateGas txArgs blockTag optimisticStateFetch"
| "to_op (EthGetTransactionByHash txHash) = OpGetTransactionByHash txHash"
| "to_op (EthGetBlockReceipts blockTag) = OpGetBlockReceipts blockTag"
| "to_op (EthGetTransactionReceipt txHash) = OpGetTransactionReceipt txHash"
| "to_op (EthGetLogs filterOptions) = OpGetLogs filterOptions"
| "to_op (EthNewFilter filterOptions) = OpNewFilter filterOptions"
| "to_op (EthUninstallFilter filterId) = OpUninstallFilter filterId"
| "to_op (EthGetFilterLogs filterId) = OpGetFilterLogs filterId"
| "to_op (EthGetFilterChanges filterId) = OpGetFilterChanges filterId"
| "to_op EthBlobBaseFee = OpBlobBaseFee"
| "to_op EthGasPrice = OpGasPrice"
| "to_op EthMaxPriorityFeePerGas = OpMaxPriorityFeePerGas"
| "to_op (EthFeeHistory blockCount newestBlock rewardPercentiles) = OpFeeHistory blockCount newestBlock rewardPercentiles"
| "to_op (EthSendRawTransaction txHexBytes) = OpSendRawTransaction txHexBytes"

datatype typed_call = Eth eth_method | Op op_method

definition typed_request :: "typed_call \<Rightarrow> string \<times> json list" where
  "typed_request c = (case c of Eth m \<Rightarrow> eth_request m | Op m \<Rightarrow> op_request m)"

section \<open>Names and parameters\<close>

lemma quantityHex_inj [simp]: "quantityHex a = quantityHex b \<longleftrightarrow> a = b"
proof
  assume "quantityHex a = quantityHex b"
  then have "nat_of_hex (hex_of_nat (unat a)) = nat_of_hex (hex_of_nat (unat b))" by (simp add: quantityHex_def)
  then show "a = b" by (simp only: nat_of_hex_of_nat word_unat_eq_iff)
qed simp

lemma eth_request_inj: "eth_request c = eth_request d \<Longrightarrow> c = d"
  by (cases c; cases d) simp_all

lemma op_request_to_op:
  "op_request (to_op c) = (''op_'' @ drop 4 (fst (eth_request c)), snd (eth_request c))"
  by (cases c) simp_all

lemma eth_request_prefix: "fst (eth_request c) = ''eth_'' @ drop 4 (fst (eth_request c))"
  by (cases c) simp_all

lemma to_op_surj: "\<exists>c. m = to_op c"
  by (cases m) (metis to_op.simps)+

lemma op_request_inj:
  assumes "op_request m = op_request n"
  shows "m = n"
proof -
  obtain c d where "m = to_op c" "n = to_op d" using to_op_surj by blast
  moreover have "eth_request c = eth_request d"
  proof (rule prod_eqI)
    show "snd (eth_request c) = snd (eth_request d)" using assms calculation by (simp add: op_request_to_op)
    have "drop 4 (fst (eth_request c)) = drop 4 (fst (eth_request d))"
      using assms calculation by (simp add: op_request_to_op)
    then have "''eth_'' @ drop 4 (fst (eth_request c)) = ''eth_'' @ drop 4 (fst (eth_request d))" by (rule arg_cong)
    then show "fst (eth_request c) = fst (eth_request d)" by (simp only: eth_request_prefix [symmetric])
  qed
  ultimately show ?thesis using eth_request_inj by blast
qed

text \<open>The two surfaces share no method.\<close>

lemma eth_op_disjoint: "eth_request m \<noteq> op_request n"
proof
  assume e: "eth_request m = op_request n"
  obtain c where "n = to_op c" using to_op_surj by blast
  then have "hd (fst (op_request n)) = CHR ''o''" by (simp add: op_request_to_op)
  moreover have "hd (fst (eth_request m)) = CHR ''e''" by (cases m) simp_all
  ultimately show False using e by simp
qed

lemma typed_request_inj: "typed_request c = typed_request d \<Longrightarrow> c = d"
  by (cases c; cases d)
    (auto simp: typed_request_def eth_op_disjoint eth_op_disjoint [symmetric] dest: eth_request_inj op_request_inj)

text \<open>
  No two typed calls are confused: a method of the surface with its arguments is determined
  by the JSON-RPC method and parameters it sends, over both chains; an index or a block count
  travels as a hex quantity that names its value uniquely.
\<close>

theorem typed_calls_distinct:
  "(typed_request c = typed_request d) = (c = d)"
  using typed_request_inj by blast

text \<open>
  The OP-Stack surface mirrors the Ethereum one: every method has its twin, whose name differs
  only in the prefix and whose parameters are the same, and there are no others.
\<close>

theorem op_surface_mirrors_eth:
  "op_request (to_op c) = (''op_'' @ drop 4 (fst (eth_request c)), snd (eth_request c))
   \<and> fst (eth_request c) = ''eth_'' @ drop 4 (fst (eth_request c)) \<and> (\<exists>e. m = to_op e)"
  using op_request_to_op eth_request_prefix to_op_surj by blast

section \<open>Typed calls over HTTP\<close>

lemma typed_params_complete: "adapt_params (fst (typed_request c)) (snd (typed_request c)) = snd (typed_request c)"
proof (cases c)
  case (Eth m)
  then show ?thesis by (cases m) (simp_all add: typed_request_def adapt_params_def takesOptimisticStateFetch_def)
next
  case (Op m)
  then show ?thesis by (cases m) (simp_all add: typed_request_def adapt_params_def takesOptimisticStateFetch_def)
qed

text \<open>The request an HTTP client sends for a method and its parameters.\<close>

definition http_request :: "json \<Rightarrow> string \<Rightarrow> json list \<Rightarrow> json" where
  "http_request rid m ps = jobj [(''method'', JStr m), (''params'', JArr ps), (''id'', rid)]"

lemma handle_http_request:
  assumes "rid \<noteq> JNull"
  shows "handleOne dispatch (http_request rid m ps) s =
    (case dispatch m (JArr (adapt_params m ps)) s of
       (Inl e, s') \<Rightarrow> (Inl e, s') | (Inr r, s') \<Rightarrow> (Inr (Some (answer rid r)), s'))"
  using assms by (simp add: handleOne_def http_request_def is_notification_def contains_def request_id_def
      request_params_def json_simps Let_def cong: sum.case_cong)

text \<open>
  C32: One verification path: a typed call and the HTTP request with the same method and
  parameters make the same verified call and report its outcome; for the three calls that take the
  upstream flag, the standard request without it makes the typed call with the flag off.
\<close>

theorem http_takes_typed_path:
  assumes "rid \<noteq> JNull"
  shows "handleOne dispatch (http_request rid (fst (typed_request c)) (snd (typed_request c))) s =
      (case dispatch (fst (typed_request c)) (JArr (snd (typed_request c))) s of
         (Inl e, s') \<Rightarrow> (Inl e, s') | (Inr r, s') \<Rightarrow> (Inr (Some (answer rid r)), s'))
    \<and> (c \<in> {Eth (EthCall tx tag False), Eth (EthCreateAccessList tx tag False), Eth (EthEstimateGas tx tag False),
            Op (OpCall tx tag False), Op (OpCreateAccessList tx tag False), Op (OpEstimateGas tx tag False)} \<longrightarrow>
       handleOne dispatch (http_request rid (fst (typed_request c)) [tx, JStr tag]) s =
       handleOne dispatch (http_request rid (fst (typed_request c)) (snd (typed_request c))) s)"
  using assms
  by (auto simp: handle_http_request typed_params_complete)
    (simp_all add: typed_request_def adapt_params_def takesOptimisticStateFetch_def)

theorem http_takes_typed_path_witness:
  "handleOne echo (http_request (JInt 3) ''eth_call'' [JNull, JStr ''latest'']) [] =
   handleOne echo (http_request (JInt 3) ''eth_call'' [JNull, JStr ''latest'', JBool False]) []"
  using http_takes_typed_path [of "JInt 3" echo "Eth (EthCall JNull ''latest'' False)" "[]" JNull "''latest''"]
  by (simp add: typed_request_def)

end
