(* ===== verification/Module_Impl.thy ===== *)
theory Module_Impl
  imports Runtime_Lifecycle Admission_Properties Beacon_Sources Config_Facts Rpc_Properties
begin

text \<open>
  The module itself, \<^verbatim>\<open>src/verified_proxy_impl.cpp\<close>: configuration and its persistence, the start
  and stop that put the runtime and the HTTP endpoint together, the status view, and the one path
  every verified call takes. What the module gets from outside it, the host's directory and its
  files, the beacon module, the address parser and the HTTP library, is the record \<open>host\<close>.
\<close>

section \<open>State\<close>

text \<open>\<open>ms_persisted\<close> is the text of \<^verbatim>\<open>config.json\<close> in the host's directory, if the file is there.\<close>

record 'd module_state =
  ms_cfg :: "ProxyConfig option"
  ms_configured :: bool
  ms_beaconUrls :: "string list"
  ms_http :: "'d http_server option"
  ms_rt :: rt
  ms_persisted :: "string option"

text \<open>
  The host. The printer of the persisted file may throw, as the JSON library does on text that is
  not UTF-8; \<open>h_until_started\<close> and \<open>h_until_stopped\<close> are what the other threads do while a start or
  a stop waits.
\<close>

record 'd host =
  h_path :: string
  h_can_write :: bool
  h_parse :: "string \<Rightarrow> string + json"
  h_dump :: "json \<Rightarrow> string"
  h_dump2 :: "json \<Rightarrow> exn + string"
  h_env :: "string option"
  h_read_file :: "string \<Rightarrow> string option"
  h_bridge :: "i64 \<Rightarrow> exn + string list res"
  h_inet_pton :: "string \<Rightarrow> bool"
  h_start_daemon :: "string \<Rightarrow> u16 \<Rightarrow> u32 \<Rightarrow> 'd option"
  h_report :: "string \<Rightarrow> rt \<Rightarrow> string"
  h_snapshot :: DescriptorSnapshot
  h_secs :: int
  h_until_started :: "rt \<Rightarrow> rt"
  h_until_stopped :: "rt \<Rightarrow> rt"

definition new_module :: "bool \<Rightarrow> string option \<Rightarrow> 'd module_state" where
  "new_module emitter persisted =
    \<lparr>ms_cfg = None, ms_configured = False, ms_beaconUrls = [], ms_http = None,
     ms_rt = new_runtime emitter, ms_persisted = persisted\<rparr>"

section \<open>Configuration\<close>

definition readEnvConfig :: "'d host \<Rightarrow> string" where
  "readEnvConfig h =
     (case h_env h of
        None \<Rightarrow> []
      | Some v \<Rightarrow>
          if v = [] then []
          else case find_first_not_of blanks v of
              Some i \<Rightarrow> if v ! i = CHR 0x7B then v
                        else (case h_read_file h v of None \<Rightarrow> [] | Some t \<Rightarrow> t)
            | None \<Rightarrow> (case h_read_file h v of None \<Rightarrow> [] | Some t \<Rightarrow> t))"

text \<open>The file is emptied when it is opened, so a printer that throws leaves it empty.\<close>

definition persist :: "'d host \<Rightarrow> ProxyConfig \<Rightarrow> 'd module_state \<Rightarrow> (exn + unit) \<times> 'd module_state" where
  "persist h cfg s =
     (if h_path h = [] \<or> \<not> h_can_write h then (Inr (), s)
      else case h_dump2 h (raw_config cfg) of
          Inl e \<Rightarrow> (Inl e, s\<lparr>ms_persisted := Some []\<rparr>)
        | Inr t \<Rightarrow> (Inr (), s\<lparr>ms_persisted := Some t\<rparr>))"

definition configure :: "'d host \<Rightarrow> json \<Rightarrow> 'd module_state \<Rightarrow> (exn + StdLogosResult) \<times> 'd module_state" where
  "configure h config s =
     (case fromJson config of
        Inl err \<Rightarrow> (Inr (fail_result err), s)
      | Inr cfg \<Rightarrow>
          if running (ms_rt s)
          then (Inr (fail_result ''cannot reconfigure while the proxy is running; call stop() first''), s)
          else (case persist h cfg (s\<lparr>ms_cfg := Some cfg, ms_configured := True\<rparr>) of
                  (Inl e, s1) \<Rightarrow> (Inl e, s1)
                | (Inr _, s1) \<Rightarrow> (Inr (ok_result JNull), s1)))"

definition getConfig :: "'d module_state \<Rightarrow> json" where
  "getConfig s =
     (case ms_cfg s of
        Some cfg \<Rightarrow> if ms_configured s then redacted_config cfg else JObj []
      | None \<Rightarrow> JObj [])"

definition getConfigUnredacted :: "'d module_state \<Rightarrow> json" where
  "getConfigUnredacted s =
     (case ms_cfg s of
        Some cfg \<Rightarrow> if ms_configured s then raw_config cfg else JObj []
      | None \<Rightarrow> JObj [])"

definition defaultConfig :: "string \<Rightarrow> json" where
  "defaultConfig nw =
     (case networkProfile nw of
        None \<Rightarrow> JObj []
      | Some _ \<Rightarrow>
          (case fromJson (jobj [(''network'', JStr nw),
                                (''trustedBlockRoot'', JStr (''0x'' @ replicate 64 CHR ''0''))]) of
             Inl _ \<Rightarrow> JObj []
           | Inr cfg \<Rightarrow> jput (raw_config cfg) ''trustedBlockRoot'' (JStr [])))"

section \<open>Start and stop\<close>

text \<open>The configuration of the run: in module mode the beacon URLs are those of the beacon module.\<close>

definition run_config :: "'d host \<Rightarrow> ProxyConfig \<Rightarrow> exn + ProxyConfig res" where
  "run_config h cfg =
     (if beaconSource cfg = ''module'' then
        map_res (\<lambda>r. case r of
            Inl err \<Rightarrow> Inl (''cannot start with beaconSource '' @ [CHR 0x22] @ ''module'' @ [CHR 0x22] @ '': '' @ err)
          | Inr urls \<Rightarrow>
              if urls = [] then Inl (''cannot start with beaconSource '' @ [CHR 0x22] @ ''module'' @ [CHR 0x22] @ '': '')
              else Inr (cfg\<lparr>beaconApiUrls := urls\<rparr>))
          (h_bridge h (expectedChainId cfg))
      else Inr (Inr cfg))"

definition http_limit :: "rt \<Rightarrow> u32" where
  "http_limit r = word_of_int (min (sint (m_effectiveMaxInFlight r)) (2 ^ 32 - 1))"

text \<open>The endpoint of a run that started; without it the run is stopped again.\<close>

definition open_endpoint :: "'d host \<Rightarrow> ProxyConfig \<Rightarrow> 'd module_state \<Rightarrow> StdLogosResult \<times> 'd module_state" where
  "open_endpoint h cfg s =
     (case http_start (h_inet_pton h) (h_start_daemon h) (httpHost cfg) (word_of_int (sint (httpPort cfg)))
             (http_limit (ms_rt s)) new_http_server of
        (Some err, _) \<Rightarrow>
          (fail_result (''proxy started but the JSON-RPC endpoint could not: '' @ err),
           s\<lparr>ms_http := None, ms_rt := snd (stop_op (h_report h) (h_until_stopped h) (ms_rt s))\<rparr>)
      | (None, srv) \<Rightarrow>
          (ok_result (jobj [(''chainId'', JInt (expectedChainId cfg)), (''endpoint'', JStr (http_endpoint srv))]),
           s\<lparr>ms_http := Some srv\<rparr>))"

definition start :: "'d host \<Rightarrow> 'd module_state \<Rightarrow> (exn + StdLogosResult) \<times> 'd module_state" where
  "start h s =
     (if \<not> ms_configured s
      then (Inr (fail_result (''not configured '' @ em_dash @ '' call configure() first'')), s)
      else if live (ms_rt s) then (Inr (fail_result ''proxy already started''), s)
      else case ms_cfg s of
          None \<Rightarrow> (Inr (fail_result []), s)
        | Some own \<Rightarrow>
            (case run_config h own of
               Inl e \<Rightarrow> (Inl e, s)
             | Inr (Inl err) \<Rightarrow> (Inr (fail_result err), s)
             | Inr (Inr cfg) \<Rightarrow>
                 let (r, rt1) = start_op (h_dump h) (h_report h) (h_snapshot h) (h_secs h) (h_until_started h) cfg (ms_rt s);
                     s1 = s\<lparr>ms_rt := rt1\<rparr>;
                     s2 = (if success r then s1\<lparr>ms_beaconUrls := beaconApiUrls cfg\<rparr> else s1)
                 in if \<not> success r \<or> \<not> httpEnabled own then (Inr r, s2)
                    else (case open_endpoint h own s2 of (r2, s3) \<Rightarrow> (Inr r2, s3))))"

definition stop :: "'d host \<Rightarrow> 'd module_state \<Rightarrow> StdLogosResult \<times> 'd module_state" where
  "stop h s =
     (case stop_op (h_report h) (h_until_stopped h) (ms_rt s) of
        (r, rt1) \<Rightarrow> (r, s\<lparr>ms_http := None, ms_rt := rt1\<rparr>))"

definition localEndpoint :: "'d module_state \<Rightarrow> string" where
  "localEndpoint s = (case ms_http s of None \<Rightarrow> [] | Some srv \<Rightarrow> http_endpoint srv)"

definition module_ok :: "'d module_state \<Rightarrow> bool" where
  "module_ok s \<longleftrightarrow> running (ms_rt s)"

text \<open>
  \<^verbatim>\<open>onContextReady\<close>. Every exception of the two steps is caught; what was done before it stays.
\<close>

definition load_env :: "'d host \<Rightarrow> 'd module_state \<Rightarrow> 'd module_state" where
  "load_env h s =
     (if readEnvConfig h = [] then s
      else case h_parse h (readEnvConfig h) of Inl _ \<Rightarrow> s | Inr j \<Rightarrow> snd (configure h j s))"

definition load_persisted :: "'d host \<Rightarrow> 'd module_state \<Rightarrow> 'd module_state" where
  "load_persisted h s =
     (case ms_persisted s of
        None \<Rightarrow> s
      | Some t \<Rightarrow>
          if t = [] then s
          else case h_parse h t of
              Inl _ \<Rightarrow> s
            | Inr j0 \<Rightarrow>
                (case migrateRetiredDefaults j0 of
                   Inl _ \<Rightarrow> s
                 | Inr (j, _) \<Rightarrow>
                     (case configure h j s of
                        (Inl _, s1) \<Rightarrow> s1
                      | (Inr r, s1) \<Rightarrow>
                          if \<not> success r then s1
                          else (case value_bool j ''autoStart'' False of
                                  Inl _ \<Rightarrow> s1
                                | Inr auto \<Rightarrow> if auto then snd (start h s1) else s1))))"

definition onContextReady :: "'d host \<Rightarrow> 'd module_state \<Rightarrow> 'd module_state" where
  "onContextReady h s =
     (let s1 = load_env h s in if h_path h = [] then s1 else load_persisted h s1)"

section \<open>Views\<close>

definition status_state :: "bool \<Rightarrow> json \<Rightarrow> json" where
  "status_state configured snapshot =
     (if \<not> configured then jput snapshot ''state'' (JStr ''uninitialized'')
      else if jfield snapshot ''state'' = Some (JStr ''uninitialized'') then jput snapshot ''state'' (JStr ''configured'')
      else snapshot)"

definition status_config :: "'d module_state \<Rightarrow> json \<Rightarrow> json" where
  "status_config s j =
     (case ms_cfg s of
        Some cfg \<Rightarrow>
          if ms_configured s then
            jput (jput (jput j ''network'' (JStr (network cfg))) ''chainId'' (JInt (expectedChainId cfg)))
              ''beacon'' (jobj [(''source'', JStr (beaconSource cfg)), (''urls'', redactedUrls (ms_beaconUrls s))])
          else j
      | None \<Rightarrow> j)"

text \<open>The two versions are stamped by the build.\<close>

definition status :: "string \<Rightarrow> string \<Rightarrow> DescriptorSnapshot \<Rightarrow> int \<Rightarrow> 'd module_state \<Rightarrow> json" where
  "status moduleVersion libraryVersion snap secs s =
     (let j0 = status_state (ms_configured s) (statusSnapshot snap secs (ms_rt s));
          j1 = status_config s j0;
          j2 = jput (jput j1 ''moduleVersion'' (JStr moduleVersion)) ''libraryVersion'' (JStr libraryVersion);
          up = (case ms_http s of None \<Rightarrow> False | Some srv \<Rightarrow> http_running srv)
      in jput j2 ''httpServer'' (jobj [(''running'', JBool up), (''endpoint'', JStr (localEndpoint s))]))"

definition supportedNetworks :: json where
  "supportedNetworks = JArr (map (\<lambda>p. jobj
     [(''name'', JStr (np_name p)), (''chainId'', JInt (np_chainId p)),
      (''beaconApiUrl'', JStr (np_beaconApiUrl p)), (''executionApiUrl'', JStr (np_executionApiUrl p))]) networkProfiles)"

section \<open>Verified calls\<close>

text \<open>
  What surrounds one call: the descriptor query and the clock on entry, the wake-ups of its wait,
  and what the other threads do around it. The timed wait of the C++ library wakes the caller at
  its deadline at the latest, so that wake-up ends the list.
\<close>

record call_env =
  ce_snapshot :: DescriptorSnapshot
  ce_now :: int
  ce_wakeups :: "rt wakeup list"
  ce_mid :: "rt \<Rightarrow> rt"
  ce_until :: "rt \<Rightarrow> rt"

definition deadline_wakeup :: "call_env \<Rightarrow> rt \<Rightarrow> rt wakeup" where
  "deadline_wakeup e r =
     \<lparr>wk_interfere = (\<lambda>q. q), wk_snapshot = ce_snapshot e, wk_now = ce_now e + sint (queueTimeoutMs (m_cfg r))\<rparr>"

definition runtime_call ::
  "(string \<Rightarrow> string + json) \<Rightarrow> (json \<Rightarrow> exn + string) \<Rightarrow> (string \<Rightarrow> rt \<Rightarrow> string) \<Rightarrow> call_env
     \<Rightarrow> string \<Rightarrow> json \<Rightarrow> rt \<Rightarrow> ((exn + StdLogosResult) \<times> rt) option" where
  "runtime_call parse dump report e method params r =
     call_op parse dump report (ce_snapshot e) (ce_now e) (ce_wakeups e @ [deadline_wakeup e r])
       (ce_mid e) (ce_until e) method params r"

definition rpc ::
  "(string \<Rightarrow> string + json) \<Rightarrow> (json \<Rightarrow> exn + string) \<Rightarrow> (string \<Rightarrow> rt \<Rightarrow> string) \<Rightarrow> call_env
     \<Rightarrow> string \<Rightarrow> json \<Rightarrow> rt \<Rightarrow> ((exn + StdLogosResult) \<times> rt) option" where
  "rpc parse dump report e method params r =
     runtime_call parse dump report e method (if params = JNull then JArr [] else params) r"

text \<open>
  The dispatcher the HTTP endpoint gets; \<open>what\<close> is the text of an exception. Its callee always returns, so the last case of the option
  is not reached.
\<close>

definition http_dispatch ::
  "(string \<Rightarrow> string + json) \<Rightarrow> (json \<Rightarrow> exn + string) \<Rightarrow> (exn \<Rightarrow> string) \<Rightarrow> (string \<Rightarrow> rt \<Rightarrow> string)
     \<Rightarrow> (string \<Rightarrow> rt \<Rightarrow> call_env) \<Rightarrow> rt dispatch" where
  "http_dispatch parse dump what report envs method params r =
     (case runtime_call parse dump report (envs method r) method params r of
        Some (Inr res, r') \<Rightarrow> (Inr res, r')
      | Some (Inl e, r') \<Rightarrow> (Inl (StdException (what e)), r')
      | None \<Rightarrow> (Inl OtherThrown, r))"

lemma call_returns_by_deadline:
  "\<exists>res r'. runtime_call parse dump report e method params r = Some (res, r')
     \<and> (case res of Inl exn \<Rightarrow> dump params = Inl exn | Inr _ \<Rightarrow> True)"
proof -
  let ?ks = "ce_wakeups e @ [deadline_wakeup e r]"
  obtain out r1 where run: "waitForAdmission (ce_snapshot e) (ce_now e) ?ks r = (out, r1)" by fastforce
  have "out \<noteq> Waiting w" for w
    by (rule wait_ends [OF run, where k = "deadline_wakeup e r"]) (simp_all add: deadline_wakeup_def)
  then show ?thesis
    using run
    by (cases out) (auto simp: runtime_call_def call_op_def split: option.split prod.split sum.split)
qed

text \<open>
  Over HTTP the parameters come from parsed text, which is valid UTF-8, so the printer of the
  parameters does not fail there.
\<close>

interpretation endpoint: rpc_backend "http_dispatch parse (\<lambda>j. Inr (dump j)) what report envs" for parse dump what report envs
proof
  fix m ps r
  obtain res r' where "runtime_call parse (\<lambda>j. Inr (dump j)) report (envs m r) m (JArr ps) r = Some (res, r')"
      "case res of Inl exn \<Rightarrow> (Inr (dump (JArr ps)) :: exn + string) = Inl exn | Inr _ \<Rightarrow> True"
    using call_returns_by_deadline [of parse "\<lambda>j. Inr (dump j)" report "envs m r" m "JArr ps" r] by blast
  then show "\<exists>res r'. http_dispatch parse (\<lambda>j. Inr (dump j)) what report envs m (JArr ps) r = (Inr res, r')"
    by (cases res) (auto simp: http_dispatch_def)
qed

end
