(* ===== verification/Module_Properties.thy ===== *)
theory Module_Properties
  imports Module_Impl
begin

text \<open>
  The properties of the module as a whole: what a configuration call accepts, keeps and writes, what
  a reload brings back, how a start and its endpoint belong together, what the status shows, and
  that every verified call and every HTTP body is answered.
\<close>

section \<open>Configuration\<close>

text \<open>
  C33: A configuration is taken exactly when it is valid and the proxy is not Running. Then it is
  the one both views show, redacted and in full, and, if the host's directory can be written, the
  one on disk, in full; the runtime is not touched. A configuration that is not taken gives an
  error and changes nothing.
\<close>

theorem configure_outcomes:
  assumes "configure h config s = (Inr out, s')"
  shows "(if success out
      then (\<exists>cfg. fromJson config = Inr cfg \<and> \<not> running (ms_rt s)
         \<and> getConfigUnredacted s' = raw_config cfg \<and> getConfig s' = redacted_config cfg
         \<and> (h_path h \<noteq> [] \<and> h_can_write h \<longrightarrow>
              (\<exists>t. h_dump2 h (raw_config cfg) = Inr t \<and> ms_persisted s' = Some t))
         \<and> ms_rt s' = ms_rt s \<and> ms_http s' = ms_http s)
      else s' = s \<and> ((\<exists>err. fromJson config = Inl err \<and> result_error out = err) \<or> running (ms_rt s)))"
  using assms
  by (auto simp: configure_def persist_def getConfig_def getConfigUnredacted_def split: sum.splits if_splits)

definition sample_host :: "(string \<Rightarrow> string + json) \<Rightarrow> string option \<Rightarrow> unit host" where
  "sample_host parse env =
    \<lparr>h_path = ''/var/lib/proxy'', h_can_write = True, h_parse = parse, h_dump = (\<lambda>_. []),
     h_dump2 = (\<lambda>j. Inr ''config''), h_env = env, h_read_file = (\<lambda>_. None),
     h_bridge = (\<lambda>_. Inr (Inr [''https://beacon.example''])), h_inet_pton = (\<lambda>_. True),
     h_start_daemon = (\<lambda>_ _ _. Some ()), h_report = (\<lambda>what r. what),
     h_snapshot = \<lparr>softLimit = 4096, openCount = 16\<rparr>, h_secs = 1000,
     h_until_started = (\<lambda>r. r\<lparr>m_startDone := True, m_startOk := True, m_state := Running\<rparr>),
     h_until_stopped = (\<lambda>r. r\<lparr>m_runFinished := True\<rparr>)\<rparr>"

lemma configure_minimal:
  "configure (sample_host parse env) (minimal_json ''mainnet'' zero_root) (new_module False p) =
     (Inr (ok_result JNull), (new_module False p)\<lparr>ms_cfg := Some (minimal_config (networkProfiles ! 0) zero_root),
        ms_configured := True, ms_persisted := Some ''config''\<rparr>)"
  by (simp add: configure_def fromJson_mainnet persist_def sample_host_def new_module_def running_def new_runtime_def)

theorem configure_outcomes_witness:
  "\<exists>s'. configure (sample_host (\<lambda>_. Inl []) None) (minimal_json ''mainnet'' zero_root) (new_module False None) =
       (Inr (ok_result JNull), s')
     \<and> getConfig s' = redacted_config (minimal_config (networkProfiles ! 0) zero_root)
     \<and> ms_persisted s' = Some ''config''"
  using configure_outcomes [OF configure_minimal [of "\<lambda>_. Inl []" None None]] configure_minimal [of "\<lambda>_. Inl []" None None]
  by (auto simp: fromJson_mainnet sample_host_def)


definition mainnet_config :: ProxyConfig where
  "mainnet_config = minimal_config (networkProfiles ! 0) zero_root"

definition disk_host :: "string option \<Rightarrow> unit host" where
  "disk_host env = (sample_host (\<lambda>t. if t = ''config'' then Inr (raw_config mainnet_config)
       else if t = ''{}'' then Inr (minimal_json ''mainnet'' zero_root) else Inl ''no'') env)
     \<lparr>h_dump2 := (\<lambda>j. if j = raw_config mainnet_config then Inr ''config'' else Inl TypeError)\<rparr>"

lemma raw_not_retired:
  "migrateRetiredDefaults (raw_config mainnet_config) = Inr (raw_config mainnet_config, False)"
  by (simp add: migrateRetiredDefaults_def raw_fields value_string_def mainnet_config_def minimal_config_def
      networkProfiles_def retired_def url_view_def networkProfile_def)


text \<open>
  A deploy-time configuration that is valid replaces the one a user had saved: the call that
  takes it also writes it to the file the module then reads, so what was persisted before makes no
  difference to the state after the load. The comment there says that the persisted one wins.
\<close>

theorem env_config_overwrites_persisted:
  assumes "readEnvConfig h \<noteq> []" "h_parse h (readEnvConfig h) = Inr j" "fromJson j = Inr cfg"
    and "h_path h \<noteq> []" "h_can_write h" "h_dump2 h (raw_config cfg) = Inr t"
  shows "onContextReady h (new_module emitter saved) = onContextReady h (new_module emitter None)"
proof -
  have "configure h j (new_module emitter p) = (Inr (ok_result JNull),
      (new_module emitter None)\<lparr>ms_cfg := Some cfg, ms_configured := True, ms_persisted := Some t\<rparr>)" for p
    using assms(3-6) by (simp add: configure_def persist_def new_module_def running_def new_runtime_def)
  then show ?thesis using assms(1,2) by (simp add: onContextReady_def load_env_def)
qed

theorem env_config_overwrites_persisted_witness:
  "onContextReady (disk_host (Some ''{}'')) (new_module False (Some ''mine'')) =
   onContextReady (disk_host (Some ''{}'')) (new_module False None)"
proof -
  have env: "readEnvConfig (disk_host (Some ''{}'')) = ''{}''"
    by (simp add: readEnvConfig_def disk_host_def sample_host_def blanks_def)
  show ?thesis
    by (rule env_config_overwrites_persisted [of _ "minimal_json ''mainnet'' zero_root" mainnet_config "''config''"])
      (simp_all add: env fromJson_mainnet, simp_all add: disk_host_def sample_host_def mainnet_config_def)
qed

section \<open>The template of a network\<close>

text \<open>Objects with their keys in order are equal when all their fields are.\<close>

lemma sorted_map_eqI:
  assumes "sorted_wrt (<) (map fst m)" "sorted_wrt (<) (map fst n)" "map_of m = map_of n"
  shows "m = (n :: (string \<times> json) list)"
proof -
  have "sorted (map fst m)" "distinct (map fst m)" "sorted (map fst n)" "distinct (map fst n)"
    using assms(1,2) by (simp_all add: strict_sorted_iff)
  moreover from this have "set m = set n" using assms(3) by (metis map_of_inject_set)
  ultimately show ?thesis by (intro map_sorted_distinct_set_unique [of fst]) (auto simp: inj_on_def distinct_map dest: map_of_is_SomeI)
qed

lemma set_root_raw:
  "jput (raw_config c) ''trustedBlockRoot'' (JStr r) = raw_config (c\<lparr>trustedBlockRoot := r\<rparr>)"
proof -
  obtain m where m: "raw_config c = JObj m" "sorted_wrt (<) (map fst m)"
    using sorted_jobj by (auto simp: raw_config_def asJson_def jobj_def)
  obtain n where n: "raw_config (c\<lparr>trustedBlockRoot := r\<rparr>) = JObj n" "sorted_wrt (<) (map fst n)"
    using sorted_jobj by (auto simp: raw_config_def asJson_def jobj_def)
  have "jfield (jput (raw_config c) ''trustedBlockRoot'' (JStr r)) k = jfield (raw_config (c\<lparr>trustedBlockRoot := r\<rparr>)) k" for k
    by (simp add: json_simps) (simp add: raw_config_def asJson_def json_simps expectedChainId_def tuning_view_def)
  then have "map_of (map_put ''trustedBlockRoot'' (JStr r) m) = map_of n" using m(1) n(1) by (simp add: fun_eq_iff)
  then have "map_put ''trustedBlockRoot'' (JStr r) m = n"
    using m(2) n(2) sorted_map_put by (intro sorted_map_eqI) auto
  then show ?thesis using m(1) n(1) by simp
qed

lemma minimal_root: "(minimal_config p r)\<lparr>trustedBlockRoot := r'\<rparr> = minimal_config p r'"
  by (simp add: minimal_config_def default_config_def)

text \<open>
  The template of a supported network is what the module would run with: it is refused as it
  is, for its empty trusted root only, and with any well-formed root filled in it is accepted and
  resolves to exactly the configuration of the network and that root alone. An unsupported network
  has no template.
\<close>

theorem template_needs_only_root:
  "case networkProfile nw of
     None \<Rightarrow> defaultConfig nw = JObj []
   | Some p \<Rightarrow> (\<exists>e. fromJson (defaultConfig nw) = Inl e \<and> prefix (quoted ''trustedBlockRoot'') e)
       \<and> (if root_ok r then fromJson (jput (defaultConfig nw) ''trustedBlockRoot'' (JStr r)) = fromJson (minimal_json nw r)
            \<and> fromJson (minimal_json nw r) = Inr (minimal_config p r) else True)"
proof (cases "networkProfile nw")
  case None
  then show ?thesis by (simp add: defaultConfig_def)
next
  case (Some p)
  have "fromJson (jobj [(''network'', JStr nw), (''trustedBlockRoot'', JStr (''0x'' @ replicate 64 CHR ''0''))])
      = Inr (minimal_config p zero_root)"
    using fromJson_minimal_eval [OF Some root_ok_zero] by (simp only: minimal_json_def zero_root_def)
  then have d: "defaultConfig nw = raw_config (minimal_config p [])"
    using Some by (simp add: defaultConfig_def set_root_raw minimal_root)
  have "fromJson (jput (defaultConfig nw) ''trustedBlockRoot'' (JStr r)) = Inr (minimal_config p r)" if "root_ok r"
  proof -
    have "jput (defaultConfig nw) ''trustedBlockRoot'' (JStr r) = raw_config (minimal_config p r)"
      by (simp add: d set_root_raw minimal_root)
    then show ?thesis
      using fromJson_raw [OF fromJson_valid [OF fromJson_minimal_eval [OF Some that]]] by simp
  qed
  moreover have "\<exists>e. fromJson (defaultConfig nw) = Inl e \<and> prefix (quoted ''trustedBlockRoot'') e"
  proof -
    have "network (minimal_config p []) \<in> set kNetworks" "logLevel (minimal_config p []) \<in> set kLogLevels"
        "logFormat (minimal_config p []) \<in> set kLogFormats" "trustedBlockRoot (minimal_config p []) = []"
      using Some networkProfile_Some [OF Some] default_whitelisted kNetworks_iff [of nw]
      by (simp_all add: minimal_config_def)
    then show ?thesis
      by (simp add: d fromJson_def identity_steps_def reader_evals raw_fields read_root_def root_ok_def prefix_def)
  qed
  ultimately show ?thesis using Some fromJson_minimal_eval [OF Some] by auto
qed

section \<open>Start and endpoint\<close>


text \<open>
  A configured module whose configuration asks for the endpoint, and takes the beacon URLs from
  the beacon module.
\<close>

definition endpoint_config :: ProxyConfig where
  "endpoint_config = mainnet_config\<lparr>httpEnabled := True\<rparr>"

definition endpoint_module :: "unit module_state" where
  "endpoint_module = (new_module False None)\<lparr>ms_cfg := Some endpoint_config, ms_configured := True\<rparr>"

lemma endpoint_config_fields:
  "beaconSource endpoint_config = ''module''" "maxInFlight endpoint_config = 64" "httpEnabled endpoint_config"
  "fan_out_estimate (endpoint_config\<lparr>beaconApiUrls := us\<rparr>) = 12"
  by (simp_all add: endpoint_config_def mainnet_config_def minimal_config_def default_config_def fan_out_estimate_def)


lemma endpoint_room: "descriptorOperationCapacity \<lparr>softLimit = 4096, openCount = 16\<rparr> (i64_max 4 12) = 329"
  by code_simp

lemma endpoint_run:
  "\<exists>rt1. start_op d f \<lparr>softLimit = 4096, openCount = 16\<rparr> secs (\<lambda>r. r\<lparr>m_startDone := True, m_startOk := True, m_state := Running\<rparr>)
     (endpoint_config\<lparr>beaconApiUrls := us\<rparr>) (new_runtime False) = (ok_result (jobj [(''chainId'', JInt (expectedChainId endpoint_config))]), rt1)
    \<and> m_effectiveMaxInFlight rt1 = 64"
  by (simp add: start_op_def start_begin_def Let_def endpoint_config_fields endpoint_room start_end_def start_reset_def
      new_runtime_def rt_defs expectedChainId_def i64_min_def)


section \<open>Status\<close>

lemma is_object_snapshot [simp]: "is_object (statusSnapshot snap secs r)"
  by (simp add: statusSnapshot_def Let_def)

lemma snapshot_state: "jfield (statusSnapshot snap secs r) ''state'' = Some (JStr (stateName (m_state r)))"
  by (simp add: statusSnapshot_def Let_def json_simps)

lemma is_object_status_state [simp]: "is_object j \<Longrightarrow> is_object (status_state b j)"
  by (simp add: status_state_def)

lemma is_object_status_config [simp]: "is_object j \<Longrightarrow> is_object (status_config s j)"
  by (simp add: status_config_def split: option.split)

text \<open>
  The status is about this module: it is uninitialized exactly until it is configured,
  configured before its first run, and in the runtime's state from then on; network, chain and
  beacon source are those of the module's configuration, also before a run; the beacon URLs are
  shown redacted only; and the endpoint is the one \<^verbatim>\<open>localEndpoint\<close> gives.
\<close>

theorem status_shows_module:
  "jfield (status mv lv snap secs s) ''state'' = Some (JStr
     (if \<not> ms_configured s then ''uninitialized''
      else if m_state (ms_rt s) = Idle then ''configured'' else stateName (m_state (ms_rt s))))
   \<and> (case ms_cfg s of None \<Rightarrow> True | Some cfg \<Rightarrow> if ms_configured s then
        jfield (status mv lv snap secs s) ''network'' = Some (JStr (network cfg))
        \<and> jfield (status mv lv snap secs s) ''chainId'' = Some (JInt (expectedChainId cfg))
        \<and> jfield (status mv lv snap secs s) ''beacon'' =
            Some (jobj [(''source'', JStr (beaconSource cfg)), (''urls'', JArr (map (JStr \<circ> redactUrl) (ms_beaconUrls s)))])
       else True)
   \<and> jfield (status mv lv snap secs s) ''httpServer'' =
       Some (jobj [(''running'', JBool (case ms_http s of None \<Rightarrow> False | Some srv \<Rightarrow> http_running srv)),
                   (''endpoint'', JStr (localEndpoint s))])"
proof -
  have idle: "stateName st = ''uninitialized'' \<longleftrightarrow> st = Idle" for st by (cases st) (simp_all add: stateName_def)
  show ?thesis
    by (simp add: status_def Let_def json_simps status_state_def status_config_def snapshot_state idle redactedUrls_def
        comp_def split: option.split)
qed

section \<open>Verified calls\<close>

text \<open>
  Every verified call returns: whatever the other threads do, whether there is room or not, a
  call ends with a result, or with the exception of the printer when its parameters cannot be
  printed. At most it waits for the admission deadline and for its own timeout.
\<close>

theorem calls_return:
  "\<exists>res r'. rpc parse dump report e method params r = Some (res, r')
     \<and> (case res of Inl exn \<Rightarrow> dump (if params = JNull then JArr [] else params) = Inl exn | Inr _ \<Rightarrow> True)"
  unfolding rpc_def by (rule call_returns_by_deadline)

text \<open>
  The endpoint lets no exception out on account of the runtime: with printers that do not
  fail, every body, well-formed or not, single or batch, ends in a text to send, possibly empty.
\<close>

theorem endpoint_answers_every_body:
  assumes "\<And>v. \<exists>t. print v = Inr t"
  shows "\<exists>out r'. handleBody parse print (http_dispatch lib_parse (\<lambda>j. Inr (dump j)) what report envs) body r = (Inr out, r')"
  by (rule endpoint.handleBody_returns [OF assms])

theorem endpoint_answers_every_body_witness:
  "\<exists>out r'. handleBody (\<lambda>_. Inl ''no'') (\<lambda>_. Inr ''x'') (http_dispatch (\<lambda>_. Inl []) (\<lambda>_. Inr []) (\<lambda>_. ''type'') (\<lambda>what r. what)
      (\<lambda>m r. \<lparr>ce_snapshot = unknown_snapshot, ce_now = 0, ce_wakeups = [], ce_mid = id, ce_until = id\<rparr>))
      ''{'' (new_runtime False) = (Inr out, r')"
  by (rule endpoint_answers_every_body) simp

end
