(* ===== verification/Json_Types.thy ===== *)
theory Json_Types
  imports Json_Value
begin

text \<open>
  Types of JSON values, and an executable check that a value has one. An object type lists the
  fields a value must have and those it may have; it has no others, and its keys are in order, each
  once, as the C++ library keeps them.
\<close>

section \<open>Types\<close>

datatype jtype =
    TAny
  | TBool
  | TInt
  | TString
  | TArray jtype
  | TObject "(string \<times> jtype) list" "(string \<times> jtype) list"

fun conforms :: "jtype \<Rightarrow> json \<Rightarrow> bool" where
  "conforms TAny j = True"
| "conforms TBool j = (case j of JBool _ \<Rightarrow> True | _ \<Rightarrow> False)"
| "conforms TInt j = (case j of JInt _ \<Rightarrow> True | _ \<Rightarrow> False)"
| "conforms TString j = (case j of JStr _ \<Rightarrow> True | _ \<Rightarrow> False)"
| "conforms (TArray t) j = (case j of JArr xs \<Rightarrow> list_all (conforms t) xs | _ \<Rightarrow> False)"
| "conforms (TObject req opt) j =
     (case j of
        JObj kvs \<Rightarrow>
          sorted_wrt (<) (map fst kvs) \<and> set (map fst kvs) \<subseteq> set (map fst (req @ opt))
          \<and> list_all (\<lambda>f. case map_of kvs (fst f) of Some v \<Rightarrow> conforms (snd f) v | None \<Rightarrow> False) req
          \<and> list_all (\<lambda>f. case map_of kvs (fst f) of Some v \<Rightarrow> conforms (snd f) v | None \<Rightarrow> True) opt
      | _ \<Rightarrow> False)"

section \<open>Values that are built\<close>

lemma fst_foldl_map_put:
  "fst ` set (foldl (\<lambda>acc (k, v). map_put k v acc) m kvs) = fst ` set m \<union> fst ` set kvs"
  by (induction kvs arbitrary: m) (auto simp: map_put_keys split_beta)

text \<open>An object literal has the type whose fields its entries have, by evaluation.\<close>

lemma conforms_jobj [simp]:
  "conforms (TObject req opt) (jobj kvs) \<longleftrightarrow>
     list_all (\<lambda>e. fst e \<in> fst ` set (req @ opt)) kvs
     \<and> list_all (\<lambda>f. case map_of (rev kvs) (fst f) of Some v \<Rightarrow> conforms (snd f) v | None \<Rightarrow> False) req
     \<and> list_all (\<lambda>f. case map_of (rev kvs) (fst f) of Some v \<Rightarrow> conforms (snd f) v | None \<Rightarrow> True) opt"
proof -
  let ?m = "foldl (\<lambda>acc (k, v). map_put k v acc) [] kvs"
  have m: "map_of ?m = map_of (rev kvs)" by (simp add: foldl_map_put)
  have "sorted_wrt (<) (map fst ?m)" by (rule sorted_jobj [of kvs]) (simp add: jobj_def)
  moreover have "set (map fst ?m) \<subseteq> set (map fst (req @ opt)) \<longleftrightarrow> list_all (\<lambda>e. fst e \<in> fst ` set (req @ opt)) kvs"
    by (simp only: set_map fst_foldl_map_put) (auto simp: list_all_iff image_subset_iff)
  ultimately show ?thesis by (simp add: jobj_def m del: set_map set_append map_append)
qed

text \<open>Assigning a field keeps the type when the field has its declared type.\<close>

lemma conforms_jput:
  assumes "conforms (TObject req opt) j" "k \<in> fst ` set (req @ opt)"
    and "\<And>t. (k, t) \<in> set (req @ opt) \<Longrightarrow> conforms t v"
  shows "conforms (TObject req opt) (jput j k v)"
  using assms
  by (cases j) (auto simp: list_all_iff map_put_keys sorted_map_put image_iff)

text \<open>Optional fields that are there may be required.\<close>

lemma conforms_require:
  assumes "conforms (TObject req (new @ opt)) j" "\<And>k. k \<in> fst ` set new \<Longrightarrow> jfield j k \<noteq> None"
  shows "conforms (TObject (req @ new) opt) j"
  using assms by (cases j) (force simp: list_all_iff split: option.splits)+

text \<open>The fields of a value that has an object type.\<close>

lemma conforms_field:
  assumes "conforms (TObject req opt) j" "(k, t) \<in> set req"
  shows "\<exists>v. jfield j k = Some v \<and> conforms t v"
  using assms by (cases j) (auto simp: list_all_iff split: option.splits)

declare conforms.simps(6) [simp del]

end
