(* ===== verification/Runtime_Events.thy ===== *)
theory Runtime_Events
  imports Runtime_Trace Json_Types
begin

text \<open>
  What the host hears: the events the runtime emits have the types the module's header documents,
  and replaying the state changes among them gives, at every moment, the state the runtime is in,
  by transitions of a fixed table only.
\<close>

section \<open>Events\<close>

definition event_type :: "string \<Rightarrow> jtype option" where
  "event_type name =
     (if name = ''proxyStarted'' then Some (TObject [(''success'', TBool)] [(''chainId'', TInt), (''error'', TString)])
      else if name = ''proxyStopped'' then Some (TObject [(''success'', TBool)] [])
      else if name = ''proxyStateChanged''
      then Some (TObject [(''state'', TString), (''previous'', TString)] [(''error'', TString)])
      else None)"

definition event_ok :: "string \<times> json \<Rightarrow> bool" where
  "event_ok e = (case event_type (fst e) of Some t \<Rightarrow> conforms t (snd e) | None \<Rightarrow> False)"

text \<open>The state changes among the events, as the pair of names each carries.\<close>

definition change_of :: "string \<times> json \<Rightarrow> (string \<times> string) list" where
  "change_of e =
     (if fst e = ''proxyStateChanged'' then
        (case (jfield (snd e) ''previous'', jfield (snd e) ''state'') of
           (Some (JStr p), Some (JStr n)) \<Rightarrow> [(p, n)] | _ \<Rightarrow> [])
      else [])"

definition state_changes :: "(string \<times> json) list \<Rightarrow> (string \<times> string) list" where
  "state_changes evs = concat (map change_of evs)"

lemma state_changes_append: "state_changes (xs @ ys) = state_changes xs @ state_changes ys"
  by (simp add: state_changes_def)

lemma state_change_ok: "event_ok (''proxyStateChanged'', state_change prev s err)"
  unfolding event_ok_def event_type_def state_change_def
  by simp

lemma start_payload_ok: "event_ok (''proxyStarted'', start_payload ok err r)"
  unfolding event_ok_def event_type_def start_payload_def
  by simp

lemma refused_payload_ok: "event_ok (''proxyStarted'', jobj [(''success'', JBool b), (''error'', JStr err)])"
  unfolding event_ok_def event_type_def by simp

lemma stopped_payload_ok: "event_ok (''proxyStopped'', jobj [(''success'', JBool b)])"
  unfolding event_ok_def event_type_def by simp

lemma change_of_state_change [simp]:
  "change_of (''proxyStateChanged'', state_change prev s err) = [(stateName prev, stateName s)]"
  by (simp add: change_of_def state_change_def json_simps)

lemma change_of_other [simp]: "n \<noteq> ''proxyStateChanged'' \<Longrightarrow> change_of (n, p) = []"
  by (simp add: change_of_def)

section \<open>What one operation tells\<close>

text \<open>
  From one state to the next at most one change of state is emitted, and exactly the one that
  happened; without an emitter nothing is.
\<close>

definition tells :: "'a rt_core_scheme \<Rightarrow> 'a rt_core_scheme \<Rightarrow> bool" where
  "tells r q \<longleftrightarrow> m_emit q = m_emit r \<and>
     (\<exists>evs. m_events q = m_events r @ evs \<and> list_all event_ok evs
        \<and> (if m_emit r
           then state_changes evs = (if m_state q = m_state r then [] else [(stateName (m_state r), stateName (m_state q))])
           else evs = []))"

lemma tells_same: "m_emit q = m_emit r \<Longrightarrow> m_events q = m_events r \<Longrightarrow> m_state q = m_state r \<Longrightarrow> tells r q"
  by (simp add: tells_def state_changes_def)

lemma tells_cong:
  "m_emit q' = m_emit q \<Longrightarrow> m_events q' = m_events q \<Longrightarrow> m_state q' = m_state q \<Longrightarrow> tells r q' = tells r q"
  by (simp add: tells_def)

lemma tells_cong_left:
  "m_emit r' = m_emit r \<Longrightarrow> m_events r' = m_events r \<Longrightarrow> m_state r' = m_state r \<Longrightarrow> tells r' q = tells r q"
  by (simp add: tells_def)

lemma tells_trans:
  assumes "tells r q" "tells q u" "m_state q = m_state r \<or> m_state u = m_state q"
  shows "tells r u"
proof -
  obtain es fs where "m_events q = m_events r @ es" "m_events u = m_events q @ fs" "list_all event_ok (es @ fs)"
      "if m_emit r then state_changes es = (if m_state q = m_state r then [] else [(stateName (m_state r), stateName (m_state q))]) else es = []"
      "if m_emit q then state_changes fs = (if m_state u = m_state q then [] else [(stateName (m_state q), stateName (m_state u))]) else fs = []"
    using assms(1,2) unfolding tells_def list_all_append by blast
  then show ?thesis
    using assms unfolding tells_def
    by (intro conjI exI [of _ "es @ fs"]) (auto simp: state_changes_append)
qed

lemma tells_emit:
  assumes "event_ok (n, p)" "n \<noteq> ''proxyStateChanged''"
  shows "tells r (emit n p r)"
  using assms by (auto simp: tells_def emit_def state_changes_def)

lemma tells_setState: "tells r (setState s e r)"
proof -
  have "event_ok (''proxyStateChanged'', state_change (m_state r) s e)" by (rule state_change_ok)
  then show ?thesis
    by (auto simp: tells_def setState_def emit_def Let_def state_changes_def)
qed

section \<open>The operations of the proxy thread\<close>

lemma tells_heartbeat: "tells r (noteHeartbeat parse secs slot r)"
proof (cases "slot_status slot = RET_SUCCESS")
  case True
  let ?q = "noteHead parse secs slot (r\<lparr>m_heartbeatStreak := 0\<rparr>)"
  have "tells r ?q" by (rule tells_same) simp_all
  moreover have "tells ?q (setState Running [] ?q)" by (rule tells_setState)
  ultimately show ?thesis
    using True tells_trans [of r ?q "setState Running [] ?q"] by (simp add: noteHeartbeat_def Let_def)
next
  case False
  let ?q = "r\<lparr>m_heartbeatFailures := m_heartbeatFailures r + 1, m_heartbeatStreak := m_heartbeatStreak r + 1\<rparr>"
  have "tells ?q (setState Degraded e ?q)" for e by (rule tells_setState)
  then have "tells r (setState Degraded e ?q)" for e by (subst (asm) tells_cong_left) simp_all
  moreover have "tells r ?q" by (rule tells_same) simp_all
  ultimately show ?thesis using False by (simp add: noteHeartbeat_def Let_def)
qed

lemma tells_trampoline: "tells r (callbackTrampoline parse secs status res i r)"
proof -
  define r1 where "r1 = r\<lparr>m_slots := (m_slots r)(i := finish_slot status res (m_slots r i)), m_boxes := remove1 i (m_boxes r)\<rparr>"
  define r2 where "r2 = r1\<lparr>m_heartbeatInFlight := False\<rparr>"
  have "tells r2 (noteHeartbeat parse secs sl r2)" for sl by (rule tells_heartbeat)
  then have hb: "tells r (noteFinished b (noteHeartbeat parse secs sl r2))" for sl b
    by (subst tells_cong [of _ "noteHeartbeat parse secs sl r2"], simp_all)
       (subst (asm) tells_cong_left [of r2 r], simp_all add: r2_def r1_def)
  have "tells r (noteFinished b r1)" for b by (rule tells_same) (simp_all add: r1_def)
  moreover have "tells r ((noteSync parse sl r1)\<lparr>m_inFlight := n\<rparr>)" for sl n
    by (rule tells_same) (simp_all add: r1_def noteSync_def Let_def)
  ultimately show ?thesis
    using hb unfolding callbackTrampoline_def Let_def r1_def [symmetric] r2_def [symmetric]
    by (auto split: Kind.split)
qed

lemma tells_reply: "tells r (library_reply parse secs reply i r)"
  by (auto simp: library_reply_def tells_trampoline tells_same split: option.split)

lemma tells_releaseStart: "tells r (releaseStart ok err r)"
proof (cases "m_startReleased r")
  case False
  define r1 where "r1 = r\<lparr>m_startReleased := True\<rparr>"
  define r2 where "r2 = (if ok then setState Running [] r1 else r1)"
  define r3 where "r3 = r2\<lparr>m_startDone := True, m_startOk := ok, m_startError := (if ok then m_startError r2 else err)\<rparr>"
  have "tells r1 r2" by (auto simp: r2_def tells_setState tells_same)
  then have "tells r r2" by (subst (asm) tells_cong_left [of r1 r]) (simp_all add: r1_def)
  then have "tells r r3" by (subst tells_cong [of r3 r2]) (simp_all add: r3_def)
  moreover have "tells r3 (emit ''proxyStarted'' (start_payload ok err r3) r3)"
    by (rule tells_emit) (simp_all add: start_payload_ok)
  moreover have "releaseStart ok err r = emit ''proxyStarted'' (start_payload ok err r3) r3"
    using False by (simp add: releaseStart_def Let_def r1_def r2_def r3_def)
  ultimately show ?thesis by (auto intro: tells_trans simp: emit_def)
qed (simp add: releaseStart_def tells_same)

lemma tells_cycle: "tells r (finishSyncCycle secs ok err r)"
proof (cases ok)
  case True
  define q where "q = r\<lparr>m_syncPhase := PhaseIdle, m_syncStreak := 0,
    m_nextSync := m_syncCycleStart r + sint (m_syncIntervalMs r), m_lastSyncedAt := secs\<rparr>"
  have "finishSyncCycle secs ok err r = releaseStart True [] q \<or> finishSyncCycle secs ok err r = setState Running [] q
      \<or> finishSyncCycle secs ok err r = q"
    using True by (simp add: finishSyncCycle_def Let_def q_def)
  then have "tells q (finishSyncCycle secs ok err r)" by (auto simp: tells_releaseStart tells_setState tells_same)
  then show ?thesis by (subst (asm) tells_cong_left [of q r]) (simp_all add: q_def)
next
  case False
  define q where "q = r\<lparr>m_syncPhase := PhaseIdle, m_syncFailures := m_syncFailures r + 1, m_syncStreak := m_syncStreak r + 1,
    m_lastSyncError := err, m_nextSync := m_syncCycleStart r + (if m_startReleased r then sint (m_syncIntervalMs r) else kFirstSyncRetryMs)\<rparr>"
  have "finishSyncCycle secs ok err r = setState Degraded err q \<or> finishSyncCycle secs ok err r = q"
    using False by (simp add: finishSyncCycle_def Let_def q_def)
  then have "tells q (finishSyncCycle secs ok err r)" by (auto simp: tells_setState tells_same)
  then show ?thesis by (subst (asm) tells_cong_left [of q r]) (simp_all add: q_def)
qed

lemma tells_issueSync: "tells r (issueSync parse secs reply kind r)"
  unfolding issueSync_def alloc_slot_eq Let_def prod.case
  by (subst tells_cong_left [symmetric, of _ r]; (rule tells_reply)?) simp_all

lemma tells_advance: "tells r (advanceSync parse now secs reply r)"
proof -
  have "tells r (issueSync parse secs reply Sync (r\<lparr>m_syncCycleStart := now\<rparr>))"
    by (subst tells_cong_left [symmetric, of _ r]; (rule tells_issueSync)?) simp_all
  then show ?thesis
    by (auto simp: advanceSync_def tells_issueSync tells_cycle tells_same split: SyncPhase.split)
qed

lemma tells_keepAlive: "tells r (issueKeepAlive parse secs snap reply r)"
proof -
  obtain out q where t: "tryAdmit snap r = (out, q)" by fastforce
  then have q: "m_emit q = m_emit r" "m_events q = m_events r" "m_state q = m_state r"
    by (auto elim: tryAdmit_cases)
  define p where "p = (snd (alloc_slot ''eth_getBlockByNumber'' beat_params Heartbeat q))
    \<lparr>m_heartbeatInFlight := True, m_inFlight := m_inFlight q + 1, m_boxes := m_boxes q @ [m_nextId q]\<rparr>"
  have "tells p (library_reply parse secs reply (m_nextId q) p)" by (rule tells_reply)
  then have "tells r (library_reply parse secs reply (m_nextId q) p)"
    by (subst (asm) tells_cong_left [of p r]) (simp_all add: p_def q alloc_slot_eq)
  then have l: "tells r ((prunePendingLocked (library_reply parse secs reply (m_nextId q) p))
      \<lparr>m_pending := m_pending (prunePendingLocked (library_reply parse secs reply (m_nextId q) p)) @ [m_nextId q]\<rparr>)"
    by (subst tells_cong [of _ "library_reply parse secs reply (m_nextId q) p"]) simp_all
  have "tells r q" using q by (rule tells_same)
  with l t show ?thesis
    by (simp add: issueKeepAlive_def alloc_slot_eq Let_def p_def split: option.split)
qed

section \<open>Starting and stopping\<close>

lemma tells_refused: "tells r (thread_park (run_refused r))"
proof -
  define r1 where "r1 = r\<lparr>m_startDone := True, m_startOk := False, m_startError := null_context_error\<rparr>"
  define r2 where "r2 = setState Failed ''startVerifProxy returned NULL'' r1"
  define r3 where "r3 = emit ''proxyStarted'' (jobj [(''success'', JBool False), (''error'', JStr (m_startError r2))]) r2"
  have "tells r1 r2" unfolding r2_def by (rule tells_setState)
  moreover have "tells r2 r3" unfolding r3_def by (rule tells_emit) (simp_all add: refused_payload_ok)
  ultimately have "tells r1 r3" by (rule tells_trans) (simp add: r3_def)
  then have "tells r r3" by (subst (asm) tells_cong_left [of r1 r]) (simp_all add: r1_def)
  then show ?thesis
    by (subst tells_cong [of _ r3]) (simp_all add: thread_park_def run_refused_def Let_def r1_def r2_def r3_def)
qed

lemma tells_begin: "tells r (teardown_begin r)"
proof -
  define q where "q = releaseStart False ''the proxy was stopped before its first light-client sync'' r"
  have "tells r q" unfolding q_def by (rule tells_releaseStart)
  moreover have "tells q (setState Draining [] q)" by (rule tells_setState)
  ultimately have "tells r (setState Draining [] q)"
    by (rule tells_trans) (simp add: q_def)
  then show ?thesis by (simp add: teardown_begin_def q_def)
qed

lemma tells_done: "tells r (thread_park (teardown_done r))"
proof -
  define q where "q = setState Stopped [] r"
  have "tells r q" unfolding q_def by (rule tells_setState)
  moreover have "tells q (emit ''proxyStopped'' (jobj [(''success'', JBool True)]) q)"
    by (rule tells_emit) (simp_all add: stopped_payload_ok)
  ultimately have "tells r (emit ''proxyStopped'' (jobj [(''success'', JBool True)]) q)"
    by (rule tells_trans) simp
  then show ?thesis
    by (subst tells_cong [of _ "emit ''proxyStopped'' (jobj [(''success'', JBool True)]) q"])
      (simp_all add: thread_park_def teardown_done_def q_def)
qed

lemma tells_start: "start_begin dump snap cfg q = (res, r) \<Longrightarrow> tells q r"
proof (erule start_begin_cases)
  fix e and p :: rt
  define a where "a = (start_reset dump cfg q)
      \<lparr>m_descriptorsPerCall := i64_max 4 (fan_out_estimate cfg), m_effectiveMaxInFlight := i64_min (maxInFlight cfg) 0\<rparr>"
  assume "r = setState Failed (no_descriptors_error snap) ((start_reset dump cfg q)
      \<lparr>m_descriptorsPerCall := i64_max 4 (fan_out_estimate cfg), m_effectiveMaxInFlight := i64_min (maxInFlight cfg) 0\<rparr>)"
  then have "tells a r" by (simp add: a_def tells_setState)
  then show "tells q r" by (subst (asm) tells_cong_left [of a q]) (simp_all add: a_def start_reset_def)
next
  fix capacity
  define a where "a = (start_reset dump cfg q)
      \<lparr>m_descriptorsPerCall := i64_max 4 (fan_out_estimate cfg),
       m_effectiveMaxInFlight := (if 0 \<le> sint capacity then i64_min (maxInFlight cfg) capacity else maxInFlight cfg),
       m_thread := True\<rparr>"
  have "tells a (setState Starting [] a)" by (rule tells_setState)
  then have "tells q (setState Starting [] a)"
    by (subst (asm) tells_cong_left [of a q]) (simp_all add: a_def start_reset_def)
  moreover assume "r = (setState Starting [] ((start_reset dump cfg q)
         \<lparr>m_descriptorsPerCall := i64_max 4 (fan_out_estimate cfg),
          m_effectiveMaxInFlight := (if 0 \<le> sint capacity then i64_min (maxInFlight cfg) capacity else maxInFlight cfg),
          m_thread := True\<rparr>))
         \<lparr>m_startDone := False, m_startOk := False, m_startError := [], m_runFinished := False,
          m_runRequested := True\<rparr>"
  ultimately show "tells q r"
    by (subst tells_cong [of r "setState Starting [] a"]) (simp_all add: a_def)
qed (simp_all add: tells_same)

end
