(* ===== verification/Runtime_Transitions.thy ===== *)
theory Runtime_Transitions
  imports Runtime_Events
begin

text \<open>
  The life-cycle state machine of the concurrent runtime: which state each place of the proxy
  thread allows, which transitions happen, and that the events tell them all.
\<close>

section \<open>The table of transitions\<close>

text \<open>
  Three of them come from a second \<^verbatim>\<open>start\<close> that is let in while a run is being torn down or has
  only been asked for: Draining to Starting, Stopped to Running, Failed to Running.
\<close>

definition transitions :: "(State \<times> State) list" where
  "transitions =
     [(Idle, Starting), (Idle, Failed),
      (Starting, Running), (Starting, Draining), (Starting, Failed), (Starting, Stopped),
      (Running, Degraded), (Running, Draining), (Degraded, Running), (Degraded, Draining),
      (Draining, Stopped), (Draining, Starting), (Draining, Failed),
      (Stopped, Starting), (Stopped, Failed), (Stopped, Running), (Stopped, Draining),
      (Failed, Starting), (Failed, Running), (Failed, Stopped), (Failed, Draining)]"

definition moves :: "State \<Rightarrow> State \<Rightarrow> bool" where
  "moves a b \<longleftrightarrow> a = b \<or> (a, b) \<in> set transitions"

definition fits :: "thread_pc \<Rightarrow> rt \<Rightarrow> bool" where
  "fits p r \<longleftrightarrow> (m_state r = Idle \<longrightarrow> \<not> m_runRequested r) \<and>
     (case p of
        Prologue \<Rightarrow> m_state r \<in> {Starting, Stopped, Failed}
      | Pump \<Rightarrow> m_state r \<in> {Starting, Stopped, Failed, Running, Degraded}
      | Drain \<Rightarrow> m_state r = Draining
      | Freed \<Rightarrow> m_state r \<in> {Draining, Starting, Failed}
      | _ \<Rightarrow> m_state r \<in> {Idle, Starting, Stopped, Failed})"

section \<open>Operations of the pump loop\<close>

definition pump_move :: "'a rt_core_scheme \<Rightarrow> 'b rt_core_scheme \<Rightarrow> bool" where
  "pump_move r q \<longleftrightarrow>
     m_state q = m_state r \<or> m_state q = Running \<or> m_state r = Running \<and> m_state q = Degraded"

lemma pump_move_heartbeat: "pump_move r (noteHeartbeat parse secs slot r)"
  by (simp add: pump_move_def noteHeartbeat_def Let_def)

lemma pump_move_trampoline: "pump_move r (callbackTrampoline parse secs status res i r)"
  using pump_move_heartbeat [of "r\<lparr>m_slots := (m_slots r)(i := finish_slot status res (m_slots r i)),
      m_boxes := remove1 i (m_boxes r), m_heartbeatInFlight := False\<rparr>"]
  by (auto simp: pump_move_def callbackTrampoline_def Let_def split: Kind.split)

lemma pump_move_reply: "pump_move r (library_reply parse secs reply i r)"
  by (simp add: library_reply_def pump_move_trampoline split: option.split) (simp add: pump_move_def)

lemma pump_move_cong: "m_state r' = m_state r \<Longrightarrow> pump_move r' q = pump_move r q"
  by (simp add: pump_move_def)

lemma pump_move_issueSync: "pump_move r (issueSync parse secs reply kind r)"
  unfolding issueSync_def alloc_slot_eq Let_def prod.case
  by (subst pump_move_cong [symmetric, of _ r]; (rule pump_move_reply)?) simp

lemma pump_move_cycle: "pump_move r (finishSyncCycle secs ok err r)"
  by (simp add: pump_move_def finishSyncCycle_def releaseStart_def Let_def)

lemma pump_move_advance: "pump_move r (advanceSync parse now secs reply r)"
proof -
  have "pump_move r (issueSync parse secs reply Sync (r\<lparr>m_syncCycleStart := now\<rparr>))"
    by (subst pump_move_cong [symmetric, of _ r]; (rule pump_move_issueSync)?) simp
  moreover have "pump_move r r" by (simp add: pump_move_def)
  ultimately show ?thesis
    by (simp add: advanceSync_def pump_move_issueSync pump_move_cycle split: SyncPhase.split)
qed

lemma pump_move_keepAlive: "pump_move r (issueKeepAlive parse secs snap reply r)"
proof -
  obtain out q where t: "tryAdmit snap r = (out, q)" by fastforce
  then have q: "m_state q = m_state r" by (auto elim: tryAdmit_cases)
  define p where "p = (snd (alloc_slot ''eth_getBlockByNumber'' beat_params Heartbeat q))
    \<lparr>m_heartbeatInFlight := True, m_inFlight := m_inFlight q + 1, m_boxes := m_boxes q @ [m_nextId q]\<rparr>"
  have "pump_move p (library_reply parse secs reply (m_nextId q) p)" by (rule pump_move_reply)
  then have "pump_move r (library_reply parse secs reply (m_nextId q) p)"
    by (subst (asm) pump_move_cong [of p r]) (simp_all add: p_def q alloc_slot_eq)
  then show ?thesis
    using t q by (simp add: issueKeepAlive_def alloc_slot_eq Let_def p_def pump_move_def split: option.split)
qed

text \<open>A move of the pump loop is in the table, and ends in a state the loop allows.\<close>

lemma pump_move_moves: "pump_move r q \<Longrightarrow> fits Pump r \<Longrightarrow> moves (m_state r) (m_state q)"
  by (cases "m_state r"; cases "m_state q") (simp_all add: pump_move_def fits_def moves_def transitions_def)

lemma pump_move_fits:
  "pump_move r q \<Longrightarrow> m_runRequested q = m_runRequested r \<Longrightarrow> fits Pump r \<Longrightarrow> fits Pump q"
  by (cases "m_state q") (auto simp: pump_move_def fits_def)

section \<open>Every step\<close>

lemma start_begin_state:
  "start_begin dump snap cfg q = (res, r) \<Longrightarrow> r = q \<or> \<not> m_runActive q \<and> m_state r \<in> {Starting, Failed}"
  by (erule start_begin_cases) simp_all

lemma same_run_state: "same_run r q \<Longrightarrow> m_state r = m_state q \<and> m_runRequested r = m_runRequested q"
  using same_more(3) [of r q] by (simp add: same_run_def)

lemma fits_same: "m_state r = m_state q \<Longrightarrow> m_runRequested r = m_runRequested q \<Longrightarrow> fits p q \<Longrightarrow> fits p r"
  by (cases p) (simp_all add: fits_def)

lemmas requested_frame [simp] =
  same_more(3) [OF trampoline_more] same_more(3) [OF reply_more] same_more(3) [OF advance_more]
  same_more(3) [OF keepAlive_more] same_more(3) [OF release_more]

lemma moves_refl [simp]: "moves a a"
  by (simp add: moves_def)

lemma started_fits:
  "m_state r \<in> {Starting, Failed} \<Longrightarrow> \<not> in_library p \<Longrightarrow> fits p r"
  by (cases p) (auto simp: fits_def in_library_def)

lemma started_moves:
  "m_state r \<in> {Starting, Failed} \<Longrightarrow> \<not> in_library p \<Longrightarrow> fits p q \<Longrightarrow> moves (m_state q) (m_state r)"
  by (cases p; cases "m_state q") (auto simp: fits_def in_library_def moves_def transitions_def)

lemma step_state:
  assumes "sys_step parse dump s e t" "sys_ok s" "fits (pc s) (rtm s)"
  shows "fits (pc t) (rtm t) \<and> moves (m_state (rtm s)) (m_state (rtm t))"
proof -
  have g: "good (pc s) (callers s) (rtm s)" and ro: "run_ok (pc s) (rtm s)"
    using assms(2) by (simp_all add: sys_ok_def calls_ok_def)
  have pump: ?thesis
    if "pc s = Pump" "pc t = Pump" "pump_move (rtm s) (rtm t)" "m_runRequested (rtm t) = m_runRequested (rtm s)"
    using pump_move_fits [OF that(3,4)] pump_move_moves [OF that(3)] assms(3) that by simp
  have same: ?thesis if "pc s = pc t" "m_state (rtm t) = m_state (rtm s)" "m_runRequested (rtm t) = m_runRequested (rtm s)"
    using fits_same [OF that(2,3)] assms(3) that by simp
  show ?thesis
    using assms(1)
  proof (cases rule: sys_step.cases)
    case (check_ok c params mth)
    then show ?thesis by (intro same) (simp_all add: set_caller_def)
  next
    case (enter c mth params snap now out r)
    then show ?thesis using same_run_state [OF same_run_callers(1)] by (intro same) (simp_all add: set_caller_def)
  next
    case (poll c w mth params snap now out r)
    then show ?thesis using same_run_state [OF same_run_callers(2)] by (intro same) (simp_all add: set_caller_def)
  next
    case (enqueue c mth params out r)
    then show ?thesis using same_run_state [OF same_run_callers(3)] by (intro same) (simp_all add: set_caller_def)
  next
    case (finish c i report res r)
    then show ?thesis using same_run_state [OF same_run_callers(4)] by (intro same) (simp_all add: set_caller_def)
  next
    case (start_call cfg snap res r)
    have "r = rtm s \<or> \<not> m_runActive (rtm s) \<and> m_state r \<in> {Starting, Failed}"
      by (rule start_begin_state [OF start_call(4)])
    then show ?thesis
    proof
      assume "r = rtm s"
      then show ?thesis using start_call by (intro same) simp_all
    next
      assume a: "\<not> m_runActive (rtm s) \<and> m_state r \<in> {Starting, Failed}"
      then have "\<not> in_library (pc s)" using ro by (simp add: run_ok_def)
      with a assms(3) start_call show ?thesis by (simp add: started_fits started_moves)
    qed
  next
    case (start_return report secs res r)
    obtain n where "r = (rtm s)\<lparr>m_startedAt := n\<rparr>" using start_end_state [OF start_return(3)] by blast
    then have "rtm t = (rtm s)\<lparr>m_startedAt := n\<rparr>" "pc t = pc s" using start_return by simp_all
    then show ?thesis by (intro same) simp_all
  next
    case (stop_call res r)
    then show ?thesis by (intro same) (auto simp: stop_begin_def split: if_splits)
  next
    case shut_down
    then show ?thesis by (intro same) (simp_all add: request_shutdown_def)
  next
    case (wake go r)
    then show ?thesis
      using assms(3) by (auto simp: thread_wake_def thread_wakes_def run_reset_def fits_def split: if_splits)
  next
    case start_fails
    then show ?thesis
      using assms(3) by (auto simp: fits_def moves_def transitions_def thread_park_def run_refused_def Let_def)
  next
    case (start_succeeds now interval)
    then show ?thesis using assms(3) by (auto simp: run_accepted_def fits_def Let_def)
  next
    case (dispatch i r rep secs)
    have r: "m_state r = m_state (rtm s)" "m_runRequested r = m_runRequested (rtm s)"
      using dispatch(4) by (auto simp: dispatch_front_Some)
    have "pump_move (rtm s) (library_reply parse secs rep i r)"
      unfolding pump_move_cong [OF r(1), symmetric] by (rule pump_move_reply)
    then show ?thesis using dispatch r by (intro pump) simp_all
  next
    case (advance now secs rep)
    then show ?thesis by (intro pump) (simp_all add: pump_move_advance)
  next
    case (beat now snap rep secs)
    then show ?thesis
      using pump_move_keepAlive [of "rtm s" parse secs snap rep] by (intro pump) (simp_all add: pump_move_def)
  next
    case (callback i status res secs)
    show ?thesis
    proof (cases "pc s = Pump")
      case True
      then show ?thesis using callback by (intro pump) (simp_all add: pump_move_trampoline)
    next
      case False
      then have "\<not> live (rtm s)" using ro by (simp add: run_ok_def)
      then show ?thesis
        using callback by (intro same) (simp_all add: trampoline_state)
    qed
  next
    case leave_pump
    then show ?thesis
      using assms(3) by (auto simp: fits_def moves_def transitions_def teardown_begin_def)
  next
    case free
    then show ?thesis
      using assms(3) by (auto simp: fits_def moves_def teardown_free_def failAllPending_def Let_def)
  next
    case all_done
    then show ?thesis
      using assms(3) by (auto simp: fits_def moves_def transitions_def thread_park_def teardown_done_def)
  qed
qed

section \<open>What every step tells\<close>

lemma remove_ticket_events [simp]:
  "m_emit (snd (removeAdmissionTicketLocked t r)) = m_emit r"
  "m_events (snd (removeAdmissionTicketLocked t r)) = m_events r"
  "m_state (snd (removeAdmissionTicketLocked t r)) = m_state r"
  by (simp_all add: removeAdmissionTicketLocked_def)

lemma tells_callers:
  "admission_enter snap now q = (out, r) \<Longrightarrow> tells q r"
  "admission_poll snap now w q = (out, r) \<Longrightarrow> tells q r"
  "call_enqueue m ps q = (out', r) \<Longrightarrow> tells q r"
  "call_finish parse report i q = (res, r) \<Longrightarrow> tells q r"
proof -
  assume a: "admission_enter snap now q = (out, r)"
  show "tells q r"
    by (rule tells_same) (use a in \<open>auto simp: enqueued_def elim!: enter_cases\<close>)
next
  assume a: "admission_poll snap now w q = (out, r)"
  show "tells q r"
    by (rule tells_same) (use a in \<open>auto elim!: poll_cases\<close>)
next
  assume a: "call_enqueue m ps q = (out', r)"
  show "tells q r"
    by (rule tells_same) (use a in \<open>auto simp: alloc_slot_eq Let_def elim!: call_enqueue_cases\<close>)
qed (auto simp: call_finish_def tells_same)

lemma step_tells:
  assumes "sys_step parse dump s e t"
  shows "tells (rtm s) (rtm t)"
  using assms
proof (cases rule: sys_step.cases)
  case (dispatch i r rep secs)
  then have "tells r (library_reply parse secs rep i r)" by (simp add: tells_reply)
  then show ?thesis
    using dispatch by (subst (asm) tells_cong_left [of r "rtm s"]) (auto simp: dispatch_front_Some)
next
  case (beat now snap rep secs)
  then show ?thesis
    using tells_keepAlive [of "rtm s" parse secs snap rep]
    by (subst tells_cong [of "rtm t" "issueKeepAlive parse secs snap rep (rtm s)"]) simp_all
next
  case (start_call cfg snap res r)
  then show ?thesis by (simp add: tells_start [OF start_call(4)])
next
  case (start_return report secs res r)
  obtain n where "r = (rtm s)\<lparr>m_startedAt := n\<rparr>" using start_end_state [OF start_return(3)] by blast
  then have "rtm t = (rtm s)\<lparr>m_startedAt := n\<rparr>" using start_return by simp
  then show ?thesis by (intro tells_same) simp_all
qed (auto simp: set_caller_def tells_callers tells_advance tells_trampoline tells_begin tells_done tells_refused
    stop_begin_def request_shutdown_def thread_wake_def run_reset_def run_accepted_def teardown_free_def
    failAllPending_def Let_def split: if_splits intro!: tells_same)

section \<open>Told events\<close>

text \<open>A list of changes leads from one state name to another along the table.\<close>

fun leads :: "string \<Rightarrow> (string \<times> string) list \<Rightarrow> string \<Rightarrow> bool" where
  "leads p [] q = (p = q)"
| "leads p ((a, b) # cs) q =
     (a = p \<and> (a, b) \<in> set (map (\<lambda>(x, y). (stateName x, stateName y)) transitions) \<and> leads b cs q)"

lemma leads_append: "leads p (xs @ [(a, b)]) q \<longleftrightarrow>
    leads p xs a \<and> (a, b) \<in> set (map (\<lambda>(x, y). (stateName x, stateName y)) transitions) \<and> b = q"
  by (induction p xs a rule: leads.induct) auto

definition told :: "'a rt_core_scheme \<Rightarrow> bool" where
  "told r \<longleftrightarrow> list_all event_ok (m_events r)
     \<and> (if m_emit r then leads ''uninitialized'' (state_changes (m_events r)) (stateName (m_state r))
        else m_events r = [])"

lemma told_step:
  assumes "told r" "tells r q" "moves (m_state r) (m_state q)"
  shows "told q"
proof -
  obtain evs where e: "m_emit q = m_emit r" "m_events q = m_events r @ evs" "list_all event_ok evs"
    "if m_emit r then state_changes evs = (if m_state q = m_state r then [] else [(stateName (m_state r), stateName (m_state q))])
     else evs = []"
    using assms(2) unfolding tells_def by blast
  show ?thesis
  proof (cases "m_emit r \<and> m_state q \<noteq> m_state r")
    case True
    then have "(m_state r, m_state q) \<in> set transitions" using assms(3) by (auto simp: moves_def)
    then have "(stateName (m_state r), stateName (m_state q)) \<in> (\<lambda>(x, y). (stateName x, stateName y)) ` set transitions"
      by (force intro: rev_image_eqI)
    then show ?thesis using True assms(1) e by (simp add: told_def state_changes_append leads_append)
  next
    case False
    then show ?thesis using assms(1) e by (auto simp: told_def state_changes_append)
  qed
qed

interpretation machine: run_invariant sys_init "sys_step parse dump"
    "\<lambda>s. sys_ok s \<and> fits (pc s) (rtm s) \<and> told (rtm s)" for parse dump
proof
  show "sys_ok s \<and> fits (pc s) (rtm s) \<and> told (rtm s)" if "sys_init s" for s
    using that runtime.inv_init [OF that]
    by (auto simp: sys_init_def new_runtime_def fits_def told_def state_changes_def stateName_def)
  show "sys_ok t \<and> fits (pc t) (rtm t) \<and> told (rtm t)"
    if "sys_ok s \<and> fits (pc s) (rtm s) \<and> told (rtm s)" "sys_step parse dump s e t" for s e t
    using that runtime.inv_step [of s parse dump e t] step_state [of parse dump s e t] step_tells [of parse dump s e t]
      told_step [of "rtm s" "rtm t"] by blast
qed

section \<open>Properties\<close>


definition heard_run :: "event list" where
  "heard_run = [StartCall roomy default_config, Wake, StartFails] @ first_sync @ [LeavePump, Free, Done]"

definition heard :: "sys option" where
  "heard = run_events no_parse no_dump heard_run \<lparr>rtm = new_runtime True, callers = [], pc = Parked\<rparr>"

lemma heard_reach: "heard = Some s \<Longrightarrow> reach sys_init (sys_step no_parse no_dump) s"
  unfolding heard_def by (erule run_events_reach, rule reach_init) (auto simp: sys_init_def)

definition heard_view :: "sys \<Rightarrow> bool \<times> State \<times> (string \<times> string) list" where
  "heard_view s = (m_emit (rtm s), m_state (rtm s), state_changes (m_events (rtm s)))"

lemma heard_view: "map_option heard_view heard = Some (True, Stopped,
    [(''uninitialized'', ''starting''), (''starting'', ''error''), (''error'', ''starting''),
     (''starting'', ''running''), (''running'', ''stopping''), (''stopping'', ''stopped'')])"
  by code_simp




end
