(* ===== verification/Runtime_Exceptions.thy ===== *)
theory Runtime_Exceptions
  imports Runtime_Trace
begin

text \<open>
  The operations that emit an event, with a printer that may throw, as the JSON library does on text
  that is not UTF-8. An exception leaves what was done before it; the C callback swallows it, and on
  the pump it goes on. With a printer that prints everything the operations are the ones of the
  model.
\<close>

section \<open>Throwing operations\<close>

definition emit_x ::
  "(json \<Rightarrow> exn + string) \<Rightarrow> string \<Rightarrow> json \<Rightarrow> 'a rt_core_scheme \<Rightarrow> (exn + unit) \<times> 'a rt_core_scheme" where
  "emit_x dump name payload r =
     (if m_emit r then
        (case dump payload of
           Inl e \<Rightarrow> (Inl e, r)
         | Inr _ \<Rightarrow> (Inr (), r\<lparr>m_events := m_events r @ [(name, payload)]\<rparr>))
      else (Inr (), r))"

definition setState_x ::
  "(json \<Rightarrow> exn + string) \<Rightarrow> State \<Rightarrow> string \<Rightarrow> 'a rt_core_scheme \<Rightarrow> (exn + unit) \<times> 'a rt_core_scheme" where
  "setState_x dump s err r =
     (let prev = m_state r;
          r1 = r\<lparr>m_state := s\<rparr>;
          r2 = (if err \<noteq> [] then r1\<lparr>m_lastError := err\<rparr> else r1)
      in if prev = s then (Inr (), r2) else emit_x dump ''proxyStateChanged'' (state_change prev s err) r2)"

definition noteHeartbeat_x ::
  "(json \<Rightarrow> exn + string) \<Rightarrow> (string \<Rightarrow> string + json) \<Rightarrow> int \<Rightarrow> CallSlot \<Rightarrow> 'a rt_health_scheme
     \<Rightarrow> (exn + unit) \<times> 'a rt_health_scheme" where
  "noteHeartbeat_x dump parse secs slot r =
     (if slot_status slot = RET_SUCCESS then
        let r1 = noteHead parse secs slot (r\<lparr>m_heartbeatStreak := 0\<rparr>)
        in if m_state r1 = Degraded \<and> m_syncStreak r1 < kDegradeAfter then setState_x dump Running [] r1 else (Inr (), r1)
      else
        let r1 = r\<lparr>m_heartbeatFailures := m_heartbeatFailures r + 1, m_heartbeatStreak := m_heartbeatStreak r + 1\<rparr>
        in if kDegradeAfter \<le> m_heartbeatStreak r1 \<and> m_state r1 = Running
           then setState_x dump Degraded (errorMessage parse (slot_status slot) (slot_result slot)) r1
           else (Inr (), r1))"

definition callbackTrampoline_x ::
  "(json \<Rightarrow> exn + string) \<Rightarrow> (string \<Rightarrow> string + json) \<Rightarrow> int \<Rightarrow> int \<Rightarrow> string \<Rightarrow> nat \<Rightarrow> 'a rt_health_scheme
     \<Rightarrow> 'a rt_health_scheme" where
  "callbackTrampoline_x dump parse secs status res i r =
     (let r1 = r\<lparr>m_slots := (m_slots r)(i := finish_slot status res (m_slots r i)),
                 m_boxes := remove1 i (m_boxes r)\<rparr>;
          slot = m_slots r1 i
      in case slot_kind slot of
           Heartbeat \<Rightarrow>
             (case noteHeartbeat_x dump parse secs slot (r1\<lparr>m_heartbeatInFlight := False\<rparr>) of
                (Inl _, r2) \<Rightarrow> r2
              | (Inr _, r2) \<Rightarrow> noteFinished (status = RET_SUCCESS) r2)
         | User \<Rightarrow> noteFinished (status = RET_SUCCESS) r1
         | _ \<Rightarrow> (let r2 = noteSync parse slot r1 in r2\<lparr>m_inFlight := m_inFlight r2 - 1\<rparr>))"

definition releaseStart_x ::
  "(json \<Rightarrow> exn + string) \<Rightarrow> bool \<Rightarrow> string \<Rightarrow> 'a rt_health_scheme \<Rightarrow> (exn + unit) \<times> 'a rt_health_scheme" where
  "releaseStart_x dump ok err r =
     (if m_startReleased r then (Inr (), r)
      else
        let r1 = r\<lparr>m_startReleased := True\<rparr>
        in case (if ok then setState_x dump Running [] r1 else (Inr (), r1)) of
             (Inl e, r2) \<Rightarrow> (Inl e, r2)
           | (Inr _, r2) \<Rightarrow>
               let r3 = r2\<lparr>m_startDone := True, m_startOk := ok, m_startError := (if ok then m_startError r2 else err)\<rparr>
               in emit_x dump ''proxyStarted'' (start_payload ok err r3) r3)"

definition finishSyncCycle_x ::
  "(json \<Rightarrow> exn + string) \<Rightarrow> int \<Rightarrow> bool \<Rightarrow> string \<Rightarrow> 'a rt_health_scheme \<Rightarrow> (exn + unit) \<times> 'a rt_health_scheme" where
  "finishSyncCycle_x dump secs ok err r =
     (let r0 = r\<lparr>m_syncPhase := PhaseIdle\<rparr> in
      if ok then
        let r1 = r0\<lparr>m_syncStreak := 0, m_nextSync := m_syncCycleStart r0 + sint (m_syncIntervalMs r0),
                    m_lastSyncedAt := secs\<rparr>
        in if \<not> m_startReleased r1 then releaseStart_x dump True [] r1
           else if m_state r1 = Degraded \<and> m_heartbeatStreak r1 < kDegradeAfter then setState_x dump Running [] r1
           else (Inr (), r1)
      else
        let r1 = r0\<lparr>m_syncFailures := m_syncFailures r0 + 1, m_syncStreak := m_syncStreak r0 + 1,
                    m_lastSyncError := err,
                    m_nextSync := m_syncCycleStart r0
                      + (if m_startReleased r0 then sint (m_syncIntervalMs r0) else kFirstSyncRetryMs)\<rparr>
        in if kDegradeAfter \<le> m_syncStreak r1 \<and> m_state r1 = Running then setState_x dump Degraded err r1
           else (Inr (), r1))"

section \<open>Printers that print everything\<close>

definition prints :: "(json \<Rightarrow> exn + string) \<Rightarrow> bool" where
  "prints dump \<longleftrightarrow> (\<forall>j. \<exists>t. dump j = Inr t)"

lemma emit_x_prints: "prints dump \<Longrightarrow> emit_x dump n p r = (Inr (), emit n p r)"
  unfolding prints_def by (drule spec [of _ p]) (auto simp: emit_x_def emit_def)

lemma setState_x_prints: "prints dump \<Longrightarrow> setState_x dump s e r = (Inr (), setState s e r)"
  by (simp add: setState_x_def setState_def Let_def emit_x_prints)

lemma noteHeartbeat_x_prints:
  "prints dump \<Longrightarrow> noteHeartbeat_x dump parse secs slot r = (Inr (), noteHeartbeat parse secs slot r)"
  by (simp add: noteHeartbeat_x_def noteHeartbeat_def Let_def setState_x_prints)

lemma trampoline_x_prints:
  "prints dump \<Longrightarrow> callbackTrampoline_x dump parse secs status res i r = callbackTrampoline parse secs status res i r"
  by (simp add: callbackTrampoline_x_def callbackTrampoline_def Let_def noteHeartbeat_x_prints split: Kind.split)

lemma releaseStart_x_prints: "prints dump \<Longrightarrow> releaseStart_x dump ok err r = (Inr (), releaseStart ok err r)"
  by (simp add: releaseStart_x_def releaseStart_def Let_def setState_x_prints emit_x_prints del: setState_health)

lemma finishSyncCycle_x_prints:
  "prints dump \<Longrightarrow> finishSyncCycle_x dump secs ok err r = (Inr (), finishSyncCycle secs ok err r)"
  by (simp add: finishSyncCycle_x_def finishSyncCycle_def Let_def releaseStart_x_prints setState_x_prints)

text \<open>A callback that is not a heartbeat prints nothing, and a change of state without a text is ASCII.\<close>

lemma trampoline_x_other:
  "slot_kind (m_slots r i) \<noteq> Heartbeat \<Longrightarrow>
   callbackTrampoline_x dump parse secs status res i r = callbackTrampoline parse secs status res i r"
  by (simp add: callbackTrampoline_x_def callbackTrampoline_def Let_def split: Kind.split)

section \<open>A heartbeat whose error cannot be printed\<close>

lemma noteHeartbeat_x_throws:
  assumes "slot_status slot \<noteq> RET_SUCCESS" "m_state r = Running" "m_heartbeatStreak r = 2" "m_emit r"
    and "dump (state_change Running Degraded (errorMessage parse (slot_status slot) (slot_result slot))) = Inl e"
  shows "\<exists>q. noteHeartbeat_x dump parse secs slot r = (Inl e, q) \<and> m_state q = Degraded \<and> m_events q = m_events r
    \<and> m_inFlight q = m_inFlight r \<and> m_boxes q = m_boxes r \<and> m_admitted q = m_admitted r
    \<and> m_callsFailed q = m_callsFailed r"
  using assms by (simp add: noteHeartbeat_x_def setState_x_def emit_x_def Let_def kDegradeAfter_def)

text \<open>
  C22: The third failed heartbeat in a row, when the library's error text cannot be printed, takes
  the proxy to Degraded without telling the host, and loses its count and its reservation: from a
  reachable state of a Running proxy the library holds one box fewer afterwards, but the counters
  of calls in flight and of reservations are what they were, so the calls in flight are one more
  than the boxes (a defect). The exception is caught in the callback, after the state was changed and
  before the call was counted off.
\<close>

theorem unprintable_heartbeat_leaks:
  assumes "reach sys_init (sys_step parse out) s" "m_emit (rtm s)" "i \<in> set (m_boxes (rtm s))"
    and "slot_kind (m_slots (rtm s) i) = Heartbeat" "status \<noteq> RET_SUCCESS"
    and "m_state (rtm s) = Running" "m_heartbeatStreak (rtm s) = 2"
    and "dump (state_change Running Degraded (errorMessage parse status res)) = Inl e"
    and r: "r = callbackTrampoline_x dump parse secs status res i (rtm s)"
  shows "m_state r = Degraded \<and> m_events r = m_events (rtm s)
    \<and> m_boxes r = remove1 i (m_boxes (rtm s)) \<and> m_inFlight r = int (length (m_boxes r)) + 1
    \<and> m_admitted r = m_admitted (rtm s)
    \<and> m_callsFailed r = m_callsFailed (rtm s)
    \<and> m_inFlight (callbackTrampoline parse secs status res i (rtm s)) = int (length (m_boxes r))"
proof -
  have "good (pc s) (callers s) (rtm s)"
    using runtime.reach_inv [OF assms(1)] by (simp add: sys_ok_def calls_ok_def)
  then have ok: "m_inFlight (rtm s) = int (length (m_boxes (rtm s)))" "\<not> slot_done (m_slots (rtm s) i)"
    using assms(3) by (auto simp: good_def slots_ok_def)
  define r1 where "r1 = (rtm s)\<lparr>m_slots := (m_slots (rtm s))(i := finish_slot status res (m_slots (rtm s) i)),
      m_boxes := remove1 i (m_boxes (rtm s)), m_heartbeatInFlight := False\<rparr>"
  have slot: "slot_kind (m_slots r1 i) = Heartbeat" "slot_status (m_slots r1 i) = status" "slot_result (m_slots r1 i) = res"
    using ok(2) assms(4) by (simp_all add: r1_def finish_slot_def)
  obtain q where n: "noteHeartbeat_x dump parse secs (m_slots r1 i) r1 = (Inl e, q)" "m_state q = Degraded"
      "m_events q = m_events r1" "m_inFlight q = m_inFlight r1" "m_boxes q = m_boxes r1" "m_admitted q = m_admitted r1"
      "m_callsFailed q = m_callsFailed r1"
    using noteHeartbeat_x_throws [of "m_slots r1 i" r1 dump parse e secs] slot assms(2,6-8)
    by (auto simp: r1_def assms(5))
  have "r = q"
    using n(1) slot(1) unfolding r callbackTrampoline_x_def Let_def by (simp add: r1_def)
  moreover have "int (length (remove1 i (m_boxes (rtm s)))) = int (length (m_boxes (rtm s))) - 1"
    using assms(3) length_pos_if_in_set [OF assms(3)] by (simp add: length_remove1 of_nat_diff Suc_le_eq)
  ultimately show ?thesis using ok(1) n by (simp add: r1_def)
qed

text \<open>A Running proxy with nothing in flight, a heartbeat due at \<open>t\<close>, and \<open>k\<close> failed heartbeats in a row.\<close>

definition steady :: "nat \<Rightarrow> int \<Rightarrow> int \<Rightarrow> sys \<Rightarrow> bool" where
  "steady i k t s \<longleftrightarrow> pc s = Pump \<and> beat_due t (rtm s) \<and> m_state (rtm s) = Running \<and> m_emit (rtm s)
     \<and> m_boxes (rtm s) = [] \<and> m_nextId (rtm s) = i \<and> m_heartbeatStreak (rtm s) = k \<and> m_admitted (rtm s) = 0
     \<and> m_admissionQueue (rtm s) = [] \<and> m_effectiveMaxInFlight (rtm s) = 64 \<and> m_descriptorsPerCall (rtm s) = 12
     \<and> sint (keepAliveIntervalMs (m_cfg (rtm s))) = 12000"

definition beat_state :: "nat \<Rightarrow> int \<Rightarrow> sys \<Rightarrow> sys" where
  "beat_state i t s = s\<lparr>rtm := (issueKeepAlive no_parse 0 roomy None (rtm s))
     \<lparr>nextKeepAlive := t + sint (keepAliveIntervalMs (m_cfg (rtm s)))\<rparr>\<rparr>"

lemma roomy_calls: "reservableCalls roomy 12 = 329"
  by code_simp

lemma beat_admitted:
  assumes "steady i k t s"
  shows "tryAdmit roomy (rtm s) = (None, (rtm s)\<lparr>m_admitted := 1\<rparr>)"
  using assms by (simp add: steady_def tryAdmit_def admissionBlockLocked_def roomy_calls)

lemma beat_facts:
  assumes "steady i k t s"
  shows "sys_step no_parse no_dump s (Beat roomy t None) (beat_state i t s)"
    "pc (beat_state i t s) = Pump" "m_boxes (rtm (beat_state i t s)) = [i]" "m_state (rtm (beat_state i t s)) = Running"
    "m_emit (rtm (beat_state i t s))" "m_heartbeatStreak (rtm (beat_state i t s)) = k"
    "slot_kind (m_slots (rtm (beat_state i t s)) i) = Heartbeat"
proof -
  show "sys_step no_parse no_dump s (Beat roomy t None) (beat_state i t s)"
    unfolding beat_state_def using assms by (intro beat) (simp_all add: steady_def)
  show "pc (beat_state i t s) = Pump" "m_boxes (rtm (beat_state i t s)) = [i]" "m_state (rtm (beat_state i t s)) = Running"
    "m_emit (rtm (beat_state i t s))" "m_heartbeatStreak (rtm (beat_state i t s)) = k"
    "slot_kind (m_slots (rtm (beat_state i t s)) i) = Heartbeat"
    using assms beat_admitted [OF assms]
    by (simp_all add: beat_state_def steady_def issueKeepAlive_def alloc_slot_eq Let_def library_reply_def new_slot_def)
qed

lemma failed_beat:
  assumes "steady i k t s" "k < 2"
  shows "\<exists>u. sys_step no_parse no_dump (beat_state i t s) (Callback i RET_ERROR [] 0) u \<and> steady (i + 1) (k + 1) (t + 12000) u"
proof -
  let ?b = "rtm (beat_state i t s)" and ?r = "callbackTrampoline no_parse 0 RET_ERROR [] i (rtm (beat_state i t s))"
  have "sys_step no_parse no_dump (beat_state i t s) (Callback i RET_ERROR [] 0) ((beat_state i t s)\<lparr>rtm := ?r\<rparr>)"
    using beat_facts [OF assms(1)] by (intro callback) simp_all
  moreover have "steady (i + 1) (k + 1) (t + 12000) ((beat_state i t s)\<lparr>rtm := ?r\<rparr>)"
    using assms beat_admitted [OF assms(1)]
    by (simp add: beat_state_def steady_def issueKeepAlive_def alloc_slot_eq Let_def library_reply_def new_slot_def
        callbackTrampoline_def noteHeartbeat_def noteFinished_def releaseAdmission_def finish_slot_def kDegradeAfter_def
        beat_due_def keepAliveEnabled_def RET_ERROR_def RET_SUCCESS_def prunePendingLocked_def)
  ultimately show ?thesis by blast
qed

lemma steady_start:
  "\<exists>s. reach sys_init (sys_step no_parse no_dump) s \<and> steady 2 0 0 s"
proof -
  have "map_option (steady 2 0 0) (run_events no_parse no_dump first_sync \<lparr>rtm = new_runtime True, callers = [], pc = Parked\<rparr>)
      = Some True"
    by code_simp
  then obtain s where s: "run_events no_parse no_dump first_sync \<lparr>rtm = new_runtime True, callers = [], pc = Parked\<rparr> = Some s"
      "steady 2 0 0 s"
    by auto
  have "reach sys_init (sys_step no_parse no_dump) s"
    by (rule run_events_reach [OF s(1)], rule reach_init) (auto simp: sys_init_def)
  with s(2) show ?thesis by blast
qed

theorem unprintable_heartbeat_leaks_witness:
  "\<exists>s r. reach sys_init (sys_step no_parse no_dump) s \<and> r = callbackTrampoline_x (\<lambda>_. Inl TypeError) no_parse 0 RET_ERROR [] 4 (rtm s)
     \<and> m_boxes (rtm s) = [4] \<and> m_boxes r = [] \<and> m_inFlight r = 1 \<and> m_state r = Degraded"
proof -
  obtain s0 where s0: "reach sys_init (sys_step no_parse no_dump) s0" "steady 2 0 0 s0" using steady_start by blast
  obtain s1 where s1: "sys_step no_parse no_dump (beat_state 2 0 s0) (Callback 2 RET_ERROR [] 0) s1" "steady 3 1 12000 s1"
    using failed_beat [OF s0(2)] by auto
  have r1: "reach sys_init (sys_step no_parse no_dump) s1"
    by (rule reach_step [OF reach_step [OF s0(1) beat_facts(1) [OF s0(2)]] s1(1)])
  obtain s2 where s2: "sys_step no_parse no_dump (beat_state 3 12000 s1) (Callback 3 RET_ERROR [] 0) s2" "steady 4 2 24000 s2"
    using failed_beat [OF s1(2)] by auto
  have r2: "reach sys_init (sys_step no_parse no_dump) s2"
    by (rule reach_step [OF reach_step [OF r1 beat_facts(1) [OF s1(2)]] s2(1)])
  let ?s = "beat_state 4 24000 s2"
  have r3: "reach sys_init (sys_step no_parse no_dump) ?s"
    by (rule reach_step [OF r2 beat_facts(1) [OF s2(2)]])
  note f = beat_facts(3-7) [OF s2(2)]
  have "m_state r = Degraded \<and> m_inFlight r = int (length (m_boxes r)) + 1 \<and> m_boxes r = remove1 4 (m_boxes (rtm ?s))"
    if "r = callbackTrampoline_x (\<lambda>_. Inl TypeError) no_parse 0 RET_ERROR [] 4 (rtm ?s)" for r
    using unprintable_heartbeat_leaks [OF r3 f(3) _ f(5) _ f(2) f(4) refl that] f(1)
    by (simp add: RET_ERROR_def RET_SUCCESS_def)
  then show ?thesis using r3 f(1) by (intro exI [of _ ?s]) simp
qed

end
