(* ===== verification/Runtime_Start.thy ===== *)
theory Runtime_Start
  imports Runtime_Ledger
begin

text \<open>
  A start in the sections its locks make of it: the check of \<^verbatim>\<open>m_runActive\<close>, which takes no lock; the
  reset under the admission lock; the counters and the budget; the new state; the request under
  the start lock. One after another they are \<open>start_begin\<close>, the single step of the concurrent
  system. The host runs the module's operations on several workers, so two starts can overlap, and
  what happens then is shown here.
\<close>

section \<open>Sections of a start\<close>

definition start_check :: "rt \<Rightarrow> StdLogosResult option" where
  "start_check r = (if m_runActive r then Some (fail_result ''proxy already started'') else None)"

definition start_admission_reset :: "(json \<Rightarrow> string) \<Rightarrow> ProxyConfig \<Rightarrow> rt \<Rightarrow> rt" where
  "start_admission_reset dump cfg r =
     r\<lparr>m_admissionEpoch := m_admissionEpoch r + 1, m_admissionQueue := [], m_queuedNow := 0, m_admitted := 0,
       m_cfg := cfg, m_upstreamJson := toUpstreamJson dump cfg, m_stopRequested := False\<rparr>"

definition start_counters :: "ProxyConfig \<Rightarrow> rt \<Rightarrow> rt" where
  "start_counters cfg r =
     r\<lparr>m_inFlight := 0, m_descriptorsPerCall := i64_max 4 (fan_out_estimate cfg), m_effectiveMaxInFlight := maxInFlight cfg\<rparr>"

text \<open>The budget: a start without room for a single call ends here.\<close>

definition start_budget :: "DescriptorSnapshot \<Rightarrow> ProxyConfig \<Rightarrow> rt \<Rightarrow> StdLogosResult option \<times> rt" where
  "start_budget snap cfg r =
     (let capacity = descriptorOperationCapacity snap (m_descriptorsPerCall r) in
      if 0 \<le> sint capacity then
        let r1 = r\<lparr>m_effectiveMaxInFlight := i64_min (maxInFlight cfg) capacity\<rparr>
        in if capacity = 0
           then (Some (fail_result (no_descriptors_error snap)), setState Failed (no_descriptors_error snap) r1)
           else (None, r1)
      else (None, r))"

definition start_request :: "rt \<Rightarrow> rt" where
  "start_request r =
     (setState Starting [] (r\<lparr>m_thread := True\<rparr>))
       \<lparr>m_startDone := False, m_startOk := False, m_startError := [], m_runFinished := False, m_runRequested := True\<rparr>"

definition start_rest ::
  "(json \<Rightarrow> string) \<Rightarrow> DescriptorSnapshot \<Rightarrow> ProxyConfig \<Rightarrow> rt \<Rightarrow> StdLogosResult option \<times> rt" where
  "start_rest dump snap cfg r =
     (case start_budget snap cfg (start_counters cfg (start_admission_reset dump cfg r)) of
        (Some e, q) \<Rightarrow> (Some e, q)
      | (None, q) \<Rightarrow> (None, start_request q))"

lemma start_begin_sections:
  "start_begin dump snap cfg r =
     (case start_check r of Some e \<Rightarrow> (Some e, r) | None \<Rightarrow> start_rest dump snap cfg r)"
  by (simp add: start_begin_def start_check_def start_rest_def start_budget_def start_counters_def
      start_admission_reset_def start_reset_def start_request_def Let_def)

section \<open>Two starts that overlap\<close>

definition sys_steps :: "(string \<Rightarrow> string + json) \<Rightarrow> (json \<Rightarrow> string) \<Rightarrow> sys \<Rightarrow> sys \<Rightarrow> bool" where
  "sys_steps parse dump = (\<lambda>s t. \<exists>e. sys_step parse dump s e t)\<^sup>*\<^sup>*"

lemma sys_steps_reach:
  assumes "sys_steps parse dump s t" "reach sys_init (sys_step parse dump) s"
  shows "reach sys_init (sys_step parse dump) t"
  using assms unfolding sys_steps_def by (induction rule: rtranclp_induct) (auto intro: reach_step)

lemma run_events_steps: "run_events parse dump es s = Some t \<Longrightarrow> sys_steps parse dump s t"
proof (induction es arbitrary: s)
  case (Cons e es)
  then obtain u where u: "sys_exec parse dump e s = Some u" "sys_steps parse dump u t"
    by (auto split: option.splits)
  then show ?case
    unfolding sys_steps_def by (auto intro: converse_rtranclp_into_rtranclp dest: sys_exec_step)
qed (simp add: sys_steps_def)

lemma start_rest_None:
  assumes "start_rest dump snap cfg q = (None, r)"
  shows "m_inFlight r = 0" "m_admitted r = 0" "m_boxes r = m_boxes q" "m_runActive r = m_runActive q"
    "m_state r = Starting" "m_runRequested r" "m_slots r = m_slots q"
  using assms
  by (auto simp: start_rest_def start_budget_def start_counters_def start_admission_reset_def start_request_def Let_def
      setState_def emit_def split: if_splits)

text \<open>
  C23: A start is not atomic: its check that no run is active takes no lock. When another start gets
  its run going in between, so that the library already holds calls, the first one goes on all
  the same: it resets the counter of calls in flight and the reservations under a run that is
  active, puts the state back to Starting and asks for a second run. The next callback takes the
  counter to minus one, and a drain returns at once with every call still in the library (a defect).
\<close>

theorem overlapping_start_resets_run:
  assumes "reach sys_init (sys_step parse dump) s" "start_check (rtm s) = None" "sys_steps parse dump s t"
    and "start_rest dump snap cfg (rtm t) = (None, r)" "i \<in> set (m_boxes (rtm t))"
  shows "m_inFlight (rtm t) = int (length (m_boxes (rtm t))) \<and> m_inFlight r = 0 \<and> m_boxes r = m_boxes (rtm t)
    \<and> m_admitted r = 0 \<and> m_runActive r \<and> m_state r = Starting \<and> m_runRequested r
    \<and> m_inFlight (callbackTrampoline parse secs status res i r) = -1
    \<and> drain_loop parse secs deadline turns now r = r"
proof -
  have "reach sys_init (sys_step parse dump) t" by (rule sys_steps_reach [OF assms(3,1)])
  then have "sys_ok t" by (rule runtime.reach_inv)
  then have "m_inFlight (rtm t) = int (length (m_boxes (rtm t)))" "m_runActive (rtm t)"
    using assms(5)
    by (auto simp: sys_ok_def calls_ok_def good_def slots_ok_def boxes_ok_def run_ok_def split: if_splits)
  moreover have "drain_loop parse secs deadline turns now r = r"
    by (cases turns) (auto simp: start_rest_None(1) [OF assms(4)])
  ultimately show ?thesis using start_rest_None [OF assms(4)] by simp
qed

theorem overlapping_start_resets_run_witness:
  "start_check (rtm (fresh 1)) = None
   \<and> (\<exists>r. start_rest no_dump roomy default_config (rtm (run_of 1 called_run)) = (None, r)
        \<and> m_runActive r \<and> m_boxes r = [2] \<and> m_inFlight r = 0)"
proof -
  have check: "start_check (rtm (fresh 1)) = None" by (simp add: start_check_def fresh_def new_runtime_def)
  have init: "reach sys_init (sys_step no_parse no_dump) (fresh 1)"
    by (rule reach_init) (auto simp: fresh_def sys_init_def)
  have "run_events no_parse no_dump called_run (fresh 1) = Some (run_of 1 called_run)"
    using called_run_view by (auto simp: run_of_def)
  then have steps: "sys_steps no_parse no_dump (fresh 1) (run_of 1 called_run)" by (rule run_events_steps)
  have "descriptorOperationCapacity roomy (i64_max 4 (fan_out_estimate default_config)) = 329" by code_simp
  then obtain r where r: "start_rest no_dump roomy default_config (rtm (run_of 1 called_run)) = (None, r)"
    by (simp add: start_rest_def start_budget_def start_counters_def Let_def)
  have "2 \<in> set (m_boxes (rtm (run_of 1 called_run)))" "m_boxes (rtm (run_of 1 called_run)) = [2]"
    using called_run_facts(1) by simp_all
  then show ?thesis using overlapping_start_resets_run [OF init check steps r] check r by simp
qed

end
