(* ===== verification/Runtime_Interleaved.thy ===== *)
theory Runtime_Interleaved
  imports Runtime_Start Runtime_Events
begin

text \<open>
  The concurrent runtime with its starts taken apart: any number of threads are inside \<^verbatim>\<open>start\<close> at
  once, each write they make to the shared state is a step of its own, and between two of them every
  other thread may run. The text of a failure, which is written under its own lock, goes with the
  state it belongs to. A run of one such thread alone is \<open>start_begin\<close>.
\<close>

section \<open>A thread inside a start\<close>

text \<open>
  Where the thread is: it has passed the test of \<^verbatim>\<open>m_runActive\<close>, has reset the admission, the counter,
  the cost of a call and the ceiling; it has the budget or found none; it has seen that there is no
  proxy thread, or that there is one; it has exchanged the state and still has to tell the host.
\<close>

datatype starter =
    Elsewhere
  | Tested ProxyConfig
  | Emptied ProxyConfig
  | Zeroed ProxyConfig
  | Costed ProxyConfig
  | Bounded ProxyConfig
  | Short string
  | Budgeted
  | Spawning
  | Spawned
  | Telling State State string
  | Asking

text \<open>The two halves of \<^verbatim>\<open>setState\<close>: the exchange, and the event, which takes no lock.\<close>

definition exchange_state :: "State \<Rightarrow> string \<Rightarrow> 'a rt_core_scheme \<Rightarrow> 'a rt_core_scheme" where
  "exchange_state s err r =
     (let r1 = r\<lparr>m_state := s\<rparr> in if err \<noteq> [] then r1\<lparr>m_lastError := err\<rparr> else r1)"

definition tell_state :: "State \<Rightarrow> State \<Rightarrow> string \<Rightarrow> 'a rt_core_scheme \<Rightarrow> 'a rt_core_scheme" where
  "tell_state prev s err r = (if prev = s then r else emit ''proxyStateChanged'' (state_change prev s err) r)"

lemma setState_halves: "setState s err r = tell_state (m_state r) s err (exchange_state s err r)"
  by (simp add: setState_def exchange_state_def tell_state_def Let_def)

text \<open>
  The next section of the thread. \<^term>\<open>None\<close> is the end of the process: a thread object that is
  assigned to while it already stands for a thread terminates the program.
\<close>

fun start_section ::
  "(json \<Rightarrow> string) \<Rightarrow> DescriptorSnapshot \<Rightarrow> ProxyConfig \<Rightarrow> starter \<Rightarrow> rt \<Rightarrow> starter option \<times> rt" where
  "start_section dump snap cfg Elsewhere r =
     (Some (if start_check r = None then Tested cfg else Elsewhere), r)"
| "start_section dump snap cfg (Tested c) r = (Some (Emptied c), start_admission_reset dump c r)"
| "start_section dump snap cfg (Emptied c) r = (Some (Zeroed c), r\<lparr>m_inFlight := 0\<rparr>)"
| "start_section dump snap cfg (Zeroed c) r =
     (Some (Costed c), r\<lparr>m_descriptorsPerCall := i64_max 4 (fan_out_estimate c)\<rparr>)"
| "start_section dump snap cfg (Costed c) r = (Some (Bounded c), r\<lparr>m_effectiveMaxInFlight := maxInFlight c\<rparr>)"
| "start_section dump snap cfg (Bounded c) r =
     (let capacity = descriptorOperationCapacity snap (m_descriptorsPerCall r) in
      (Some (if capacity = 0 then Short (no_descriptors_error snap) else Budgeted),
       if 0 \<le> sint capacity then r\<lparr>m_effectiveMaxInFlight := i64_min (maxInFlight c) capacity\<rparr> else r))"
| "start_section dump snap cfg (Short why) r = (Some (Telling (m_state r) Failed why), exchange_state Failed why r)"
| "start_section dump snap cfg Budgeted r = (Some (if m_thread r then Spawned else Spawning), r)"
| "start_section dump snap cfg Spawning r =
     (if m_thread r then (None, r) else (Some Spawned, r\<lparr>m_thread := True\<rparr>))"
| "start_section dump snap cfg Spawned r = (Some (Telling (m_state r) Starting []), exchange_state Starting [] r)"
| "start_section dump snap cfg (Telling prev s err) r =
     (Some (if s = Starting then Asking else Elsewhere), tell_state prev s err r)"
| "start_section dump snap cfg Asking r =
     (Some Elsewhere, r\<lparr>m_startDone := False, m_startOk := False, m_startError := [], m_runFinished := False,
        m_runRequested := True\<rparr>)"

text \<open>All sections of one start with no other thread in between; the first argument bounds their number.\<close>

fun section_run ::
  "nat \<Rightarrow> (json \<Rightarrow> string) \<Rightarrow> DescriptorSnapshot \<Rightarrow> ProxyConfig \<Rightarrow> starter \<Rightarrow> rt \<Rightarrow> starter option \<times> rt" where
  "section_run 0 dump snap cfg st r = (Some st, r)"
| "section_run (Suc n) dump snap cfg st r =
     (case start_section dump snap cfg st r of
        (Some st', q) \<Rightarrow> if st' = Elsewhere then (Some Elsewhere, q) else section_run n dump snap cfg st' q
      | (None, q) \<Rightarrow> (None, q))"

lemma sections_make_a_start:
  "section_run 11 dump snap cfg Elsewhere r = (Some Elsewhere, snd (start_begin dump snap cfg r))"
proof -
  have n: "(11 :: nat) = Suc (Suc (Suc (Suc (Suc (Suc (Suc (Suc (Suc (Suc (Suc 0))))))))))" by simp
  show ?thesis
    unfolding n start_begin_sections
    by (simp add: start_check_def start_rest_def start_budget_def start_counters_def start_admission_reset_def
        start_request_def setState_halves exchange_state_def tell_state_def Let_def emit_def)
qed

section \<open>The system\<close>

record fsys =
  fs_sys :: sys
  starters :: "starter list"
  terminated :: bool

datatype fine_event = Base event | Section nat DescriptorSnapshot ProxyConfig

text \<open>A start that is one step does not happen here; everything else does.\<close>

inductive fine_step :: "(string \<Rightarrow> string + json) \<Rightarrow> (json \<Rightarrow> string) \<Rightarrow> fsys \<Rightarrow> fine_event \<Rightarrow> fsys \<Rightarrow> bool"
  for parse dump where
  base: "\<not> terminated f \<Longrightarrow> \<not> is_start e \<Longrightarrow> sys_step parse dump (fs_sys f) e t \<Longrightarrow>
    fine_step parse dump f (Base e) (f\<lparr>fs_sys := t\<rparr>)"
| goes_on: "\<not> terminated f \<Longrightarrow> k < length (starters f) \<Longrightarrow>
    start_section dump snap cfg (starters f ! k) (rtm (fs_sys f)) = (Some st, r) \<Longrightarrow>
    fine_step parse dump f (Section k snap cfg) (f\<lparr>fs_sys := (fs_sys f)\<lparr>rtm := r\<rparr>, starters := (starters f)[k := st]\<rparr>)"
| terminates: "\<not> terminated f \<Longrightarrow> k < length (starters f) \<Longrightarrow>
    start_section dump snap cfg (starters f ! k) (rtm (fs_sys f)) = (None, r) \<Longrightarrow>
    fine_step parse dump f (Section k snap cfg) (f\<lparr>terminated := True\<rparr>)"

definition fine_init :: "fsys \<Rightarrow> bool" where
  "fine_init f \<longleftrightarrow> sys_init (fs_sys f) \<and> (\<forall>st \<in> set (starters f). st = Elsewhere) \<and> \<not> terminated f"

text \<open>
  One start at a time: a start begins only when no other is under way and no run has been asked for or
  is being set up.
\<close>

definition begins_alone :: "fsys \<Rightarrow> fine_event \<Rightarrow> bool" where
  "begins_alone f ev \<longleftrightarrow>
     (case ev of Section k _ _ \<Rightarrow> starters f ! k = Elsewhere \<longrightarrow>
        list_all (\<lambda>st. st = Elsewhere) (starters f) \<and> \<not> m_runRequested (rtm (fs_sys f)) \<and> pc (fs_sys f) \<noteq> Prologue
      | _ \<Rightarrow> True)"

definition lone_step :: "(string \<Rightarrow> string + json) \<Rightarrow> (json \<Rightarrow> string) \<Rightarrow> fsys \<Rightarrow> fine_event \<Rightarrow> fsys \<Rightarrow> bool" where
  "lone_step parse dump f ev g \<longleftrightarrow> fine_step parse dump f ev g \<and> begins_alone f ev"

section \<open>What no section touches\<close>

lemma exchange_frame [simp]:
  "m_admissionQueue (exchange_state s err r) = m_admissionQueue r"
  "m_nextAdmissionTicket (exchange_state s err r) = m_nextAdmissionTicket r"
  "m_admissionEpoch (exchange_state s err r) = m_admissionEpoch r" "m_admitted (exchange_state s err r) = m_admitted r"
  "m_queuedNow (exchange_state s err r) = m_queuedNow r" "m_slots (exchange_state s err r) = m_slots r"
  "m_nextId (exchange_state s err r) = m_nextId r" "m_queue (exchange_state s err r) = m_queue r"
  "m_pending (exchange_state s err r) = m_pending r" "m_boxes (exchange_state s err r) = m_boxes r"
  "m_leakedBoxes (exchange_state s err r) = m_leakedBoxes r" "m_waiters (exchange_state s err r) = m_waiters r"
  "m_inFlight (exchange_state s err r) = m_inFlight r"
  "m_heartbeatInFlight (exchange_state s err r) = m_heartbeatInFlight r"
  "m_syncPhase (exchange_state s err r) = m_syncPhase r"
  by (simp_all add: exchange_state_def Let_def)

lemma tell_frame [simp]:
  "m_admissionQueue (tell_state prev s err r) = m_admissionQueue r"
  "m_nextAdmissionTicket (tell_state prev s err r) = m_nextAdmissionTicket r"
  "m_admissionEpoch (tell_state prev s err r) = m_admissionEpoch r" "m_admitted (tell_state prev s err r) = m_admitted r"
  "m_queuedNow (tell_state prev s err r) = m_queuedNow r" "m_slots (tell_state prev s err r) = m_slots r"
  "m_nextId (tell_state prev s err r) = m_nextId r" "m_queue (tell_state prev s err r) = m_queue r"
  "m_pending (tell_state prev s err r) = m_pending r" "m_boxes (tell_state prev s err r) = m_boxes r"
  "m_leakedBoxes (tell_state prev s err r) = m_leakedBoxes r" "m_waiters (tell_state prev s err r) = m_waiters r"
  "m_inFlight (tell_state prev s err r) = m_inFlight r"
  "m_heartbeatInFlight (tell_state prev s err r) = m_heartbeatInFlight r"
  "m_syncPhase (tell_state prev s err r) = m_syncPhase r"
  by (simp_all add: tell_state_def)

text \<open>A section leaves the calls alone, but for the counter, and the queue, but for a new epoch.\<close>

definition same_queue :: "'a rt_admission_scheme \<Rightarrow> 'a rt_admission_scheme \<Rightarrow> bool" where
  "same_queue q r \<longleftrightarrow> m_admissionQueue q = m_admissionQueue r \<and> m_admissionEpoch q = m_admissionEpoch r
     \<and> m_queuedNow q = m_queuedNow r \<and> m_admitted q = m_admitted r \<and> m_nextAdmissionTicket q = m_nextAdmissionTicket r"

definition section_frame :: "rt \<Rightarrow> rt \<Rightarrow> bool" where
  "section_frame q r \<longleftrightarrow> (\<exists>n. same_calls (q\<lparr>m_inFlight := n\<rparr>) (r\<lparr>m_inFlight := n\<rparr>))
     \<and> (m_inFlight q = m_inFlight r \<or> m_inFlight q = 0)
     \<and> (same_queue q r \<or> m_admissionQueue q = [] \<and> m_admissionEpoch q = m_admissionEpoch r + 1 \<and> m_queuedNow q = 0
          \<and> m_admitted q = 0 \<and> m_nextAdmissionTicket q = m_nextAdmissionTicket r)"

lemma start_section_frame:
  assumes "start_section dump snap cfg st r = (out, q)"
  shows "section_frame q r"
proof (cases st)
  case (Bounded c)
  then show ?thesis
    using assms by (auto simp: section_frame_def same_calls_def same_queue_def Let_def split: if_splits)
qed (use assms in \<open>auto simp: section_frame_def same_calls_def same_queue_def start_admission_reset_def
    split: if_splits\<close>)

lemma section_good_off:
  assumes "section_frame q r" "good_off d p cs r"
  shows "good_off (int (length (m_boxes q)) - m_inFlight q) p cs q"
proof -
  obtain n where same: "same_calls (q\<lparr>m_inFlight := n\<rparr>) (r\<lparr>m_inFlight := n\<rparr>)"
    using assms(1) by (auto simp: section_frame_def)
  have o: "owned q = owned r" using same by (simp add: same_calls_def owned_def fun_eq_iff)
  have "boxes_ok p q"
    using same assms(2) by (intro boxes_ok_same [of q r]) (simp_all add: same_calls_def good_def)
  then show ?thesis
    using assms(2) same by (simp add: good_def slots_ok_def callers_ok_def served_def o same_calls_def)
qed

lemma section_boxes: "section_frame q r \<Longrightarrow> m_boxes q = m_boxes r"
  by (auto simp: section_frame_def same_calls_def)

lemma section_good:
  assumes "section_frame q r" "good_off d p cs r" "0 \<le> d"
  shows "\<exists>d'. 0 \<le> d' \<and> good_off d' p cs q"
proof -
  have "m_inFlight q = m_inFlight r \<or> m_inFlight q = 0" using assms(1) by (auto simp: section_frame_def)
  then have "0 \<le> int (length (m_boxes q)) - m_inFlight q"
    using assms(2,3) by (auto simp: section_boxes [OF assms(1)] good_def slots_ok_def)
  then show ?thesis using section_good_off [OF assms(1,2)] by blast
qed

lemma section_queue_ok:
  assumes "section_frame q r" "queue_ok cs r"
  shows "queue_ok cs q"
proof (cases "same_queue q r")
  case True
  then show ?thesis
    using queue_okD(1) [OF assms(2)]
    by (intro queue_ok_same [OF assms(2)]) (simp_all add: same_queue_def admission_ok_def)
next
  case False
  then show ?thesis using assms by (intro new_epoch_queue_ok [OF assms(2)]) (auto simp: section_frame_def)
qed

section \<open>The steps of the others\<close>

lemma reply_nonneg: "0 \<le> m_admitted r \<Longrightarrow> 0 \<le> m_admitted (library_reply parse secs reply i r)"
  by (simp add: library_reply_def split: option.split Kind.split)

lemma issueSync_nonneg: "0 \<le> m_admitted r \<Longrightarrow> 0 \<le> m_admitted (issueSync parse secs reply kind r)"
  unfolding issueSync_def Let_def alloc_slot_eq prod.case by (rule reply_nonneg) simp

lemma advanceSync_nonneg: "0 \<le> m_admitted r \<Longrightarrow> 0 \<le> m_admitted (advanceSync parse now secs reply r)"
  by (simp add: advanceSync_def issueSync_nonneg split: SyncPhase.split)

lemma keepAlive_nonneg: "0 \<le> m_admitted r \<Longrightarrow> 0 \<le> m_admitted (issueKeepAlive parse secs snap reply r)"
  by (cases "tryAdmit snap r")
    (auto simp: issueKeepAlive_def alloc_slot_eq Let_def intro!: reply_nonneg elim!: tryAdmit_cases split: option.split)

lemma step_nonneg:
  assumes "sys_step parse dump s e t" "0 \<le> m_admitted (rtm s)"
  shows "0 \<le> m_admitted (rtm t)"
  using assms(1)
proof (cases rule: sys_step.cases)
  case (enter c mth params snap now out r)
  then show ?thesis using assms(2) by (elim enter_cases) (simp_all add: set_caller_def enqueued_def)
next
  case (poll c w mth params snap now out r)
  then show ?thesis
    using assms(2) by (elim poll_cases) (simp_all add: set_caller_def removeAdmissionTicketLocked_def)
next
  case (enqueue c mth params out r)
  then show ?thesis
    using assms(2)
    by (elim call_enqueue_cases) (auto simp: set_caller_def alloc_slot_eq Let_def releaseAdmission_def)
next
  case (start_call cfg snap res r)
  then show ?thesis using assms(2) by (elim start_begin_cases) (simp_all add: start_reset_def)
next
  case (start_return report secs res r)
  then show ?thesis using assms(2) start_end_state by fastforce
next
  case (stop_call res r)
  then show ?thesis using assms(2) by (auto simp: stop_begin_def split: if_splits)
next
  case (wake go r)
  then show ?thesis using assms(2) by (auto simp: thread_wake_def run_reset_def split: if_splits)
next
  case (dispatch i r rep secs)
  then show ?thesis using assms(2) by (auto simp: dispatch_front_Some intro: reply_nonneg)
next
  case (beat now snap rep secs)
  then show ?thesis using keepAlive_nonneg [OF assms(2)] by simp
next
  case (callback i status res secs)
  then show ?thesis using assms(2) by (simp split: Kind.split)
qed (use assms(2) in \<open>auto simp: set_caller_def call_finish_def request_shutdown_def thread_park_def run_refused_def
    run_accepted_def teardown_begin_def teardown_free_def teardown_done_def Let_def advanceSync_nonneg\<close>)

text \<open>No heartbeat is out when a run begins.\<close>

definition quiet :: "sys \<Rightarrow> bool" where
  "quiet s \<longleftrightarrow> (pc s = Prologue \<longrightarrow> \<not> m_heartbeatInFlight (rtm s))"

lemma step_quiet:
  assumes "sys_step parse dump s e t" "quiet s"
  shows "quiet t"
  using assms(1)
proof (cases rule: sys_step.cases)
  case (enter c mth params snap now out r)
  then show ?thesis using assms(2) same_run_callers(1) by (auto simp: quiet_def set_caller_def same_run_def)
next
  case (poll c w mth params snap now out r)
  then show ?thesis using assms(2) same_run_callers(2) by (auto simp: quiet_def set_caller_def same_run_def)
next
  case (enqueue c mth params out r)
  then show ?thesis using assms(2) same_run_callers(3) by (auto simp: quiet_def set_caller_def same_run_def)
next
  case (start_call cfg snap res r)
  then show ?thesis using assms(2) by (elim start_begin_cases) (simp_all add: quiet_def start_reset_def)
next
  case (start_return report secs res r)
  then show ?thesis using assms(2) start_end_state by (fastforce simp: quiet_def)
next
  case (stop_call res r)
  then show ?thesis using assms(2) by (auto simp: quiet_def stop_begin_def split: if_splits)
qed (use assms(2) in \<open>auto simp: quiet_def set_caller_def call_finish_def request_shutdown_def thread_wake_def
    run_reset_def split: if_splits\<close>)

section \<open>Every reachable state\<close>

definition fine_ok :: "fsys \<Rightarrow> bool" where
  "fine_ok f \<longleftrightarrow>
     (\<exists>d. 0 \<le> d \<and> good_off d (pc (fs_sys f)) (callers (fs_sys f)) (rtm (fs_sys f)))
     \<and> quiet (fs_sys f) \<and> queue_ok (callers (fs_sys f)) (rtm (fs_sys f))"

lemma section_quiet: "section_frame q (rtm s) \<Longrightarrow> quiet s \<Longrightarrow> quiet (s\<lparr>rtm := q\<rparr>)"
  by (auto simp: section_frame_def same_calls_def quiet_def)

lemma fine_step_ok:
  assumes "fine_ok f" "fine_step parse dump f ev g"
  shows "fine_ok g"
  using assms(2)
proof (cases rule: fine_step.cases)
  case (base e t)
  obtain d where d: "0 \<le> d" "good_off d (pc (fs_sys f)) (callers (fs_sys f)) (rtm (fs_sys f))"
    using assms(1) by (auto simp: fine_ok_def)
  have "good_off (if e = Free then 0 else d) (pc t) (callers t) (rtm t)"
    using step_good [OF base(5) d(2) base(4)] assms(1) by (simp add: fine_ok_def quiet_def)
  moreover have "0 \<le> m_admitted (rtm t)"
    using step_nonneg [OF base(5)] assms(1) by (simp add: fine_ok_def queue_ok_def admission_ok_def)
  then have "queue_ok (callers t) (rtm t)"
    using step_queue_ok [OF base(5)] assms(1) by (simp add: fine_ok_def)
  ultimately show ?thesis
    using step_quiet [OF base(5)] assms(1) d(1) base(2) by (auto simp: fine_ok_def split: if_splits)
next
  case (goes_on k snap cfg st r)
  note frame = start_section_frame [OF goes_on(5)]
  show ?thesis
    using assms(1) section_good [OF frame] section_queue_ok [OF frame] section_quiet [OF frame] goes_on(2)
    by (auto simp: fine_ok_def)
next
  case (terminates k snap cfg r)
  then show ?thesis using assms(1) by (simp add: fine_ok_def)
qed

lemma fine_init_ok: "fine_init f \<Longrightarrow> fine_ok f"
proof -
  assume i: "fine_init f"
  then have "sys_ok (fs_sys f)" "queue_ok (callers (fs_sys f)) (rtm (fs_sys f))"
    using init_ok tickets.inv_init by (simp_all add: fine_init_def)
  then show ?thesis by (auto simp: fine_ok_def sys_ok_def calls_ok_def run_ok_def quiet_def)
qed

interpretation interleaved: run_invariant fine_init "fine_step parse dump" fine_ok for parse dump
  by unfold_locales (auto intro: fine_init_ok fine_step_ok)

text \<open>
  C24: However many starts overlap, and wherever they are interrupted, no caller is lost and no
  answer is written twice. A caller on a slot is the only one there, and its slot is finished, or
  still on its way and listed where the teardown finds it; the admission queue is exactly the callers
  that wait in the current epoch, in their order; the reservations are not negative, and the counter
  of calls in flight is never above the number of boxes in the library. What overlapping starts break
  is that counter from below, the ceiling and the state, not the calls.
\<close>

theorem interleaved_starts_keep_callers:
  assumes "reach fine_init (fine_step parse dump) f" "s = fs_sys f"
  shows "(\<forall>c i. c < length (callers s) \<and> callers s ! c = OnSlot i \<longrightarrow>
        (slot_done (m_slots (rtm s) i)
          \<or> i \<in> set (m_pending (rtm s)) \<and> (i \<in> set (m_queue (rtm s)) \<or> i \<in> set (m_boxes (rtm s))))
        \<and> (\<forall>d < length (callers s). callers s ! d = OnSlot i \<longrightarrow> d = c))
    \<and> set (m_admissionQueue (rtm s)) = {w_ticket w | c w. waits (callers s) c w \<and> w_epoch w = m_admissionEpoch (rtm s)}
    \<and> sorted_wrt (<) (m_admissionQueue (rtm s))
    \<and> 0 \<le> m_admitted (rtm s) \<and> m_inFlight (rtm s) \<le> int (length (m_boxes (rtm s)))
    \<and> (\<forall>ev g. fine_step parse dump f ev g \<longrightarrow> ledger_steps (ledger_of (rtm s)) (ledger_of (rtm (fs_sys g))))"
proof -
  have ok: "fine_ok f" by (rule interleaved.reach_inv [OF assms(1)])
  then obtain d where d: "0 \<le> d" "good_off d (pc s) (callers s) (rtm s)" and q: "queue_ok (callers s) (rtm s)"
    by (auto simp: fine_ok_def assms(2))
  have calls: "callers_ok (callers s) (rtm s)" "slots_off d (rtm s)" using d(2) by (simp_all add: good_def)
  have ledger: "ledger_steps (ledger_of (rtm s)) (ledger_of (rtm (fs_sys g)))" if "fine_step parse dump f ev g" for ev g
    using that
  proof (cases rule: fine_step.cases)
    case (base e t)
    then show ?thesis using step_ledger_slots [OF calls(2)] assms(2) by simp
  next
    case (goes_on k snap cfg st r)
    have "section_frame r (rtm s)" using start_section_frame [OF goes_on(5)] assms(2) by simp
    then have "ledger_steps (ledger_of (rtm s)) (ledger_of r)"
      by (intro ledger_same_steps) (auto simp: section_frame_def same_calls_def)
    then show ?thesis using goes_on(2) by simp
  qed (simp add: assms(2))
  have served: "served (rtm s) i" "\<forall>d < length (callers s). callers s ! d = OnSlot i \<longrightarrow> d = c"
    if "c < length (callers s)" "callers s ! c = OnSlot i" for c i
    using calls(1) that unfolding callers_ok_def by blast+
  have count: "m_inFlight (rtm s) \<le> int (length (m_boxes (rtm s)))" using d(1) calls(2) by (simp add: slots_ok_def)
  have tickets: "set (m_admissionQueue (rtm s)) =
      {w_ticket w | c w. waits (callers s) c w \<and> w_epoch w = m_admissionEpoch (rtm s)}"
    using queue_okD(2,5) [OF q] by blast
  show ?thesis
    using served count tickets ledger queue_okD(1) [OF q]
    by (intro conjI allI impI) (auto simp: served_def admission_ok_def)
qed

section \<open>Runs\<close>

fun fine_exec :: "(string \<Rightarrow> string + json) \<Rightarrow> (json \<Rightarrow> string) \<Rightarrow> fine_event \<Rightarrow> fsys \<Rightarrow> fsys option" where
  "fine_exec parse dump (Base e) f =
     (if terminated f then None
      else case e of StartCall _ _ \<Rightarrow> None
        | _ \<Rightarrow> map_option (\<lambda>t. f\<lparr>fs_sys := t\<rparr>) (sys_exec parse dump e (fs_sys f)))"
| "fine_exec parse dump (Section k snap cfg) f =
     (if terminated f \<or> length (starters f) \<le> k then None
      else case start_section dump snap cfg (starters f ! k) (rtm (fs_sys f)) of
          (Some st, r) \<Rightarrow> Some (f\<lparr>fs_sys := (fs_sys f)\<lparr>rtm := r\<rparr>, starters := (starters f)[k := st]\<rparr>)
        | (None, r) \<Rightarrow> Some (f\<lparr>terminated := True\<rparr>))"

lemma fine_exec_step: "fine_exec parse dump ev f = Some g \<Longrightarrow> fine_step parse dump f ev g"
proof (cases ev)
  case (Base e)
  assume g: "fine_exec parse dump ev f = Some g"
  then have "\<not> is_start e" using Base by (auto simp: is_start_def split: event.splits if_splits)
  moreover from g Base obtain t where "sys_exec parse dump e (fs_sys f) = Some t" "g = f\<lparr>fs_sys := t\<rparr>" "\<not> terminated f"
    by (auto split: event.splits if_splits)
  ultimately show ?thesis using Base by (auto intro: base sys_exec_step)
qed (auto split: if_splits prod.splits option.splits intro: goes_on terminates)

text \<open>A list of events, each of which \<open>may\<close> happen in the state it meets.\<close>

fun fine_events :: "(fsys \<Rightarrow> fine_event \<Rightarrow> bool) \<Rightarrow> fine_event list \<Rightarrow> fsys \<Rightarrow> fsys option" where
  "fine_events may [] f = Some f"
| "fine_events may (ev # evs) f =
     (if may f ev then
        (case fine_exec no_parse no_dump ev f of None \<Rightarrow> None | Some g \<Rightarrow> fine_events may evs g)
      else None)"

abbreviation any_order :: "fsys \<Rightarrow> fine_event \<Rightarrow> bool" where
  "any_order \<equiv> \<lambda>f ev. True"

text \<open>\<open>n\<close> callers, \<open>m\<close> threads that may start, a host that listens.\<close>

definition fine_fresh :: "nat \<Rightarrow> nat \<Rightarrow> fsys" where
  "fine_fresh n m = \<lparr>fs_sys = \<lparr>rtm = new_runtime True, callers = replicate n Outside, pc = Parked\<rparr>,
     starters = replicate m Elsewhere, terminated = False\<rparr>"

definition fine_run :: "(fsys \<Rightarrow> fine_event \<Rightarrow> bool) \<Rightarrow> nat \<Rightarrow> nat \<Rightarrow> fine_event list \<Rightarrow> fsys" where
  "fine_run may n m evs = the (fine_events may evs (fine_fresh n m))"

lemma fine_events_reach:
  "fine_events may evs f = Some g \<Longrightarrow> (\<And>f ev g. fine_step no_parse no_dump f ev g \<Longrightarrow> may f ev \<Longrightarrow> step f ev g) \<Longrightarrow>
   reach fine_init step f \<Longrightarrow> reach fine_init step g"
proof (induction evs arbitrary: f)
  case (Cons ev evs)
  then obtain h where "fine_exec no_parse no_dump ev f = Some h" "may f ev" "fine_events may evs h = Some g"
    by (auto split: option.splits if_splits)
  then show ?case using Cons.IH [of h] Cons.prems(2,3) fine_exec_step by (blast intro: reach_step)
qed simp

lemma fine_view:
  assumes "map_option v (fine_events may evs (fine_fresh n m)) = Some x"
    "\<And>f ev g. fine_step no_parse no_dump f ev g \<Longrightarrow> may f ev \<Longrightarrow> step f ev g"
  shows "v (fine_run may n m evs) = x" "reach fine_init step (fine_run may n m evs)"
proof -
  obtain g where g: "fine_events may evs (fine_fresh n m) = Some g" "v g = x" using assms(1) by auto
  have "fine_init (fine_fresh n m)" by (auto simp: fine_init_def fine_fresh_def sys_init_def)
  then show "v (fine_run may n m evs) = x" "reach fine_init step (fine_run may n m evs)"
    using g fine_events_reach [OF g(1) assms(2) reach_init] by (simp_all add: fine_run_def)
qed

lemma any_view:
  assumes "map_option v (fine_events any_order evs (fine_fresh n m)) = Some x"
  shows "v (fine_run any_order n m evs) = x" "reach fine_init (fine_step no_parse no_dump) (fine_run any_order n m evs)"
  by (rule fine_view(1) [OF assms, of "fine_step no_parse no_dump"], simp) (rule fine_view(2) [OF assms])

lemma lone_view:
  assumes "map_option v (fine_events begins_alone evs (fine_fresh n m)) = Some x"
  shows "v (fine_run begins_alone n m evs) = x" "reach fine_init (lone_step no_parse no_dump) (fine_run begins_alone n m evs)"
  using fine_view [OF assms, of "lone_step no_parse no_dump"] by (simp_all add: lone_step_def)

abbreviation sections :: "nat \<Rightarrow> nat \<Rightarrow> fine_event list" where
  "sections n k \<equiv> replicate n (Section k roomy default_config)"

abbreviation bases :: "event list \<Rightarrow> fine_event list" where
  "bases es \<equiv> map Base es"

text \<open>Two first starts, each past its look at the thread; then both create one.\<close>

definition double_start :: "fine_event list" where
  "double_start = sections 7 0 @ sections 7 1 @ sections 1 0 @ sections 1 1"

text \<open>A start that exchanges the state just before the teardown of the last run reports its end.\<close>

definition crossed_events :: "fine_event list" where
  "crossed_events = sections 11 0
     @ bases [Wake, StartSucceeds 0 None, Advance 0 0 (Some (RET_SUCCESS, [])), Advance 0 0 None, StopCall, LeavePump, Free]
     @ sections 8 0 @ bases [Done] @ sections 2 0"

definition crossed_view :: "fsys \<Rightarrow> starter list \<times> State \<times> bool \<times> bool \<times> (string \<times> string) list" where
  "crossed_view f = (starters f, m_state (rtm (fs_sys f)), m_emit (rtm (fs_sys f)), terminated f,
     state_changes (m_events (rtm (fs_sys f))))"

lemma double_start_view:
  "map_option (\<lambda>f. (terminated f, m_thread (rtm (fs_sys f)))) (fine_events any_order double_start (fine_fresh 0 2)) = Some (True, True)"
  by code_simp

lemma crossed_events_view:
  "map_option crossed_view (fine_events any_order crossed_events (fine_fresh 0 1)) =
     Some ([Elsewhere], Stopped, True, False,
       [(''uninitialized'', ''starting''), (''starting'', ''running''), (''running'', ''stopping''),
        (''starting'', ''stopped''), (''stopping'', ''starting'')])"
  by code_simp

text \<open>A start that passed the test early, and whose reset comes when a call is in the library.\<close>

definition late_reset :: "fine_event list" where
  "late_reset = sections 1 1 @ sections 11 0
     @ bases ([Wake, StartSucceeds 0 None, Advance 0 0 (Some (RET_SUCCESS, [])), Advance 0 0 None] @ one_call 0 @ [Dispatch None])
     @ sections 2 1"

definition late_view :: "fsys \<Rightarrow> caller list \<times> nat list \<times> int \<times> bool \<times> thread_pc" where
  "late_view f = (callers (fs_sys f), m_boxes (rtm (fs_sys f)), m_inFlight (rtm (fs_sys f)),
     slot_done (m_slots (rtm (fs_sys f)) 2), pc (fs_sys f))"

lemma late_reset_view:
  "map_option late_view (fine_events any_order late_reset (fine_fresh 1 2)) = Some ([OnSlot 2], [2], 0, False, Pump)"
  by code_simp

lemmas late_facts = any_view [OF late_reset_view, unfolded late_view_def prod.inject]

theorem interleaved_starts_keep_callers_witness:
  "m_inFlight (rtm (fs_sys (fine_run any_order 1 2 late_reset))) = 0 \<and> m_boxes (rtm (fs_sys (fine_run any_order 1 2 late_reset))) = [2]
   \<and> 2 \<in> set (m_pending (rtm (fs_sys (fine_run any_order 1 2 late_reset))))"
  using interleaved_starts_keep_callers [OF late_facts(2) refl] late_facts(1) by auto

text \<open>
  Two first starts that overlap can end the host process: the thread object is looked at and
  assigned to in two steps, without a lock, so both may find that it stands for no thread and both
  assign a new one; the second assignment finds it joinable, and C++ terminates the program
  then (a defect).
\<close>

theorem first_starts_can_terminate:
  "\<exists>f. reach fine_init (fine_step no_parse no_dump) f \<and> terminated f \<and> m_thread (rtm (fs_sys f))"
  using any_view [OF double_start_view] by auto

text \<open>
  C26: The events of two threads can arrive out of order, because the state is exchanged first and
  the event sent afterwards: a start that comes while the last run is being torn down exchanges the
  state, the teardown reports its end, and then the start sends its event. When all of them are done the
  proxy is Stopped, and the last thing the host heard is that it is starting (a defect).
\<close>

theorem events_out_of_order:
  "\<exists>f evs. reach fine_init (fine_step no_parse no_dump) f \<and> m_emit (rtm (fs_sys f))
     \<and> starters f = [Elsewhere] \<and> m_state (rtm (fs_sys f)) = Stopped
     \<and> state_changes (m_events (rtm (fs_sys f))) = evs @ [(''starting'', ''stopped''), (''stopping'', ''starting'')]"
  using any_view [OF crossed_events_view] by (intro exI [of _ "fine_run any_order 0 1 crossed_events"]) (auto simp: crossed_view_def)

section \<open>One start at a time\<close>

definition away :: "thread_pc \<Rightarrow> bool" where
  "away p \<longleftrightarrow> p = Parked \<or> p = Freed \<or> p = Exited"

definition lone_ok :: "fsys \<Rightarrow> bool" where
  "lone_ok f \<longleftrightarrow> sys_ok (fs_sys f)
     \<and> (\<forall>j < length (starters f). \<forall>k < length (starters f).
          starters f ! j \<noteq> Elsewhere \<and> starters f ! k \<noteq> Elsewhere \<longrightarrow> j = k)
     \<and> (\<forall>k < length (starters f). starters f ! k \<noteq> Elsewhere \<longrightarrow>
          \<not> m_runRequested (rtm (fs_sys f)) \<and> away (pc (fs_sys f)))
     \<and> (\<forall>k < length (starters f). starters f ! k = Spawning \<longrightarrow> \<not> m_thread (rtm (fs_sys f)))
     \<and> \<not> terminated f"

lemma exchange_run [simp]:
  "m_state (exchange_state s err r) = s"
  "m_runActive (exchange_state s err q) = m_runActive q" "m_ctx (exchange_state s err q) = m_ctx q"
  "m_runRequested (exchange_state s err q) = m_runRequested q"
  "m_heartbeatStreak (exchange_state s err p) = m_heartbeatStreak p" "m_syncStreak (exchange_state s err p) = m_syncStreak p"
  "m_startReleased (exchange_state s err p) = m_startReleased p"
  by (simp_all add: exchange_state_def Let_def)

lemma tell_run [simp]:
  "m_state (tell_state prev s err r) = m_state r"
  "m_runActive (tell_state prev s err q) = m_runActive q" "m_ctx (tell_state prev s err q) = m_ctx q"
  "m_runRequested (tell_state prev s err q) = m_runRequested q"
  "m_heartbeatStreak (tell_state prev s err p) = m_heartbeatStreak p" "m_syncStreak (tell_state prev s err p) = m_syncStreak p"
  "m_startReleased (tell_state prev s err p) = m_startReleased p"
  by (simp_all add: tell_state_def emit_def)

definition section_flags :: "starter \<Rightarrow> rt \<Rightarrow> rt \<Rightarrow> bool" where
  "section_flags st q r \<longleftrightarrow> m_state q \<in> {m_state r, Failed, Starting}
     \<and> m_heartbeatStreak q = m_heartbeatStreak r \<and> m_syncStreak q = m_syncStreak r
     \<and> m_heartbeatInFlight q = m_heartbeatInFlight r \<and> m_startReleased q = m_startReleased r
     \<and> m_runActive q = m_runActive r \<and> m_ctx q = m_ctx r \<and> (st \<noteq> Asking \<longrightarrow> m_runRequested q = m_runRequested r)"

lemma start_section_flags:
  assumes "start_section dump snap cfg st r = (out, q)"
  shows "section_flags st q r"
proof (cases st)
  case (Telling prev s err)
  then show ?thesis using assms by (auto simp: section_flags_def)
qed (use assms in \<open>auto simp: section_flags_def start_admission_reset_def Let_def split: if_splits\<close>)

lemma section_run_ok:
  assumes "start_section dump snap cfg st r = (out, q)" "run_ok p r" "away p"
  shows "run_ok p q"
proof -
  note f = start_section_flags [OF assms(1), unfolded section_flags_def]
  have p: "p \<noteq> Pump" "p \<noteq> Drain" "p \<noteq> Prologue" using assms(3) by (auto simp: away_def)
  then have "\<not> live r" using assms(2) by (simp add: run_ok_def)
  then have "\<not> live q" using f by (auto simp: live_def)
  then show ?thesis using assms(2) f p by (simp add: run_ok_def health_def live_def)
qed

text \<open>While a start is under way nobody else asks for a run, makes the thread or lets it run.\<close>

lemma step_away:
  assumes "sys_step parse dump s e t" "\<not> is_start e" "away (pc s)" "\<not> m_runRequested (rtm s)"
  shows "away (pc t) \<and> \<not> m_runRequested (rtm t) \<and> m_thread (rtm t) = m_thread (rtm s)"
  using assms(1)
proof (cases rule: sys_step.cases)
  case (enter c mth params snap now out r)
  then show ?thesis using assms(3,4) same_more [OF enter_more [OF enter(5)]] by (simp add: set_caller_def)
next
  case (poll c w mth params snap now out r)
  then show ?thesis using assms(3,4) same_more [OF poll_more [OF poll(5)]] by (simp add: set_caller_def)
next
  case (enqueue c mth params out r)
  then show ?thesis using assms(3,4) same_more [OF enqueue_more [OF enqueue(5)]] by (simp add: set_caller_def)
next
  case (start_call cfg snap res r)
  then show ?thesis using assms(2) by (simp add: is_start_def)
next
  case (start_return report secs res r)
  then show ?thesis using assms(3,4) start_end_state by fastforce
next
  case (stop_call res r)
  then show ?thesis using assms(3,4) by (auto simp: stop_begin_def split: if_splits)
qed (use assms(3,4) in \<open>auto simp: away_def set_caller_def call_finish_def request_shutdown_def thread_wake_def
    thread_wakes_def thread_park_def teardown_done_def emit_def setState_def Let_def split: if_splits\<close>)

lemma section_sys_ok:
  assumes "start_section dump snap cfg st (rtm s) = (out, q)" "sys_ok s" "away (pc s)"
  shows "sys_ok (s\<lparr>rtm := q\<rparr>)"
proof -
  have g: "good (pc s) (callers s) (rtm s)" and ro: "run_ok (pc s) (rtm s)"
    using assms(2) by (simp_all add: sys_ok_def calls_ok_def)
  have "m_boxes (rtm s) = []" "m_inFlight (rtm s) = 0"
    using g assms(3) by (auto simp: good_def boxes_ok_def slots_ok_def in_library_def away_def)
  then have "m_boxes q = []" "m_inFlight q = 0"
    using start_section_frame [OF assms(1)] section_boxes [OF start_section_frame [OF assms(1)]]
    by (auto simp: section_frame_def)
  then have "good (pc s) (callers s) q"
    using section_good_off [OF start_section_frame [OF assms(1)] g] by simp
  then show ?thesis using section_run_ok [OF assms(1) ro assms(3)] by (simp add: sys_ok_def calls_ok_def)
qed

lemma section_thread:
  assumes "start_section dump snap cfg st r = (out, q)"
  shows "out = Some Spawning \<Longrightarrow> \<not> m_thread q" "out = None \<Longrightarrow> st = Spawning \<and> m_thread r"
    "out \<noteq> Some Elsewhere \<Longrightarrow> st \<noteq> Asking" "st = Elsewhere \<Longrightarrow> q = r"
  using assms by (cases st; auto simp: Let_def split: if_splits)+

lemma lone_step_ok:
  assumes "lone_ok f" "lone_step parse dump f ev g"
  shows "lone_ok g"
proof -
  have fs: "fine_step parse dump f ev g" using assms(2) by (simp add: lone_step_def)
  show ?thesis
    using fs
  proof (cases rule: fine_step.cases)
    case (base e t)
    have "sys_ok t" using runtime.inv_step [OF _ base(5)] assms(1) by (simp add: lone_ok_def)
    then show ?thesis
      using step_away [OF base(5,4)] assms(1) base(2) unfolding lone_ok_def by (auto 0 3)
  next
    case (goes_on k snap cfg st r)
    note sec = goes_on(5)
    have away: "away (pc (fs_sys f))" "\<not> m_runRequested (rtm (fs_sys f))" if "st \<noteq> Elsewhere \<or> starters f ! k \<noteq> Elsewhere"
    proof -
      have "away (pc (fs_sys f)) \<and> \<not> m_runRequested (rtm (fs_sys f))"
      proof (cases "starters f ! k = Elsewhere")
        case True
        then have "\<not> m_runActive (rtm (fs_sys f))" using that sec by (auto simp: start_check_def split: if_splits)
        moreover have "pc (fs_sys f) \<noteq> Prologue" "\<not> m_runRequested (rtm (fs_sys f))"
          using assms(2) goes_on(1) True by (simp_all add: lone_step_def begins_alone_def)
        ultimately show ?thesis
          using assms(1) by (cases "pc (fs_sys f)") (auto simp: lone_ok_def sys_ok_def run_ok_def away_def in_library_def)
      next
        case False
        then show ?thesis using assms(1) goes_on(4) by (auto simp: lone_ok_def)
      qed
      then show "away (pc (fs_sys f))" "\<not> m_runRequested (rtm (fs_sys f))" by simp_all
    qed
    have alone: "starters f ! j = Elsewhere" if "j < length (starters f)" "j \<noteq> k" "st \<noteq> Elsewhere" for j
      using that assms goes_on(1,4) by (cases "starters f ! k = Elsewhere") (auto simp: lone_ok_def lone_step_def begins_alone_def list_all_length)
    have moved: "if st = Elsewhere then n \<noteq> k \<and> starters f ! n \<noteq> Elsewhere else n = k"
      if "n < length (starters f)" "(starters f)[k := st] ! n \<noteq> Elsewhere" for n
      using that alone [of n] by (cases "n = k") auto
    have still: "r = rtm (fs_sys f)" if "st = Elsewhere" "j < length (starters f)" "j \<noteq> k" "starters f ! j \<noteq> Elsewhere" for j
      using that assms(1) goes_on(4) section_thread(4) [OF sec] by (auto simp: lone_ok_def)
    have new: "\<not> m_runRequested r" if "st \<noteq> Elsewhere"
      using that away(2) start_section_flags [OF sec] section_thread(3) [OF sec] by (simp add: section_flags_def)
    have "sys_ok ((fs_sys f)\<lparr>rtm := r\<rparr>)"
    proof (cases "starters f ! k = Elsewhere")
      case True
      then show ?thesis using assms(1) section_thread(4) [OF sec] by (simp add: lone_ok_def)
    next
      case False
      then show ?thesis using section_sys_ok [OF sec] away(1) assms(1) by (simp add: lone_ok_def)
    qed
    moreover have "i = j" if "i < length (starters f)" "j < length (starters f)"
        "(starters f)[k := st] ! i \<noteq> Elsewhere" "(starters f)[k := st] ! j \<noteq> Elsewhere" for i j
    proof -
      have "starters f ! i \<noteq> Elsewhere \<and> starters f ! j \<noteq> Elsewhere \<or> i = k \<and> j = k"
        using moved that by (cases "st = Elsewhere") simp_all
      then show ?thesis using assms(1) that(1,2) unfolding lone_ok_def by blast
    qed
    moreover have "\<not> m_runRequested r \<and> away (pc (fs_sys f)) \<and> ((starters f)[k := st] ! j = Spawning \<longrightarrow> \<not> m_thread r)"
      if j: "j < length (starters f)" "(starters f)[k := st] ! j \<noteq> Elsewhere" for j
    proof (cases "st = Elsewhere")
      case True
      then have "j \<noteq> k" "starters f ! j \<noteq> Elsewhere" using moved [OF j] by simp_all
      then show ?thesis using still [OF True j(1)] assms(1) j(1) by (auto simp: lone_ok_def)
    next
      case False
      then have "j = k" using moved [OF j] by simp
      then show ?thesis using False new away(1) section_thread(1) [OF sec] goes_on(4) by auto
    qed
    ultimately show ?thesis using goes_on(2,3) by (auto simp: lone_ok_def)
  next
    case (terminates k snap cfg r)
    then show ?thesis using section_thread(2) [OF terminates(5)] assms(1) by (auto simp: lone_ok_def)
  qed
qed

interpretation alone: run_invariant fine_init "lone_step parse dump" lone_ok for parse dump
proof
  fix f assume "fine_init f"
  then show "lone_ok f"
    using init_ok by (auto simp: fine_init_def lone_ok_def all_set_conv_all_nth)
qed (rule lone_step_ok)

text \<open>
  C25: A start that does not overlap with another, and begins when no run has been asked for or is being
  set up, may be interrupted anywhere: the counter of calls in flight stays the number of boxes, and
  while the start is under way the proxy thread is outside the library, holds no context and takes no
  calls. The process is not terminated. For the calls and the health of the run such a start is as
  good as one step.
\<close>

theorem lone_start_keeps_invariants:
  assumes "reach fine_init (lone_step parse dump) f" "s = fs_sys f"
  shows "m_inFlight (rtm s) = int (length (m_boxes (rtm s)))
    \<and> (live (rtm s) \<longrightarrow> pc s = Pump \<and> m_ctx (rtm s)
         \<and> (m_state (rtm s) = Degraded \<longleftrightarrow> 3 \<le> m_heartbeatStreak (rtm s) \<or> 3 \<le> m_syncStreak (rtm s)))
    \<and> (\<forall>k < length (starters f). starters f ! k \<noteq> Elsewhere \<longrightarrow>
         \<not> m_runActive (rtm s) \<and> \<not> m_ctx (rtm s) \<and> m_boxes (rtm s) = [] \<and> \<not> live (rtm s))
    \<and> \<not> terminated f"
proof -
  have ok: "lone_ok f" by (rule alone.reach_inv [OF assms(1)])
  then have s: "good (pc s) (callers s) (rtm s)" "run_ok (pc s) (rtm s)"
    by (simp_all add: lone_ok_def sys_ok_def calls_ok_def assms(2))
  have out: "\<not> m_runActive (rtm s) \<and> \<not> m_ctx (rtm s) \<and> m_boxes (rtm s) = [] \<and> \<not> live (rtm s)"
    if "k < length (starters f)" "starters f ! k \<noteq> Elsewhere" for k
  proof -
    have "away (pc s)" using ok that by (auto simp: lone_ok_def assms(2))
    then show ?thesis using s by (auto simp: good_def boxes_ok_def run_ok_def in_library_def away_def)
  qed
  have "m_inFlight (rtm s) = int (length (m_boxes (rtm s)))" using s(1) by (simp add: good_def slots_ok_def)
  moreover have "pc s = Pump \<and> m_ctx (rtm s)
      \<and> (m_state (rtm s) = Degraded \<longleftrightarrow> 3 \<le> m_heartbeatStreak (rtm s) \<or> 3 \<le> m_syncStreak (rtm s))" if "live (rtm s)"
    using s(2) that by (auto simp: run_ok_def health_def live_def in_library_def kDegradeAfter_def)
  ultimately show ?thesis using out ok by (simp add: lone_ok_def)
qed

text \<open>A start under way between the two parts of a teardown.\<close>

definition lone_run :: "fine_event list" where
  "lone_run = sections 11 0
     @ bases [Wake, StartSucceeds 0 None, Advance 0 0 (Some (RET_SUCCESS, [])), Advance 0 0 None, StopCall, LeavePump, Free]
     @ sections 3 0"

definition lone_run_view :: "fsys \<Rightarrow> nat \<times> bool \<times> thread_pc" where
  "lone_run_view f = (length (starters f), starters f ! 0 \<noteq> Elsewhere, pc (fs_sys f))"

lemma lone_run_ends: "map_option lone_run_view (fine_events begins_alone lone_run (fine_fresh 1 1)) = Some (1, True, Freed)"
  by code_simp

lemmas lone_facts = lone_view [OF lone_run_ends, unfolded lone_run_view_def prod.inject]

theorem lone_start_keeps_invariants_witness:
  "\<not> m_runActive (rtm (fs_sys (fine_run begins_alone 1 1 lone_run))) \<and> \<not> terminated (fine_run begins_alone 1 1 lone_run)
   \<and> starters (fine_run begins_alone 1 1 lone_run) ! 0 \<noteq> Elsewhere"
  using lone_start_keeps_invariants [OF lone_facts(2) refl] lone_facts(1) by auto

text \<open>
  The ceiling is not kept, though: a start clears the stop flag and the reservations before it sets the
  ceiling of the new run, so callers that passed their checks in the run before are let in by the old
  ceiling in between. With a lower new ceiling the reservations are above it from the beginning.
\<close>

definition lowered_run :: "fine_event list" where
  "lowered_run = sections 11 0
     @ bases [Wake, StartSucceeds 0 None, Advance 0 0 (Some (RET_SUCCESS, [])), Advance 0 0 None,
         Check 0 ''eth_chainId'' (JArr []), Check 1 ''eth_chainId'' (JArr []), StopCall, LeavePump, Free, Done]
     @ replicate 2 (Section 0 roomy (default_config\<lparr>maxInFlight := 1\<rparr>))
     @ bases [Enter 0 roomy 0, Enter 1 roomy 0]
     @ sections 8 0"

definition lowered_view :: "fsys \<Rightarrow> bool \<times> int \<times> int" where
  "lowered_view f = (list_all (\<lambda>st. st = Elsewhere) (starters f), m_admitted (rtm (fs_sys f)),
     sint (m_effectiveMaxInFlight (rtm (fs_sys f))))"

lemma lowered_run_ends: "map_option lowered_view (fine_events begins_alone lowered_run (fine_fresh 2 1)) = Some (True, 2, 1)"
  by code_simp

theorem ceiling_lowered_under_callers:
  "\<exists>f. reach fine_init (lone_step no_parse no_dump) f \<and> (\<forall>st \<in> set (starters f). st = Elsewhere)
     \<and> sint (m_effectiveMaxInFlight (rtm (fs_sys f))) < m_admitted (rtm (fs_sys f))"
  using lone_view [OF lowered_run_ends]
  by (intro exI [of _ "fine_run begins_alone 2 1 lowered_run"]) (auto simp: lowered_view_def list_all_iff)

end
