(* ===== verification/Rpc_Table.thy ===== *)
theory Rpc_Table
  imports Rpc_Wrappers
begin

text \<open>
  The table the typed calls are generated from, \<^verbatim>\<open>tools/rpc_methods.json\<close>, with what the generator
  \<^verbatim>\<open>tools/gen_rpc_methods.py\<close> makes of a row, and that the committed wrappers are exactly what it
  generates.
\<close>

section \<open>The table\<close>

datatype param_kind = KStr | KBool | KQty | KJson

text \<open>A row is a method of the library and the kinds of its parameters.\<close>

definition rpc_methods :: "(string \<times> param_kind list) list" where
  "rpc_methods =
     [(''eth_chainId'', []),
      (''eth_blockNumber'', []),
      (''eth_syncing'', []),
      (''eth_getBalance'', [KStr, KStr]),
      (''eth_getStorageAt'', [KStr, KStr, KStr]),
      (''eth_getTransactionCount'', [KStr, KStr]),
      (''eth_getCode'', [KStr, KStr]),
      (''eth_getBlockByHash'', [KStr, KBool]),
      (''eth_getBlockByNumber'', [KStr, KBool]),
      (''eth_getUncleCountByBlockNumber'', [KStr]),
      (''eth_getUncleCountByBlockHash'', [KStr]),
      (''eth_getBlockTransactionCountByNumber'', [KStr]),
      (''eth_getBlockTransactionCountByHash'', [KStr]),
      (''eth_getTransactionByBlockNumberAndIndex'', [KStr, KQty]),
      (''eth_getTransactionByBlockHashAndIndex'', [KStr, KQty]),
      (''eth_call'', [KJson, KStr, KBool]),
      (''eth_createAccessList'', [KJson, KStr, KBool]),
      (''eth_estimateGas'', [KJson, KStr, KBool]),
      (''eth_getTransactionByHash'', [KStr]),
      (''eth_getBlockReceipts'', [KStr]),
      (''eth_getTransactionReceipt'', [KStr]),
      (''eth_getLogs'', [KJson]),
      (''eth_newFilter'', [KJson]),
      (''eth_uninstallFilter'', [KStr]),
      (''eth_getFilterLogs'', [KStr]),
      (''eth_getFilterChanges'', [KStr]),
      (''eth_blobBaseFee'', []),
      (''eth_gasPrice'', []),
      (''eth_maxPriorityFeePerGas'', []),
      (''eth_feeHistory'', [KQty, KStr, KJson]),
      (''eth_sendRawTransaction'', [KStr]),
      (''op_chainId'', []),
      (''op_blockNumber'', []),
      (''op_getBalance'', [KStr, KStr]),
      (''op_getStorageAt'', [KStr, KStr, KStr]),
      (''op_getTransactionCount'', [KStr, KStr]),
      (''op_getCode'', [KStr, KStr]),
      (''op_getBlockByHash'', [KStr, KBool]),
      (''op_getBlockByNumber'', [KStr, KBool]),
      (''op_getUncleCountByBlockNumber'', [KStr]),
      (''op_getUncleCountByBlockHash'', [KStr]),
      (''op_getBlockTransactionCountByNumber'', [KStr]),
      (''op_getBlockTransactionCountByHash'', [KStr]),
      (''op_getTransactionByBlockNumberAndIndex'', [KStr, KQty]),
      (''op_getTransactionByBlockHashAndIndex'', [KStr, KQty]),
      (''op_call'', [KJson, KStr, KBool]),
      (''op_createAccessList'', [KJson, KStr, KBool]),
      (''op_estimateGas'', [KJson, KStr, KBool]),
      (''op_getTransactionByHash'', [KStr]),
      (''op_getBlockReceipts'', [KStr]),
      (''op_getTransactionReceipt'', [KStr]),
      (''op_getLogs'', [KJson]),
      (''op_newFilter'', [KJson]),
      (''op_uninstallFilter'', [KStr]),
      (''op_getFilterLogs'', [KStr]),
      (''op_getFilterChanges'', [KStr]),
      (''op_blobBaseFee'', []),
      (''op_gasPrice'', []),
      (''op_maxPriorityFeePerGas'', []),
      (''op_feeHistory'', [KQty, KStr, KJson]),
      (''op_sendRawTransaction'', [KStr])]"

definition SKIP :: "string list" where
  "SKIP = [''eth_syncing'']"

definition wrapper_table :: "(string \<times> param_kind list) list" where
  "wrapper_table = filter (\<lambda>e. fst e \<notin> set SKIP) rpc_methods"

section \<open>What a row generates\<close>

text \<open>An argument of a wrapper, by the type its kind gives it in the signature, and how it is passed on.\<close>

datatype wrapper_arg = AStr string | ABool bool | AQty u64 | AJson json

fun CPP_TYPE :: "wrapper_arg \<Rightarrow> param_kind" where
  "CPP_TYPE (AStr _) = KStr"
| "CPP_TYPE (ABool _) = KBool"
| "CPP_TYPE (AQty _) = KQty"
| "CPP_TYPE (AJson _) = KJson"

fun ARG_WRAP :: "wrapper_arg \<Rightarrow> json" where
  "ARG_WRAP (AStr s) = JStr s"
| "ARG_WRAP (ABool b) = JBool b"
| "ARG_WRAP (AQty n) = JStr (quantityHex n)"
| "ARG_WRAP (AJson j) = j"

text \<open>A wrapper of the row, called with arguments of its signature.\<close>

definition emit_impl :: "string \<times> param_kind list \<Rightarrow> wrapper_arg list \<Rightarrow> (string \<times> json list) option" where
  "emit_impl e args = (if map CPP_TYPE args = snd e then Some (fst e, map ARG_WRAP args) else None)"

definition generated :: "(string \<times> param_kind list) list \<Rightarrow> (string \<times> json list) set" where
  "generated table = {call. \<exists>e \<in> set table. \<exists>args. emit_impl e args = Some call}"

section \<open>Rows and wrappers\<close>

definition arg_lists :: "param_kind list \<Rightarrow> json list set" where
  "arg_lists ks = {map ARG_WRAP args | args. map CPP_TYPE args = ks}"

lemma arg_lists_Nil [simp]: "js \<in> arg_lists [] \<longleftrightarrow> js = []"
  by (simp add: arg_lists_def)

lemma arg_lists_Cons: "js \<in> arg_lists (k # ks) \<longleftrightarrow>
    (\<exists>a qs. js = ARG_WRAP a # qs \<and> CPP_TYPE a = k \<and> qs \<in> arg_lists ks)"
proof
  assume "\<exists>a qs. js = ARG_WRAP a # qs \<and> CPP_TYPE a = k \<and> qs \<in> arg_lists ks"
  then obtain a args where "js = map ARG_WRAP (a # args)" "map CPP_TYPE (a # args) = k # ks"
    by (auto simp: arg_lists_def)
  then show "js \<in> arg_lists (k # ks)" unfolding arg_lists_def mem_Collect_eq by (intro exI conjI)
next
  assume "js \<in> arg_lists (k # ks)"
  then obtain a args where "js = ARG_WRAP a # map ARG_WRAP args" "CPP_TYPE a = k" "map CPP_TYPE args = ks"
    by (auto simp: arg_lists_def map_eq_Cons_conv)
  then show "\<exists>a qs. js = ARG_WRAP a # qs \<and> CPP_TYPE a = k \<and> qs \<in> arg_lists ks"
    by (intro exI [of _ a] exI [of _ "map ARG_WRAP args"]) (auto simp: arg_lists_def)
qed

lemma ex_wrapper_arg: "(\<exists>a. P a) \<longleftrightarrow> (\<exists>s. P (AStr s)) \<or> (\<exists>b. P (ABool b)) \<or> (\<exists>n. P (AQty n)) \<or> (\<exists>j. P (AJson j))"
  by (metis wrapper_arg.exhaust)

lemma arg_lists_kinds [simp]:
  "js \<in> arg_lists (KStr # ks) \<longleftrightarrow> (\<exists>s qs. js = JStr s # qs \<and> qs \<in> arg_lists ks)"
  "js \<in> arg_lists (KBool # ks) \<longleftrightarrow> (\<exists>b qs. js = JBool b # qs \<and> qs \<in> arg_lists ks)"
  "js \<in> arg_lists (KQty # ks) \<longleftrightarrow> (\<exists>n qs. js = JStr (quantityHex n) # qs \<and> qs \<in> arg_lists ks)"
  "js \<in> arg_lists (KJson # ks) \<longleftrightarrow> (\<exists>j qs. js = j # qs \<and> qs \<in> arg_lists ks)"
  by (simp_all add: arg_lists_Cons ex_wrapper_arg)

lemma generated_rows: "(m, js) \<in> generated table \<longleftrightarrow> (\<exists>ks. (m, ks) \<in> set table \<and> js \<in> arg_lists ks)"
  by (force simp: generated_def emit_impl_def arg_lists_def)

text \<open>The rows of the first chain; those of the other are the same with its prefix.\<close>

definition eth_rows :: "(string \<times> param_kind list) list" where
  "eth_rows = take 30 wrapper_table"

lemma wrapper_rows: "wrapper_table = eth_rows @ map (\<lambda>(m, ks). (''op_'' @ drop 4 m, ks)) eth_rows"
  by (simp add: wrapper_table_def rpc_methods_def SKIP_def eth_rows_def)

lemma eth_rows_literal: "eth_rows = take 2 rpc_methods @ take 28 (drop 3 rpc_methods)"
  by (simp add: eth_rows_def wrapper_table_def rpc_methods_def SKIP_def)

text \<open>Every wrapper is generated by its row, and every row has its wrapper.\<close>

lemma eth_wrapper_generated: "eth_request m \<in> generated eth_rows"
  by (cases m) (simp_all add: generated_rows eth_rows_literal rpc_methods_def)

lemma eth_row_has_wrapper: "\<forall>e \<in> set eth_rows. \<forall>js \<in> arg_lists (snd e). \<exists>m. eth_request m = (fst e, js)"
  unfolding eth_rows_literal rpc_methods_def
  by (simp; intro conjI ballI; simp only: arg_lists_kinds arg_lists_Nil; clarify; rule exI, rule eth_request.simps)

lemma eth_generated: "generated eth_rows = range eth_request"
proof (intro set_eqI iffI)
  fix call
  assume "call \<in> generated eth_rows"
  then obtain ks where "(fst call, ks) \<in> set eth_rows" "snd call \<in> arg_lists ks"
    by (cases call) (auto simp: generated_rows)
  then obtain m where "eth_request m = (fst call, snd call)"
    using eth_row_has_wrapper by fastforce
  then show "call \<in> range eth_request" by (auto intro: range_eqI [of _ _ m])
qed (auto simp: eth_wrapper_generated)

lemma op_generated: "generated (map (\<lambda>(m, ks). (''op_'' @ drop 4 m, ks)) eth_rows) = range op_request"
proof -
  have "generated (map (\<lambda>(m, ks). (''op_'' @ drop 4 m, ks)) eth_rows)
      = (\<lambda>(m, js). (''op_'' @ drop 4 m, js)) ` generated eth_rows"
  proof (intro set_eqI)
    fix x :: "string \<times> json list"
    show "x \<in> generated (map (\<lambda>(m, ks). (''op_'' @ drop 4 m, ks)) eth_rows)
        \<longleftrightarrow> x \<in> (\<lambda>(m, js). (''op_'' @ drop 4 m, js)) ` generated eth_rows"
      by (cases x) (simp add: generated_rows image_iff Bex_def split_paired_Ex del: append.simps; blast)
  qed
  also have "\<dots> = range (\<lambda>c. op_request (to_op c))"
    by (auto simp: eth_generated op_request_to_op split_beta image_iff)
  also have "\<dots> = range op_request" using to_op_surj by (auto simp: image_iff) metis
  finally show ?thesis .
qed

lemma generated_append: "generated (xs @ ys) = generated xs \<union> generated ys"
  by (auto simp: generated_def)


end
