(* ===== verification/View_Types.thy ===== *)
theory View_Types
  imports Json_Types Module_Impl
begin

text \<open>
  The types of what the module hands out: the configuration views, the document for the library,
  the status and the responses of the endpoint. A type says which fields a value has and may have,
  and of which kind each is; no other field appears.
\<close>

section \<open>Configurations\<close>

definition fields :: "jtype \<Rightarrow> string list \<Rightarrow> (string \<times> jtype) list" where
  "fields t ks = map (\<lambda>k. (k, t)) ks"

lemma fields_simps [simp]: "fields t [] = []" "fields t (k # ks) = (k, t) # fields t ks"
  by (simp_all add: fields_def)

abbreviation tuning_ints :: "string list" where
  "tuning_ints \<equiv> [''maxBlockWalk'', ''maxWindowJumps'', ''parallelBlockDownloads'', ''maxLightClientUpdates'',
     ''headerStoreLen'', ''storageCacheLen'', ''codeCacheLen'', ''accountCacheLen'', ''freezeAtSlot'']"

definition tuning_type :: jtype where
  "tuning_type = TObject (fields TInt tuning_ints @ [(''syncHeaderStore'', TBool)]) []"

definition config_type :: jtype where
  "config_type = TObject
     (fields TString [''network'', ''trustedBlockRoot'', ''beaconSource'', ''logLevel'', ''logFormat'', ''keepAlive'']
      @ fields TInt [''chainId'', ''callTimeoutMs'', ''queueTimeoutMs'', ''startTimeoutMs'', ''drainTimeoutMs'',
          ''pumpIntervalMs'', ''maxInFlight'', ''keepAliveIntervalMs'']
      @ fields (TArray TString) [''executionApiUrls'', ''beaconApiUrls'', ''opExecutionApiUrls'', ''privateTxUrls'',
          ''archiveUrls'']
      @ [(''autoStart'', TBool), (''tuning'', tuning_type),
         (''httpServer'', TObject [(''enabled'', TBool), (''host'', TString), (''port'', TInt)] [])]) []"

definition upstream_type :: jtype where
  "upstream_type = TObject
     (fields TString [''eth2Network'', ''trustedBlockRoot'', ''executionApiUrls'', ''beaconApiUrls'', ''logLevel'', ''logFormat'']
      @ fields TInt tuning_ints @ [(''syncHeaderStore'', TBool)])
     (fields TString [''opExecutionApiUrls'', ''privateTxUrls'', ''archiveUrls''])"

lemma conforms_simple [simp]:
  "conforms TString (JStr s)" "conforms TInt (JInt n)" "conforms TBool (JBool b)" "conforms TAny j"
  "conforms (TArray t) (JArr xs) = list_all (conforms t) xs"
  by simp_all

lemma redactedUrls_typed [simp]: "conforms (TArray TString) (redactedUrls us)"
  by (simp add: redactedUrls_def list_all_iff)

lemma url_view_typed [simp]: "conforms (TArray TString) (url_view redact us)"
  by (simp add: url_view_def list_all_iff redactedUrls_def)

lemma tuning_typed: "conforms tuning_type (tuning_view c)"
  unfolding tuning_view_def tuning_type_def by simp

lemma asJson_typed: "conforms config_type (asJson redact c)"
  unfolding asJson_def config_type_def
  by (simp add: tuning_typed del: conforms.simps(5))

lemma upstream_typed: "conforms upstream_type (jobj (upstream_fields c))"
  unfolding upstream_fields_def upstream_type_def by simp

section \<open>The status\<close>

definition counters_type :: jtype where
  "counters_type = TObject (fields TInt [''callsTotal'', ''callsFailed'', ''callsInFlight'', ''callsAdmitted'',
     ''leakedCalls'', ''pendingSlots'', ''heartbeatFailures'', ''resourceRejections'', ''callsQueued'',
     ''queueTimeouts'']) []"

definition resources_type :: jtype where
  "resources_type = TObject (fields TInt [''openDescriptors'', ''softDescriptorLimit'', ''descriptorReserve'',
     ''estimatedDescriptorsPerCall'', ''configuredMaxInFlight'', ''effectiveMaxInFlight'', ''queuedCalls'',
     ''queueTimeoutMs'']) []"

definition sync_type :: jtype where
  "sync_type = TObject ((''lastError'', TString) #
     fields TInt [''intervalMs'', ''lastSyncedAt'', ''failures'', ''consecutiveFailures'']) []"

definition pump_type :: jtype where
  "pump_type = TObject (fields TInt [''calls'', ''maxMs'']
     @ fields (TArray TInt) [''bucketEdgesMs'', ''idle'', ''busy'']) []"

definition snapshot_fields :: "(string \<times> jtype) list" where
  "snapshot_fields =
     fields TString [''state'', ''network'', ''lastError'', ''keepAlive'']
     @ fields TInt [''chainId'', ''startedAt'', ''uptimeSeconds'']
     @ [(''head'', TObject [(''blockNumber'', TString), (''updatedAt'', TInt)] []),
        (''counters'', counters_type), (''resources'', resources_type), (''sync'', sync_type), (''pump'', pump_type)]"

definition module_fields :: "(string \<times> jtype) list" where
  "module_fields = fields TString [''moduleVersion'', ''libraryVersion'']
     @ [(''httpServer'', TObject [(''running'', TBool), (''endpoint'', TString)] [])]"

definition beacon_fields :: "(string \<times> jtype) list" where
  "beacon_fields = [(''beacon'', TObject [(''source'', TString), (''urls'', TArray TString)] [])]"

definition status_type :: jtype where
  "status_type = TObject (snapshot_fields @ module_fields) beacon_fields"

lemmas status_field_defs = snapshot_fields_def module_fields_def beacon_fields_def

lemma counters_typed: "conforms counters_type (status_counters r)"
  unfolding status_counters_def counters_type_def Let_def by simp

lemma resources_typed: "conforms resources_type (status_resources snap r)"
  unfolding status_resources_def resources_type_def by simp

lemma sync_typed: "conforms sync_type (status_sync r)"
  unfolding status_sync_def sync_type_def Let_def by simp

lemma histogram_typed: "conforms pump_type (pumpHistogram r)"
  unfolding pumpHistogram_def pump_type_def Let_def by (simp add: list_all_iff)

lemma snapshot_typed:
  "conforms (TObject snapshot_fields (module_fields @ beacon_fields)) (statusSnapshot snap secs r)"
  unfolding statusSnapshot_def Let_def status_field_defs
  by (simp add: counters_typed resources_typed sync_typed histogram_typed)

abbreviation growing :: "json \<Rightarrow> bool" where
  "growing \<equiv> conforms (TObject snapshot_fields (module_fields @ beacon_fields))"

lemma growing_jput:
  "growing j \<Longrightarrow> list_ex (\<lambda>f. fst f = k) (snapshot_fields @ module_fields @ beacon_fields) \<Longrightarrow>
   list_all (\<lambda>f. fst f = k \<longrightarrow> conforms (snd f) v) (snapshot_fields @ module_fields @ beacon_fields) \<Longrightarrow>
   growing (jput j k v)"
  by (rule conforms_jput) (force simp: list_ex_iff list_all_iff)+

lemma growing_fields:
  assumes "growing j"
  shows "growing (jput j ''state'' (JStr t))" "growing (jput j ''network'' (JStr t))"
    "growing (jput j ''chainId'' (JInt n))" "growing (jput j ''moduleVersion'' (JStr t))"
    "growing (jput j ''libraryVersion'' (JStr t))"
    "growing (jput j ''beacon'' (jobj [(''source'', JStr t), (''urls'', redactedUrls us)]))"
    "growing (jput j ''httpServer'' (jobj [(''running'', JBool b), (''endpoint'', JStr t)]))"
  by (rule growing_jput [OF assms]; simp add: status_field_defs del: conforms.simps(5))+

lemma status_state_typed: "growing j \<Longrightarrow> growing (status_state configured j)"
  by (simp add: status_state_def growing_fields)

lemma status_config_typed: "growing j \<Longrightarrow> growing (status_config s j)"
  by (simp add: status_config_def growing_fields split: option.split)

lemma jfield_jput_new: "is_object j \<or> is_null j \<Longrightarrow> jfield (jput j k v) k' = (if k' = k then Some v else jfield j k')"
  by (cases j) auto

lemma conforms_object: "conforms (TObject req opt) j \<Longrightarrow> is_object j"
  by (cases j) (simp_all add: conforms.simps(6))

lemma status_has_type: "conforms status_type (status moduleVersion libraryVersion snap secs s)"
proof -
  define j where "j = status_config s (status_state (ms_configured s) (statusSnapshot snap secs (ms_rt s)))"
  have j: "growing j" "is_object j"
    unfolding j_def using snapshot_typed by (blast intro: status_state_typed status_config_typed conforms_object)+
  have g: "growing (jput (jput (jput j ''moduleVersion'' (JStr moduleVersion)) ''libraryVersion'' (JStr libraryVersion))
      ''httpServer'' (jobj [(''running'', JBool up), (''endpoint'', JStr ep)]))" for up ep
    by (intro growing_fields j)
  show ?thesis
    unfolding status_type_def status_def Let_def j_def [symmetric]
    by (rule conforms_require [OF g]) (auto simp: module_fields_def jfield_jput_new j)
qed

text \<open>
  C30: Every view of the module has a fixed type. Whatever the configuration and the state, the
  persisted and the redacted configuration are objects with the same twenty-two fields, the document for the
  library has its sixteen fields (and the three optional lists of URLs), the status has its fifteen
  (and the beacon's), and each supported network its four; every field is of its declared type, and
  there are no others.
\<close>

theorem views_typed:
  "conforms config_type (raw_config c) \<and> conforms config_type (redacted_config c)
    \<and> conforms upstream_type (jobj (upstream_fields c))
    \<and> conforms status_type (status moduleVersion libraryVersion snap secs s)
    \<and> conforms (TArray (TObject [(''name'', TString), (''chainId'', TInt), (''beaconApiUrl'', TString),
        (''executionApiUrl'', TString)] [])) supportedNetworks"
  using asJson_typed [of False c] asJson_typed [of True c] upstream_typed [of c]
    status_has_type [of moduleVersion libraryVersion snap secs s]
  by (simp add: raw_config_def redacted_config_def supportedNetworks_def list_all_iff)

section \<open>Responses\<close>

definition result_type :: jtype where
  "result_type = TObject [(''jsonrpc'', TString), (''id'', TAny), (''result'', TAny)] []"

definition error_type :: jtype where
  "error_type = TObject [(''jsonrpc'', TString), (''id'', TAny),
     (''error'', TObject [(''code'', TInt), (''message'', TString)] [])] []"

definition response_ok :: "json \<Rightarrow> bool" where
  "response_ok j \<longleftrightarrow> conforms result_type j \<or> conforms error_type j"

definition body_ok :: "json \<Rightarrow> bool" where
  "body_ok j = (case j of JArr rs \<Rightarrow> rs \<noteq> [] \<and> list_all response_ok rs | _ \<Rightarrow> response_ok j)"

lemma errorEnvelope_ok [simp]: "response_ok (errorEnvelope rid c m)"
  unfolding response_ok_def errorEnvelope_def errorObject_def error_type_def by simp

lemma answer_ok [simp]: "response_ok (answer rid r)"
  by (cases "success r") (simp_all add: answer_def, simp add: response_ok_def responseEnvelope_def result_type_def)

lemma response_object: "response_ok j \<Longrightarrow> \<exists>kvs. j = JObj kvs"
  by (auto simp: response_ok_def result_type_def error_type_def is_object_iff dest!: conforms_object)

lemma body_ok_response: "response_ok j \<Longrightarrow> body_ok j"
  using response_object [of j] by (auto simp: body_ok_def)

lemma handleOne_ok: "handleOne dispatch req s = (Inr (Some out), s') \<Longrightarrow> response_ok out"
  by (auto simp: handleOne_def Let_def split: if_splits option.splits json.splits prod.splits sum.splits)

lemma handleBatch_ok: "handleBatch dispatch reqs s = (Inr outs, s') \<Longrightarrow> list_all response_ok outs"
proof (induction reqs arbitrary: s outs)
  case (Cons req reqs)
  then show ?case
    by (auto split: prod.splits sum.splits option.splits dest: handleOne_ok)
qed simp

lemma error_body: "dump (errorEnvelope rid c m) = Inr out \<Longrightarrow> \<exists>j. dump j = Inr out \<and> body_ok j"
  by (rule exI, rule conjI, assumption) (simp add: body_ok_response)

text \<open>
  Every body the endpoint answers with is the print of a typed response: one response object
  for a single request, or a non-empty list of them for a batch. A response is version, id and
  result, or version, id and an error with a code and a message, and nothing else; the empty text
  stands for no answer.
\<close>

theorem bodies_typed:
  assumes "handleBody parse dump dispatch body s = (Inr out, s')"
  shows "out = [] \<or> (\<exists>j. dump j = Inr out \<and> body_ok j)"
proof -
  have single: "out = [] \<or> (\<exists>j. dump j = Inr out \<and> body_ok j)"
    if "handleOne dispatch req s = (r, t)"
      "(case r of Inl e \<Rightarrow> (Inl e, t) | Inr None \<Rightarrow> (Inr [], t) | Inr (Some resp) \<Rightarrow> (dump resp, t)) = (Inr out, s')"
    for req r t
  proof (cases r)
    case (Inr resp)
    show ?thesis
    proof (cases resp)
      case (Some j)
      then have "handleOne dispatch req s = (Inr (Some j), t)" using that(1) Inr by simp
      then have "body_ok j" by (blast intro: body_ok_response handleOne_ok)
      then show ?thesis using that(2) Inr Some by auto
    qed (use that(2) Inr in simp)
  qed (use that in simp)
  show ?thesis
  proof (cases "parse body")
    case (Inl what)
    then have "dump (errorEnvelope JNull kParseError (''invalid JSON: '' @ what)) = Inr out"
      using assms by (simp add: handleBody_def del: append.simps)
    then show ?thesis by (intro disjI2 error_body)
  next
    case (Inr req)
    show ?thesis
    proof (cases "\<exists>reqs. req = JArr reqs")
      case True
      then obtain reqs where r: "req = JArr reqs" by blast
      show ?thesis
      proof (cases "reqs = []")
        case True
        then have "dump (errorEnvelope JNull kInvalidRequest ''empty batch'') = Inr out"
          using assms Inr r by (simp add: handleBody_def)
        then show ?thesis by (intro disjI2 error_body)
      next
        case False
        have ok: "body_ok (JArr outs)" if "outs \<noteq> []" "handleBatch dispatch reqs s = (Inr outs, s1)" for outs s1
          using that(1) handleBatch_ok [OF that(2)] by (simp add: body_ok_def)
        show ?thesis
          using assms Inr r False ok
          by (auto simp: handleBody_def split: if_splits prod.splits sum.splits)
      qed
    next
      case False
      obtain r t where h: "handleOne dispatch req s = (r, t)" by fastforce
      have "(case r of Inl e \<Rightarrow> (Inl e, t) | Inr None \<Rightarrow> (Inr [], t) | Inr (Some resp) \<Rightarrow> (dump resp, t)) = (Inr out, s')"
        using assms Inr False h by (cases req) (simp_all add: handleBody_def)
      then show ?thesis by (rule single [OF h])
    qed
  qed
qed

definition kind_of_body :: "json \<Rightarrow> thrown + string" where
  "kind_of_body j = Inr (if is_array j then ''batch'' else if contains j ''result'' then ''result'' else ''error'')"

theorem bodies_typed_witness:
  "\<exists>j. kind_of_body j = Inr ''batch'' \<and> body_ok j"
proof -
  obtain log where "handleBody (\<lambda>_. Inr (JArr sample_batch)) kind_of_body echo [] [] = (Inr ''batch'', log)"
    by (simp add: handleBody_def sample_batch_def handleOne_def echo_def request_params_def adapt_params_def
        is_notification_def contains_def json_simps Let_def takesOptimisticStateFetch_def kind_of_body_def)
  from bodies_typed [OF this] show ?thesis by simp
qed

end
