(* ===== verification/Module_System.thy ===== *)
theory Module_System
  imports Module_Properties Runtime_Queue
begin

text \<open>
  The module and its runtime together: a deployment is a module, the callers and the proxy thread of
  its runtime, and the one operation of the module that is under way, if it waits. The life-cycle
  operations are taken one after the other, as a host that waits for each result makes them; the
  module itself takes no lock, and \<^verbatim>\<open>Runtime_Start\<close> has two of them that overlap. The threads of the
  runtime run between any two operations and while one waits. Every state the deployment reaches has
  a runtime that the concurrent system reaches too, so that what is shown of the runtime holds
  inside the module.
\<close>

section \<open>The blocking operations, cut where they wait\<close>

text \<open>Up to the wait of a start: its outcome, or the module's configuration and the one of the run.\<close>

definition start_post ::
  "'d host \<Rightarrow> 'd module_state \<Rightarrow> ((exn + StdLogosResult) + ProxyConfig \<times> ProxyConfig) \<times> 'd module_state" where
  "start_post h s =
     (if \<not> ms_configured s
      then (Inl (Inr (fail_result (''not configured '' @ em_dash @ '' call configure() first''))), s)
      else if live (ms_rt s) then (Inl (Inr (fail_result ''proxy already started'')), s)
      else case ms_cfg s of
          None \<Rightarrow> (Inl (Inr (fail_result [])), s)
        | Some own \<Rightarrow>
            (case run_config h own of
               Inl e \<Rightarrow> (Inl (Inl e), s)
             | Inr (Inl err) \<Rightarrow> (Inl (Inr (fail_result err)), s)
             | Inr (Inr cfg) \<Rightarrow>
                 (case start_begin (h_dump h) (h_snapshot h) cfg (ms_rt s) of
                    (Some r, rt1) \<Rightarrow> (Inl (Inr r), s\<lparr>ms_rt := rt1\<rparr>)
                  | (None, rt1) \<Rightarrow> (Inr (own, cfg), s\<lparr>ms_rt := rt1\<rparr>))))"

text \<open>
  After that wait: the result, and whether the operation goes on to wait for the stop of a run
  whose endpoint could not be opened.
\<close>

definition endpoint_post :: "'d host \<Rightarrow> ProxyConfig \<Rightarrow> 'd module_state \<Rightarrow> StdLogosResult \<times> bool \<times> 'd module_state" where
  "endpoint_post h cfg s =
     (case http_start (h_inet_pton h) (h_start_daemon h) (httpHost cfg) (word_of_int (sint (httpPort cfg)))
             (http_limit (ms_rt s)) new_http_server of
        (Some err, _) \<Rightarrow>
          (case stop_begin (ms_rt s) of (refusal, rt1) \<Rightarrow>
             (fail_result (''proxy started but the JSON-RPC endpoint could not: '' @ err), refusal = None,
              s\<lparr>ms_http := None, ms_rt := rt1\<rparr>))
      | (None, srv) \<Rightarrow>
          (ok_result (jobj [(''chainId'', JInt (expectedChainId cfg)), (''endpoint'', JStr (http_endpoint srv))]), False,
           s\<lparr>ms_http := Some srv\<rparr>))"

definition start_resume ::
  "'d host \<Rightarrow> ProxyConfig \<Rightarrow> ProxyConfig \<Rightarrow> 'd module_state \<Rightarrow> StdLogosResult \<times> bool \<times> 'd module_state" where
  "start_resume h own cfg s =
     (case start_end (h_report h) (h_secs h) (ms_rt s) of (r, rt1) \<Rightarrow>
        let s1 = s\<lparr>ms_rt := rt1\<rparr>;
            s2 = (if success r then s1\<lparr>ms_beaconUrls := beaconApiUrls cfg\<rparr> else s1)
        in if \<not> success r \<or> \<not> httpEnabled own then (r, False, s2) else endpoint_post h own s2)"

text \<open>The listener goes first; then the stop is requested, or refused without a wait.\<close>

definition stop_post :: "'d module_state \<Rightarrow> StdLogosResult option \<times> 'd module_state" where
  "stop_post s = (case stop_begin (ms_rt s) of (refusal, rt1) \<Rightarrow> (refusal, s\<lparr>ms_http := None, ms_rt := rt1\<rparr>))"

text \<open>What the host's readiness does before it starts, and whether it starts.\<close>

definition load_configured :: "'d host \<Rightarrow> 'd module_state \<Rightarrow> bool \<times> 'd module_state" where
  "load_configured h s =
     (case ms_persisted s of
        None \<Rightarrow> (False, s)
      | Some t \<Rightarrow>
          if t = [] then (False, s)
          else case h_parse h t of
              Inl _ \<Rightarrow> (False, s)
            | Inr j0 \<Rightarrow>
                (case migrateRetiredDefaults j0 of
                   Inl _ \<Rightarrow> (False, s)
                 | Inr (j, _) \<Rightarrow>
                     (case configure h j s of
                        (Inl _, s1) \<Rightarrow> (False, s1)
                      | (Inr r, s1) \<Rightarrow> (success r \<and> value_bool j ''autoStart'' False = Inr True, s1))))"

definition ready_configured :: "'d host \<Rightarrow> 'd module_state \<Rightarrow> bool \<times> 'd module_state" where
  "ready_configured h s =
     (let s1 = load_env h s in if h_path h = [] then (False, s1) else load_configured h s1)"

section \<open>The pieces are the operations\<close>

lemma open_endpoint_split:
  "open_endpoint h cfg s =
     (case endpoint_post h cfg s of (res, goes, s1) \<Rightarrow>
        (res, if goes then s1\<lparr>ms_rt := h_until_stopped h (ms_rt s1)\<rparr> else s1))"
  by (simp add: open_endpoint_def endpoint_post_def stop_op_def split: option.split prod.split)

lemma start_split:
  "start h s =
     (case start_post h s of
        (Inl res, s1) \<Rightarrow> (res, s1)
      | (Inr (own, cfg), s1) \<Rightarrow>
          (case start_resume h own cfg (s1\<lparr>ms_rt := h_until_started h (ms_rt s1)\<rparr>) of
             (res, goes, s2) \<Rightarrow> (Inr res, if goes then s2\<lparr>ms_rt := h_until_stopped h (ms_rt s2)\<rparr> else s2)))"
proof (cases "ms_configured s \<and> \<not> live (ms_rt s)")
  case True
  have fails: "res = Some r \<Longrightarrow> \<not> success r" if "start_begin d snap cfg q = (res, q')" for d snap cfg q res q' r
    using that by (auto simp: start_begin_def Let_def split: if_splits)
  show ?thesis
    using True
    by (auto simp: start_def start_post_def start_op_def start_resume_def open_endpoint_split Let_def
        dest: fails split: option.split sum.split prod.split)
qed (simp add: start_def start_post_def)

lemma stop_split:
  "stop h s =
     (case stop_post s of
        (Some e, s1) \<Rightarrow> (e, s1)
      | (None, s1) \<Rightarrow> (stop_end (h_report h) (h_until_stopped h (ms_rt s1)), s1\<lparr>ms_rt := h_until_stopped h (ms_rt s1)\<rparr>))"
  by (simp add: stop_def stop_post_def stop_op_def split: option.split prod.split)

lemma ready_split:
  "onContextReady h s =
     (case ready_configured h s of (auto, s1) \<Rightarrow> if auto then snd (start h s1) else s1)"
  by (auto simp: onContextReady_def ready_configured_def load_persisted_def load_configured_def Let_def
      split: option.split sum.split prod.split if_splits)

section \<open>Deployments\<close>

datatype module_op = NoOp | StartWait ProxyConfig ProxyConfig | StopWait

record 'd deployment =
  dp_module :: "'d module_state"
  dp_callers :: "caller list"
  dp_pc :: thread_pc
  dp_op :: module_op

definition sys_of :: "'d deployment \<Rightarrow> sys" where
  "sys_of d = \<lparr>rtm = ms_rt (dp_module d), callers = dp_callers d, pc = dp_pc d\<rparr>"

definition with_sys :: "sys \<Rightarrow> 'd deployment \<Rightarrow> 'd deployment" where
  "with_sys t d = d\<lparr>dp_module := (dp_module d)\<lparr>ms_rt := rtm t\<rparr>, dp_callers := callers t, dp_pc := pc t\<rparr>"

text \<open>
  The host of a call: it prints the library's document with the printer of the system, and its beacon
  bridge is the one of the code, over some beacon module.
\<close>

definition host_of :: "(string \<Rightarrow> string + json) \<Rightarrow> (json \<Rightarrow> string) \<Rightarrow> 'd host \<Rightarrow> bool" where
  "host_of parse dump h \<longleftrightarrow> h_dump h = dump \<and> (\<exists>m. h_bridge h = bridge_urls parse m)"

datatype 'd module_event =
    Inside event
  | Configures "'d host" json
  | Ready "'d host"
  | Starts "'d host"
  | Started "'d host"
  | Stops
  | WaitOver

fun own_event :: "event \<Rightarrow> bool" where
  "own_event (StartCall _ _) = False"
| "own_event (StartReturn _) = False"
| "own_event StopCall = False"
| "own_event _ = True"

inductive dep_step :: "(string \<Rightarrow> string + json) \<Rightarrow> (json \<Rightarrow> string) \<Rightarrow> 'd deployment \<Rightarrow> 'd module_event
    \<Rightarrow> 'd deployment \<Rightarrow> bool"
  for parse dump where
  inside: "own_event e \<Longrightarrow> sys_step parse dump (sys_of d) e t \<Longrightarrow> dep_step parse dump d (Inside e) (with_sys t d)"
| configures: "dp_op d = NoOp \<Longrightarrow> configure h config (dp_module d) = (res, m) \<Longrightarrow>
    dep_step parse dump d (Configures h config) (d\<lparr>dp_module := m\<rparr>)"
| ready: "dp_op d = NoOp \<Longrightarrow> ready_configured h (dp_module d) = (auto, m) \<Longrightarrow>
    dep_step parse dump d (Ready h) (d\<lparr>dp_module := m\<rparr>)"
| starts: "dp_op d = NoOp \<Longrightarrow> host_of parse dump h \<Longrightarrow> start_post h (dp_module d) = (out, m) \<Longrightarrow>
    dep_step parse dump d (Starts h)
      (d\<lparr>dp_module := m, dp_op := (case out of Inl _ \<Rightarrow> NoOp | Inr (own, cfg) \<Rightarrow> StartWait own cfg)\<rparr>)"
| started: "dp_op d = StartWait own cfg \<Longrightarrow> start_resume h own cfg (dp_module d) = (res, goes, m) \<Longrightarrow>
    dep_step parse dump d (Started h) (d\<lparr>dp_module := m, dp_op := (if goes then StopWait else NoOp)\<rparr>)"
| stops: "dp_op d = NoOp \<Longrightarrow> stop_post (dp_module d) = (refusal, m) \<Longrightarrow>
    dep_step parse dump d Stops (d\<lparr>dp_module := m, dp_op := (if refusal = None then StopWait else NoOp)\<rparr>)"
| wait_over: "dp_op d = StopWait \<Longrightarrow> dep_step parse dump d WaitOver (d\<lparr>dp_op := NoOp\<rparr>)"

definition dep_init :: "'d deployment \<Rightarrow> bool" where
  "dep_init d \<longleftrightarrow> (\<exists>emitter persisted. dp_module d = new_module emitter persisted)
     \<and> (\<forall>k \<in> set (dp_callers d). k = Outside) \<and> dp_pc d = Parked \<and> dp_op d = NoOp"

section \<open>What a deployment keeps\<close>

text \<open>A configuration the library can be handed: validated, and with beacon URLs whatever their source.\<close>

definition runnable :: "ProxyConfig \<Rightarrow> bool" where
  "runnable c \<longleftrightarrow> valid_config c \<and> beaconApiUrls c \<noteq> []"

definition handed :: "(json \<Rightarrow> string) \<Rightarrow> rt \<Rightarrow> bool" where
  "handed dump r \<longleftrightarrow> m_admissionEpoch r = 0 \<or> runnable (m_cfg r) \<and> m_upstreamJson r = toUpstreamJson dump (m_cfg r)"

definition module_keeps :: "'d module_state \<Rightarrow> bool" where
  "module_keeps s \<longleftrightarrow> ms_configured s = (ms_cfg s \<noteq> None) \<and> (\<forall>c. ms_cfg s = Some c \<longrightarrow> valid_config c)
     \<and> list_all good_url (ms_beaconUrls s) \<and> (\<forall>srv. ms_http s = Some srv \<longrightarrow> http_running srv)"

definition op_keeps :: "module_op \<Rightarrow> bool" where
  "op_keeps p = (case p of StartWait own cfg \<Rightarrow> valid_config own \<and> runnable cfg | _ \<Rightarrow> True)"

lemma run_config_runnable:
  assumes "valid_config own" "run_config h own = Inr (Inr cfg)" "host_of parse dump h"
  shows "runnable cfg"
proof (cases "beaconSource own = ''module''")
  case True
  obtain m where m: "h_bridge h = bridge_urls parse m" using assms(3) by (auto simp: host_of_def)
  obtain urls where u: "h_bridge h (expectedChainId own) = Inr (Inr urls)"
      "cfg = own\<lparr>beaconApiUrls := urls\<rparr>" "urls \<noteq> []"
  proof (cases "h_bridge h (expectedChainId own)")
    case (Inr rc)
    then show thesis using True assms(2) that by (cases rc) (simp_all add: run_config_def split: if_splits)
  qed (use True assms(2) in \<open>simp add: run_config_def\<close>)
  have "list_all good_url urls" using module_bridge.urls_good u(1) m by (auto simp: list_all_iff)
  then show ?thesis using assms(1) u(2,3) by (simp add: runnable_def valid_config_def valid_defs)
next
  case False
  then have "cfg = own" using assms(2) by (simp add: run_config_def)
  moreover have "beaconSource own = ''urls''"
    using assms(1) False by (auto simp: valid_config_def valid_backends_def set_kBeaconSources)
  ultimately show ?thesis using assms(1) by (simp add: runnable_def valid_config_def valid_backends_def)
qed

lemma configure_keeps:
  assumes "configure h config s = (res, m)" "module_keeps s"
  shows "module_keeps m \<and> ms_rt m = ms_rt s"
  using assms
  by (auto simp: configure_def persist_def module_keeps_def dest: fromJson_valid split: sum.splits if_splits)

lemma ready_keeps:
  assumes "ready_configured h s = (auto, m)" "module_keeps s"
  shows "module_keeps m \<and> ms_rt m = ms_rt s"
proof -
  have c: "module_keeps (snd (configure h j t)) \<and> ms_rt (snd (configure h j t)) = ms_rt t" if "module_keeps t" for j t
    by (rule configure_keeps [OF prod.collapse [symmetric] that])
  have e: "module_keeps (load_env h s) \<and> ms_rt (load_env h s) = ms_rt s"
    using c assms(2) by (simp add: load_env_def split: sum.split)
  have "module_keeps (snd (load_configured h t)) \<and> ms_rt (snd (load_configured h t)) = ms_rt t" if "module_keeps t" for t
    using that c [OF that]
    by (auto simp: load_configured_def split: option.split sum.split prod.split) (metis snd_conv)+
  from this [of "load_env h s"] e assms(1) show ?thesis
    by (cases "load_configured h (load_env h s)") (auto simp: ready_configured_def Let_def split: if_splits)
qed

section \<open>Every step of a deployment\<close>

text \<open>Steps of the threads, a return of a start and a stop leave what the library was handed.\<close>

definition same_handed :: "rt \<Rightarrow> rt \<Rightarrow> bool" where
  "same_handed r q \<longleftrightarrow> m_admissionEpoch r = m_admissionEpoch q \<and> m_cfg r = m_cfg q \<and> m_upstreamJson r = m_upstreamJson q"

lemma handed_same: "same_handed r q \<Longrightarrow> handed dump q \<Longrightarrow> handed dump r"
  by (simp add: same_handed_def handed_def)

lemma more_upstream: "rt_health.more r = rt_health.more (q :: rt) \<Longrightarrow> m_upstreamJson r = m_upstreamJson q"
  by (cases r; cases q) simp

lemma same_handed_more:
  "m_admissionEpoch r = m_admissionEpoch q \<Longrightarrow> m_cfg r = m_cfg q \<Longrightarrow> rt_health.more r = rt_health.more q \<Longrightarrow>
   same_handed r q"
  using more_upstream [of r q] by (simp add: same_handed_def)

lemma advance_cfg [simp]: "m_cfg (advanceSync parse now secs reply r) = m_cfg r"
  by (simp add: advanceSync_def issueSync_def alloc_slot_eq Let_def split: SyncPhase.split)

lemma keepAlive_cfg [simp]: "m_cfg (issueKeepAlive parse secs snap reply r) = m_cfg r"
  by (cases "tryAdmit snap r")
    (auto simp: issueKeepAlive_def alloc_slot_eq Let_def elim!: tryAdmit_cases split: option.split)

lemma caller_handed:
  "admission_enter snap now q = (out, r) \<Longrightarrow> same_handed r q"
  "admission_poll snap now w q = (out, r) \<Longrightarrow> same_handed r q"
  "call_enqueue m ps q = (out', r) \<Longrightarrow> same_handed r q"
  "call_finish parse report i q = (res, r) \<Longrightarrow> same_handed r q"
proof -
  assume a: "admission_enter snap now q = (out, r)"
  show "same_handed r q"
    by (rule same_handed_more [OF _ _ enter_more [OF a]]) (use a in \<open>auto simp: enqueued_def elim!: enter_cases\<close>)
next
  assume a: "admission_poll snap now w q = (out, r)"
  show "same_handed r q"
    by (rule same_handed_more [OF _ _ poll_more [OF a]])
      (use a in \<open>auto simp: removeAdmissionTicketLocked_def elim!: poll_cases\<close>)
next
  assume a: "call_enqueue m ps q = (out', r)"
  show "same_handed r q"
    by (rule same_handed_more [OF _ _ enqueue_more [OF a]])
      (use a in \<open>auto simp: alloc_slot_eq Let_def elim!: call_enqueue_cases\<close>)
qed (auto simp: call_finish_def same_handed_def)

lemma inside_handed:
  assumes "sys_step parse dump s e t" "own_event e"
  shows "same_handed (rtm t) (rtm s)"
  using assms
proof (cases rule: sys_step.cases)
  case (enter c mth params snap now out r)
  then show ?thesis by (simp add: set_caller_def caller_handed)
next
  case (poll c w mth params snap now out r)
  then show ?thesis by (simp add: set_caller_def caller_handed)
next
  case (enqueue c mth params out r)
  then show ?thesis by (simp add: set_caller_def caller_handed)
next
  case (finish c i report res r)
  then show ?thesis by (simp add: set_caller_def caller_handed)
next
  case (advance now secs rep)
  then show ?thesis using advanceSync_admission [of parse now secs rep "rtm s"]
    by (auto simp: same_admission_def intro: same_handed_more)
next
  case (beat now snap rep secs)
  then have "same_handed (issueKeepAlive parse secs snap rep (rtm s)) (rtm s)"
    using issueKeepAlive_admission [of parse secs snap rep "rtm s"]
    by (auto simp: same_admission_def intro: same_handed_more)
  then show ?thesis using beat by (simp add: same_handed_def)
next
  case (dispatch i r rep secs)
  have "same_handed r (rtm s)" using dispatch(4) by (auto simp: dispatch_front_Some same_handed_def)
  moreover have "same_handed (library_reply parse secs rep i r) r" by (rule same_handed_more) simp_all
  ultimately show ?thesis using dispatch by (simp add: same_handed_def)
next
  case (callback i status res secs)
  then show ?thesis by (intro same_handed_more) simp_all
next
  case leave_pump
  then show ?thesis
    using more_upstream [OF release_more, of False "''the proxy was stopped before its first light-client sync''" "rtm s"]
    by (auto simp: same_handed_def teardown_begin_def setState_def emit_def Let_def)
next
  case free
  show ?thesis
    using more_upstream [OF fail_each_more, of "''proxy shutting down''" "m_pending (rtm s)" "(rtm s)\<lparr>m_pending := [], m_queue := []\<rparr>"]
    by (simp add: free same_handed_def teardown_free_def failAllPending_def Let_def)
qed (auto simp: set_caller_def request_shutdown_def thread_wake_def run_reset_def run_refused_def
    run_accepted_def thread_park_def teardown_done_def Let_def same_handed_def setState_def emit_def split: if_splits)

text \<open>A step of the module is at most one step of the system, and keeps the two contracts.\<close>

definition dep_ok :: "(string \<Rightarrow> string + json) \<Rightarrow> (json \<Rightarrow> string) \<Rightarrow> 'd deployment \<Rightarrow> bool" where
  "dep_ok parse dump d \<longleftrightarrow> reach sys_init (sys_step parse dump) (sys_of d)
     \<and> module_keeps (dp_module d) \<and> op_keeps (dp_op d) \<and> handed dump (ms_rt (dp_module d))"

definition at_most_one :: "(string \<Rightarrow> string + json) \<Rightarrow> (json \<Rightarrow> string) \<Rightarrow> sys \<Rightarrow> rt \<Rightarrow> bool" where
  "at_most_one parse dump s r \<longleftrightarrow> rtm s = r \<or> (\<exists>e. sys_step parse dump s e (s\<lparr>rtm := r\<rparr>))"

lemma at_most_one_reach:
  assumes "reach sys_init (sys_step parse dump) s" "at_most_one parse dump s r"
  shows "reach sys_init (sys_step parse dump) (s\<lparr>rtm := r\<rparr>)"
proof (cases "rtm s = r")
  case True
  then have "s\<lparr>rtm := r\<rparr> = s" by (cases s) simp
  then show ?thesis using assms(1) by simp
next
  case False
  then obtain e where "sys_step parse dump s e (s\<lparr>rtm := r\<rparr>)" using assms(2) by (auto simp: at_most_one_def)
  with assms(1) show ?thesis by (rule reach_step)
qed

lemma sys_of_module: "sys_of (d\<lparr>dp_module := m\<rparr>) = (sys_of d)\<lparr>rtm := ms_rt m\<rparr>"
  by (simp add: sys_of_def)

lemma stop_begin_one: "stop_begin r = (out, q) \<Longrightarrow> rtm s = r \<Longrightarrow> at_most_one parse dump s q \<and> same_handed q r"
  using stop_call [of s out q parse dump]
  by (auto simp: at_most_one_def same_handed_def stop_begin_def split: if_splits)

lemma start_post_cases:
  assumes "start_post h s = (out, m)"
  obtains (refused) e where "out = Inl e" "m = s"
  | (begun) own cfg res r where "ms_cfg s = Some own" "run_config h own = Inr (Inr cfg)"
      "start_begin (h_dump h) (h_snapshot h) cfg (ms_rt s) = (res, r)" "m = s\<lparr>ms_rt := r\<rparr>"
      "out = (case res of Some e \<Rightarrow> Inl (Inr e) | None \<Rightarrow> Inr (own, cfg))"
proof (cases "\<exists>own cfg. ms_cfg s = Some own \<and> run_config h own = Inr (Inr cfg) \<and> ms_configured s \<and> \<not> live (ms_rt s)")
  case True
  then obtain own cfg where c: "ms_cfg s = Some own" "run_config h own = Inr (Inr cfg)" "ms_configured s" "\<not> live (ms_rt s)"
    by blast
  obtain res r where b: "start_begin (h_dump h) (h_snapshot h) cfg (ms_rt s) = (res, r)" by fastforce
  show thesis
    by (rule begun [OF c(1,2) b]) (use assms b c in \<open>simp_all add: start_post_def split: option.splits\<close>)
next
  case False
  then have "\<exists>e. out = Inl e \<and> m = s"
    using assms by (auto simp: start_post_def split: if_splits option.splits sum.splits)
  then show thesis using refused by blast
qed

lemma start_begin_handed:
  assumes "start_begin dump snap cfg q = (res, r)" "handed dump q" "runnable cfg"
  shows "handed dump r"
  using assms(1)
proof (cases rule: start_begin_cases)
  case refused
  then show ?thesis using assms(3) by (simp add: handed_def start_reset_def setState_def emit_def Let_def)
next
  case (requested capacity)
  then show ?thesis using assms(3) by (simp add: handed_def start_reset_def setState_def emit_def Let_def)
qed (use assms(2) in simp)

lemma start_post_keeps:
  assumes "start_post h s = (out, m)" "module_keeps s" "host_of parse dump h" "rtm t = ms_rt s" "handed dump (ms_rt s)"
  shows "at_most_one parse dump t (ms_rt m) \<and> module_keeps m \<and> handed dump (ms_rt m)
    \<and> op_keeps (case out of Inl _ \<Rightarrow> NoOp | Inr (own, cfg) \<Rightarrow> StartWait own cfg)"
  using assms(1)
proof (cases rule: start_post_cases)
  case (refused e)
  then show ?thesis using assms by (simp add: at_most_one_def op_keeps_def)
next
  case (begun own cfg res r)
  have own: "valid_config own" using assms(2) begun(1) by (simp add: module_keeps_def)
  then have run: "runnable cfg" by (rule run_config_runnable [OF _ begun(2) assms(3)])
  have b: "start_begin dump (h_snapshot h) cfg (rtm t) = (res, r)"
    using begun(3) assms(3,4) by (simp add: host_of_def)
  have "0 < sint (maxInFlight cfg)" using run by (simp add: runnable_def valid_config_def valid_bounds_def)
  then have "sys_step parse dump t (StartCall (h_snapshot h) cfg) (t\<lparr>rtm := r\<rparr>)" by (rule start_call [OF _ b])
  moreover have "handed dump r" using start_begin_handed [OF b] assms(4,5) run by simp
  ultimately show ?thesis
    using assms(2) own run begun(4,5)
    by (auto simp: at_most_one_def module_keeps_def op_keeps_def split: option.split)
qed

lemma endpoint_post_cases:
  assumes "endpoint_post h cfg s = (res, goes, m)"
  obtains (failed) ref r where "stop_begin (ms_rt s) = (ref, r)" "m = s\<lparr>ms_http := None, ms_rt := r\<rparr>"
  | (opened) srv where "http_running srv" "m = s\<lparr>ms_http := Some srv\<rparr>"
proof -
  obtain o1 srv where h: "http_start (h_inet_pton h) (h_start_daemon h) (httpHost cfg) (word_of_int (sint (httpPort cfg)))
             (http_limit (ms_rt s)) new_http_server = (o1, srv)" by fastforce
  show thesis
  proof (cases o1)
    case None
    then have "http_running srv" using h by (auto simp: http_start_def http_running_def split: option.splits if_splits)
    then show thesis using assms h None by (intro opened) (auto simp: endpoint_post_def)
  next
    case (Some err)
    obtain ref r where "stop_begin (ms_rt s) = (ref, r)" by fastforce
    then show thesis using assms h Some by (intro failed) (auto simp: endpoint_post_def)
  qed
qed

lemma start_resume_keeps:
  assumes "start_resume h own cfg s = (res, goes, m)" "module_keeps s" "runnable cfg" "rtm t = ms_rt s"
  shows "(\<exists>q. at_most_one parse dump t q \<and> at_most_one parse dump (t\<lparr>rtm := q\<rparr>) (ms_rt m)) \<and> module_keeps m
    \<and> same_handed (ms_rt m) (ms_rt s)"
proof -
  obtain r q where e: "start_end (h_report h) (h_secs h) (ms_rt s) = (r, q)" by fastforce
  define s2 where "s2 = (if success r then s\<lparr>ms_rt := q, ms_beaconUrls := beaconApiUrls cfg\<rparr> else s\<lparr>ms_rt := q\<rparr>)"
  have s2: "module_keeps s2" "ms_rt s2 = q"
    using assms(2,3) by (auto simp: s2_def module_keeps_def runnable_def valid_config_def valid_backends_def)
  have "sys_step parse dump t (StartReturn (h_secs h)) (t\<lparr>rtm := q\<rparr>)"
    using e assms(4) by (intro start_return) simp
  then have one: "at_most_one parse dump t q" by (auto simp: at_most_one_def)
  have sq: "same_handed q (ms_rt s)" using start_end_state [OF e] by (auto simp: same_handed_def)
  have "start_resume h own cfg s = (if \<not> success r \<or> \<not> httpEnabled own then (r, False, s2) else endpoint_post h own s2)"
    by (simp add: start_resume_def e s2_def Let_def)
  then consider "m = s2" | "endpoint_post h own s2 = (res, goes, m)"
    using assms(1) by (simp split: if_splits)
  then show ?thesis
  proof cases
    case 1
    then show ?thesis using one s2 sq by (auto simp: at_most_one_def)
  next
    case 2
    have stay: "at_most_one parse dump (t\<lparr>rtm := q\<rparr>) q" by (simp add: at_most_one_def)
    from 2 show ?thesis
    proof (cases rule: endpoint_post_cases)
      case (failed ref r)
      then have "at_most_one parse dump (t\<lparr>rtm := q\<rparr>) r \<and> same_handed r q"
        using stop_begin_one [of q ref r "t\<lparr>rtm := q\<rparr>"] s2(2) by simp
      then show ?thesis using one sq s2 failed(2) by (auto simp: same_handed_def module_keeps_def)
    next
      case (opened srv)
      then show ?thesis using one stay sq s2 by (auto simp: module_keeps_def)
    qed
  qed
qed

lemma stop_post_keeps:
  assumes "stop_post s = (ref, m)" "module_keeps s" "rtm t = ms_rt s"
  shows "at_most_one parse dump t (ms_rt m) \<and> module_keeps m \<and> same_handed (ms_rt m) (ms_rt s)"
proof -
  obtain r where b: "stop_begin (ms_rt s) = (ref, r)" "m = s\<lparr>ms_http := None, ms_rt := r\<rparr>"
    using assms(1) by (auto simp: stop_post_def split: prod.splits)
  then show ?thesis using stop_begin_one [OF b(1) assms(3)] assms(2) by (simp add: module_keeps_def)
qed

lemma sys_of_simps [simp]:
  "rtm (sys_of d) = ms_rt (dp_module d)" "callers (sys_of d) = dp_callers d" "pc (sys_of d) = dp_pc d" "sys_of (with_sys t d) = t" "sys_of (d\<lparr>dp_op := op\<rparr>) = sys_of d"
  "dp_op (with_sys t d) = dp_op d" "ms_rt (dp_module (with_sys t d)) = rtm t"
  by (simp_all add: sys_of_def with_sys_def)

lemma module_keeps_rt: "module_keeps (s\<lparr>ms_rt := r\<rparr>) = module_keeps s"
  by (simp add: module_keeps_def)

lemma dep_step_ok:
  assumes "dep_ok parse dump d" "dep_step parse dump d e t"
  shows "dep_ok parse dump t"
proof -
  have d: "reach sys_init (sys_step parse dump) (sys_of d)" "module_keeps (dp_module d)" "op_keeps (dp_op d)"
      "handed dump (ms_rt (dp_module d))"
    using assms(1) by (simp_all add: dep_ok_def)
  note at = at_most_one_reach [OF d(1)]
  show ?thesis
    using assms(2)
  proof (cases rule: dep_step.cases)
    case (inside e t')
    have h: "handed dump (rtm t')"
      using handed_same [OF inside_handed [OF inside(4,3)]] d(4) by simp
    have "sys_of t = t'" "dp_op t = dp_op d" "dp_module t = (dp_module d)\<lparr>ms_rt := rtm t'\<rparr>"
      unfolding inside(2) by (simp, simp, simp add: with_sys_def)
    then show ?thesis
      using d h reach_step [OF d(1) inside(4)] by (simp add: dep_ok_def module_keeps_rt)
  next
    case (configures h config res m)
    have "sys_of t = sys_of d" "module_keeps (dp_module t)" "dp_op t = dp_op d" "ms_rt (dp_module t) = ms_rt (dp_module d)"
      using configure_keeps [OF configures(4) d(2)] configures(2) by (simp_all add: sys_of_def)
    then show ?thesis using d by (simp add: dep_ok_def)
  next
    case (ready h auto m)
    have "sys_of t = sys_of d" "module_keeps (dp_module t)" "dp_op t = dp_op d" "ms_rt (dp_module t) = ms_rt (dp_module d)"
      using ready_keeps [OF ready(4) d(2)] ready(2) by (simp_all add: sys_of_def)
    then show ?thesis using d by (simp add: dep_ok_def)
  next
    case (starts h out m)
    have "at_most_one parse dump (sys_of d) (ms_rt m) \<and> module_keeps m \<and> handed dump (ms_rt m)
        \<and> op_keeps (case out of Inl _ \<Rightarrow> NoOp | Inr (own, cfg) \<Rightarrow> StartWait own cfg)"
      by (rule start_post_keeps [OF starts(5) d(2) starts(4) _ d(4)]) simp
    then show ?thesis using at starts(2) by (simp add: dep_ok_def sys_of_module)
  next
    case (started own cfg h res goes m)
    have "runnable cfg" using d(3) started(3) by (simp add: op_keeps_def)
    then obtain q where q: "at_most_one parse dump (sys_of d) q" "at_most_one parse dump ((sys_of d)\<lparr>rtm := q\<rparr>) (ms_rt m)"
        "module_keeps m" "same_handed (ms_rt m) (ms_rt (dp_module d))"
      using start_resume_keeps [OF started(4) d(2), of "sys_of d" parse dump] by auto
    have "reach sys_init (sys_step parse dump) (sys_of t)"
      using at_most_one_reach [OF at [OF q(1)] q(2)] started(2) by (simp add: sys_of_module)
    then show ?thesis
      using q d(4) started(2) handed_same [OF q(4) d(4)] by (simp add: dep_ok_def op_keeps_def)
  next
    case (stops ref m)
    have "at_most_one parse dump (sys_of d) (ms_rt m) \<and> module_keeps m \<and> same_handed (ms_rt m) (ms_rt (dp_module d))"
      by (rule stop_post_keeps [OF stops(4) d(2)]) simp
    then show ?thesis using at stops(2) d(4) handed_same by (auto simp: dep_ok_def op_keeps_def sys_of_module)
  next
    case wait_over
    then show ?thesis using d by (simp add: dep_ok_def op_keeps_def)
  qed
qed

interpretation deployed: run_invariant dep_init "dep_step parse dump" "dep_ok parse dump" for parse dump
proof
  show "dep_init d \<Longrightarrow> dep_ok parse dump d" for d
    by (auto simp: dep_init_def dep_ok_def sys_of_def new_module_def module_keeps_def op_keeps_def handed_def
        new_runtime_def sys_init_def intro!: reach_init)
  show "dep_ok parse dump d \<Longrightarrow> dep_step parse dump d e t \<Longrightarrow> dep_ok parse dump t" for d e t
    by (rule dep_step_ok)
qed

section \<open>Properties\<close>


text \<open>A module on the table's first network, started over a beacon module with one enabled provider.\<close>

definition beacon_parse :: "string \<Rightarrow> string + json" where
  "beacon_parse t = Inr one_provider"

definition beacon_host :: "unit host" where
  "beacon_host = (sample_host beacon_parse None)\<lparr>h_dump := (\<lambda>_. []),
     h_bridge := bridge_urls beacon_parse \<lparr>bm_init_defaults = None, bm_get_config = \<lambda>_. (None, ''{}'')\<rparr>\<rparr>"

lemma beacon_host_config:
  "run_config beacon_host mainnet_config = Inr (Inr (mainnet_config\<lparr>beaconApiUrls := [''https://on.example'']\<rparr>))"
  by (simp add: run_config_def beacon_host_def mainnet_config_def minimal_config_def default_config_def sample_host_def
      bridge_urls_def parse_discard_def beacon_parse_def beaconUrlsFromModule_def one_provider_def urls_of_config_def
      jobj_def value_bool_def proxied_def value_json_def provider_url_def validateUrls_def schemeOk_def)

lemma beacon_host_begins:
  "\<exists>r. start_begin (\<lambda>_. []) \<lparr>softLimit = 4096, openCount = 16\<rparr>
       (mainnet_config\<lparr>beaconApiUrls := us\<rparr>) (new_runtime False) = (None, r) \<and> m_runRequested r \<and> \<not> m_shutdown r"
proof -
  have "fan_out_estimate (mainnet_config\<lparr>beaconApiUrls := us\<rparr>) = 12"
    by (simp add: mainnet_config_def minimal_config_def default_config_def fan_out_estimate_def)
  then show ?thesis
    by (simp add: start_begin_def Let_def endpoint_room start_reset_def new_runtime_def rt_defs)
qed

definition fresh_deployment :: "unit deployment" where
  "fresh_deployment = \<lparr>dp_module = new_module False None, dp_callers = [], dp_pc = Parked, dp_op = NoOp\<rparr>"

lemma sample_deployment:
  "\<exists>d :: unit deployment. reach dep_init (dep_step beacon_parse (\<lambda>_. [])) d \<and> dp_pc d = Prologue"
proof -
  let ?step = "dep_step beacon_parse (\<lambda>_. [])" and ?h = beacon_host
  define m1 where "m1 = (new_module False None :: unit module_state)
      \<lparr>ms_cfg := Some mainnet_config, ms_configured := True, ms_persisted := Some ''config''\<rparr>"
  have "configure ?h (minimal_json ''mainnet'' zero_root) (new_module False None) = (Inr (ok_result JNull), m1)"
    by (simp add: configure_def fromJson_mainnet persist_def beacon_host_def sample_host_def new_module_def
        running_def new_runtime_def m1_def mainnet_config_def)
  then have s1: "?step fresh_deployment (Configures ?h (minimal_json ''mainnet'' zero_root)) (fresh_deployment\<lparr>dp_module := m1\<rparr>)"
    by (intro configures) (simp_all add: fresh_deployment_def)
  define cfg where "cfg = mainnet_config\<lparr>beaconApiUrls := [''https://on.example'']\<rparr>"
  obtain r where r: "start_begin (\<lambda>_. []) \<lparr>softLimit = 4096, openCount = 16\<rparr> cfg (new_runtime False) = (None, r)"
      "m_runRequested r" "\<not> m_shutdown r"
    using beacon_host_begins unfolding cfg_def by blast
  have "\<not> live (new_runtime False)" by (simp add: live_def new_runtime_def)
  then have "start_post ?h m1 = (Inr (mainnet_config, cfg), m1\<lparr>ms_rt := r\<rparr>)"
    using r(1) beacon_host_config
    by (simp add: start_post_def m1_def new_module_def cfg_def) (simp add: beacon_host_def sample_host_def)
  moreover have "host_of beacon_parse (\<lambda>_. []) ?h" by (auto simp: host_of_def beacon_host_def)
  ultimately have s2: "?step (fresh_deployment\<lparr>dp_module := m1\<rparr>) (Starts ?h)
      (fresh_deployment\<lparr>dp_module := m1\<lparr>ms_rt := r\<rparr>, dp_op := StartWait mainnet_config cfg\<rparr>)"
    using starts [of "fresh_deployment\<lparr>dp_module := m1\<rparr>" beacon_parse "\<lambda>_. []" ?h] by (simp add: fresh_deployment_def)
  let ?d = "fresh_deployment\<lparr>dp_module := m1\<lparr>ms_rt := r\<rparr>, dp_op := StartWait mainnet_config cfg\<rparr>"
  obtain t where t: "sys_step beacon_parse (\<lambda>_. []) (sys_of ?d) Wake t" "pc t = Prologue"
    using wake [of "sys_of ?d" True _ beacon_parse "\<lambda>_. []"] r(2,3)
    by (simp add: fresh_deployment_def thread_wakes_def thread_wake_def)
  have s3: "?step ?d (Inside Wake) (with_sys t ?d)" by (rule inside) (simp, rule t(1))
  have pc3: "dp_pc (with_sys t ?d) = Prologue" using t(2) by (simp add: with_sys_def)
  have "dep_init fresh_deployment" by (auto simp: dep_init_def fresh_deployment_def)
  then have "reach dep_init ?step fresh_deployment" by (rule reach_init)
  from this s1 have "reach dep_init ?step (fresh_deployment\<lparr>dp_module := m1\<rparr>)" by (rule reach_step)
  from this s2 have "reach dep_init ?step ?d" by (rule reach_step)
  from this s3 have "reach dep_init ?step (with_sys t ?d)" by (rule reach_step)
  then show ?thesis using pc3 by (intro exI [of _ "with_sys t ?d"] conjI)
qed


text \<open>
  C9: The library is only ever started on a configuration that was validated. Whenever the proxy
  thread is at or inside a run, or a caller is inside a call, the document the run was given is the
  library's view of a configuration whose network and log level are whitelisted (any other value
  ends the host process), whose root of trust is well formed, and which has execution and beacon
  URLs, each with an accepted scheme and no comma; also when the beacon URLs come from the
  beacon module. The module's own configuration, while it has one, is valid too.
\<close>

theorem library_started_on_valid_config:
  assumes "reach dep_init (dep_step parse dump) d"
    "dp_pc d \<in> {Prologue, Pump, Drain, Freed} \<or> (\<exists>k \<in> set (dp_callers d). k \<noteq> Outside)"
  shows "\<exists>c. m_upstreamJson (ms_rt (dp_module d)) = toUpstreamJson dump c
    \<and> m_cfg (ms_rt (dp_module d)) = c
    \<and> network c \<in> set kNetworks \<and> logLevel c \<in> set kLogLevels \<and> root_ok (trustedBlockRoot c)
    \<and> executionApiUrls c \<noteq> [] \<and> beaconApiUrls c \<noteq> []
    \<and> (\<forall>u \<in> set (executionApiUrls c @ beaconApiUrls c @ opExecutionApiUrls c @ privateTxUrls c @ archiveUrls c).
          schemeOk u \<and> CHR '','' \<notin> set u)
    \<and> (case ms_cfg (dp_module d) of Some own \<Rightarrow> valid_config own | None \<Rightarrow> \<not> ms_configured (dp_module d))"
proof -
  have d: "dep_ok parse dump d" by (rule deployed.reach_inv [OF assms(1)])
  then have "first_run (sys_of d)" using accounting.reach_inv by (auto simp: dep_ok_def)
  then have "m_admissionEpoch (ms_rt (dp_module d)) \<noteq> 0"
    using assms(2) by (auto simp: first_run_def sys_of_def)
  then have r: "runnable (m_cfg (ms_rt (dp_module d)))"
      "m_upstreamJson (ms_rt (dp_module d)) = toUpstreamJson dump (m_cfg (ms_rt (dp_module d)))"
    using d by (simp_all add: dep_ok_def handed_def)
  let ?c = "m_cfg (ms_rt (dp_module d))"
  have "list_all good_url (executionApiUrls ?c @ beaconApiUrls ?c @ opExecutionApiUrls ?c @ privateTxUrls ?c @ archiveUrls ?c)"
    using r(1) by (simp add: runnable_def valid_config_def valid_backends_def)
  then have u: "\<forall>u \<in> set (executionApiUrls ?c @ beaconApiUrls ?c @ opExecutionApiUrls ?c @ privateTxUrls ?c @ archiveUrls ?c).
      schemeOk u \<and> CHR '','' \<notin> set u"
    unfolding list_all_iff good_url_def .
  have "case ms_cfg (dp_module d) of Some own \<Rightarrow> valid_config own | None \<Rightarrow> \<not> ms_configured (dp_module d)"
    using d by (simp add: dep_ok_def module_keeps_def split: option.split)
  then show ?thesis
    using r u by (intro exI [of _ ?c]) (simp add: runnable_def valid_config_def valid_identity_def valid_backends_def)
qed

theorem library_started_on_valid_config_witness:
  "\<exists>(d :: unit deployment) c. dp_pc d = Prologue \<and> m_upstreamJson (ms_rt (dp_module d)) = toUpstreamJson (\<lambda>_. []) c
     \<and> network c \<in> set kNetworks \<and> beaconApiUrls c \<noteq> []"
proof -
  obtain d :: "unit deployment" where "reach dep_init (dep_step beacon_parse (\<lambda>_. [])) d" "dp_pc d = Prologue"
    using sample_deployment by blast
  from library_started_on_valid_config [OF this(1)] this(2) show ?thesis by (auto intro!: exI [of _ d])
qed

end
