(* ===== verification/Defects.thy ===== *)
theory Defects
  imports Module_Properties Runtime_Ledger Redaction_Properties
begin

text \<open>
  Behaviour of the code that is not what its comments or its purpose say, where no theorem of the
  other parts shows it: each is a concrete run or input, or all inputs of a kind.
\<close>

section \<open>Requests and configuration\<close>

text \<open>A request that is not an object is never answered, although an error is built for it.\<close>

theorem non_object_unanswered:
  "\<not> is_object req \<Longrightarrow> handleOne dispatch req s = (Inr None, s)"
  by (cases req) (simp_all add: handleOne_def is_notification_def)

text \<open>What follows the first at sign of a URL is shown: the rest of a password, or of a path.\<close>

theorem at_sign_discloses:
  "redactUrl ''https://user:pa@ss@node.example/'' = ''https://ss@node.example/<redacted>''
    \<and> redactUrl ''https://node.example/v2/a@key'' = ''https://key''"
  by code_simp

text \<open>A proxy that is Degraded takes calls, and it is reconfigured all the same.\<close>

theorem degraded_is_reconfigured:
  assumes "m_state (ms_rt s) = Degraded" "fromJson config = Inr cfg"
  shows "live (ms_rt s) \<and> ms_cfg (snd (configure h config s)) = Some cfg"
  using assms by (auto simp: configure_def running_def live_def persist_def split: sum.splits prod.splits)

text \<open>An answer of the beacon module with a flag of another type is an exception, not an error.\<close>

theorem mistyped_answer_throws:
  "beaconUrlsFromModule (Some (JObj [(''ok'', JStr ''yes'')])) = Inl TypeError"
  by code_simp

text \<open>
  A field given as null is a field the caller gave, when the endpoints of the network are filled in, and
  one that is absent, when it is read: the same configuration without the field is accepted.
\<close>

theorem null_is_not_absent:
  "fromJson (JObj [(''beaconApiUrls'', JNull), (''network'', JStr ''mainnet''), (''trustedBlockRoot'', JStr zero_root)]) =
     Inl (quoted ''beaconApiUrls'' @ '' is required and must contain at least one URL'')
    \<and> map_res beaconSource (fromJson (JObj [(''network'', JStr ''mainnet''), (''trustedBlockRoot'', JStr zero_root)])) =
        Inr ''module''"
  by code_simp

text \<open>An unsigned number above the signed range is taken for a negative one.\<close>

theorem unsigned_wraps:
  "map_res (\<lambda>c. sint (maxBlockWalk c))
     (fromJson (JObj [(''network'', JStr ''mainnet''), (''trustedBlockRoot'', JStr zero_root),
        (''tuning'', JObj [(''maxBlockWalk'', JUInt (2 ^ 63))])])) = Inr (- (2 ^ 63))"
  by code_simp

section \<open>Runs\<close>

text \<open>A second stop fails.\<close>

theorem second_stop_fails:
  "stop_op report until (teardown_done (teardown_free r)) =
     (fail_result ''proxy is not running'', teardown_done (teardown_free r))"
  by (simp add: stop_op_def stop_begin_def teardown_done_def teardown_free_def setState_def emit_def Let_def)

text \<open>The counter of leaked boxes counts a command that was never given a box.\<close>

definition leak_view :: "sys \<Rightarrow> int \<times> nat list" where
  "leak_view s = (m_leaked (rtm s), m_leakedBoxes (rtm s))"

lemma leak_run_view:
  "map_option leak_view (run_events no_parse no_dump (first_sync @ one_call 0 @ [LeavePump, Free]) (fresh 1)) = Some (1, [])"
  by code_simp

theorem queued_command_counts_as_leak:
  "\<exists>s. reach sys_init (sys_step no_parse no_dump) s \<and> m_leaked (rtm s) = 1 \<and> m_leakedBoxes (rtm s) = []"
  using run_view [OF leak_run_view] by (auto simp: leak_view_def)

text \<open>
  A run that ends without a stop leaves the stop flag clear: a caller queues its command after the
  teardown, nobody is there to answer it, and the next run hands it to the library.
\<close>

definition late_call :: "event list" where
  "late_call = first_sync @ [Check 0 ''eth_blockNumber'' (JArr []), Enter 0 roomy 0, LeavePump, Free, Enqueue 0, Done]"

definition late_call_view :: "sys \<Rightarrow> thread_pc \<times> caller list \<times> nat list \<times> nat list" where
  "late_call_view s = (pc s, callers s, m_queue (rtm s), m_boxes (rtm s))"

lemma late_call_ends:
  "map_option late_call_view (run_events no_parse no_dump late_call (fresh 1)) = Some (Parked, [OnSlot 2], [2], [])"
  "map_option late_call_view (run_events no_parse no_dump
     (late_call @ [StartCall roomy default_config, Wake, StartSucceeds 0 None, Dispatch None]) (fresh 1)) =
     Some (Pump, [OnSlot 2], [], [2])"
  by code_simp+

theorem call_left_to_the_next_run:
  "(\<exists>s. reach sys_init (sys_step no_parse no_dump) s \<and> pc s = Parked \<and> callers s = [OnSlot 2] \<and> m_queue (rtm s) = [2])
    \<and> (\<exists>s. reach sys_init (sys_step no_parse no_dump) s \<and> pc s = Pump \<and> callers s = [OnSlot 2] \<and> m_boxes (rtm s) = [2])"
  using run_view [OF late_call_ends(1)] run_view [OF late_call_ends(2)] by (auto simp: late_call_view_def)

end
