(* ===== verification/Spec2Isabelle.thy ===== *)
theory Spec2Isabelle
  imports Config_Properties Redaction_Properties Beacon_Sources Resource_Budget Payload
    Runtime_Properties Runtime_Operations Runtime_Ledger Runtime_Shutdown Rpc_Wrappers Module_Properties
    Runtime_Transitions Runtime_Exceptions Runtime_Interleaved Rpc_Table View_Types Module_System Defects
begin

text \<open>
  The verified-proxy module: a host plugin that answers Ethereum JSON-RPC calls through a light
  client library, \<^verbatim>\<open>libverifproxy\<close>, which checks every answer. The code under \<^verbatim>\<open>src/\<close> is the
  module around that library, and this development is about that code: what configuration it takes
  and shows, how it shares the library between many callers on one thread, how it bounds them by
  the descriptors of the process, how it reports its health, and how it frames calls over HTTP.

  \<^bold>\<open>Parts and theories.\<close> In the order of the imports, with the files they model.

  \<^item> \<^verbatim>\<open>Proxy_Prelude\<close>, \<^verbatim>\<open>Json_Value\<close>: fixed-width integers, searching in strings, decimal and
    hex digits; the JSON values of the C++ library, objects as association lists with their keys
    in order, an exception of a typed read as \<open>exn\<close>, and the result type of the calls.
  \<^item> \<^verbatim>\<open>Network_Table\<close>, \<^verbatim>\<open>Config_Readers\<close>, \<^verbatim>\<open>Proxy_Config\<close> (\<^verbatim>\<open>proxy_config.h\<close>, \<^verbatim>\<open>proxy_config.cpp\<close>):
    the table of networks, the readers of one field, and \<^verbatim>\<open>ProxyConfig::fromJson\<close> as the sequence of
    its guarded assignments, each an \<open>error + config\<close>; the three JSON views. \<^verbatim>\<open>Config_Facts\<close>,
    \<^verbatim>\<open>Config_Properties\<close> and \<^verbatim>\<open>Redaction_Properties\<close> show what an accepted configuration satisfies,
    that its persisted view gives it back, what the library is handed, that a rejection names its
    field, and what the redacted views hide.
  \<^item> \<^verbatim>\<open>Beacon_Sources\<close> (\<^verbatim>\<open>beaconUrlsFromModule\<close>, \<^verbatim>\<open>beacon_bridge_module.cpp\<close>, \<^verbatim>\<open>beacon_client.cpp\<close>,
    \<^verbatim>\<open>fetchFinalizedRoot\<close>): where beacon URLs and a root of trust come from.
  \<^item> \<^verbatim>\<open>Resource_Budget\<close> (\<^verbatim>\<open>resource_budget.cpp\<close>): the descriptor budget and the capacity it gives.
  \<^item> \<^verbatim>\<open>Payload\<close>: decoding what the library calls back with, and hex quantities.
  \<^item> \<^verbatim>\<open>Runtime_State\<close>, \<^verbatim>\<open>Runtime_Admission\<close>, \<^verbatim>\<open>Runtime_Calls\<close>, \<^verbatim>\<open>Runtime_Health\<close>, \<^verbatim>\<open>Runtime_Pump\<close>,
    \<^verbatim>\<open>Runtime_Lifecycle\<close> (\<^verbatim>\<open>proxy_runtime.h\<close>, \<^verbatim>\<open>proxy_runtime.cpp\<close>): the runtime. Its members are one
    record, extended theory by theory (\<open>rt_core\<close>, \<open>rt_admission\<close>, \<open>rt_calls\<close>, \<open>rt_health\<close>, \<open>rt_pump\<close>,
    \<open>rt\<close>), and each member function is a function on it under its own name. A function that
    blocks is split where it waits: \<^verbatim>\<open>waitForAdmission\<close> into \<open>admission_enter\<close> and \<open>admission_poll\<close>,
    \<^verbatim>\<open>call\<close> into \<open>call_precheck\<close>, the admission, \<open>call_enqueue\<close> and \<open>call_finish\<close>, \<^verbatim>\<open>start\<close> and \<^verbatim>\<open>stop\<close>
    into what they post and what they read when their wait ends. The functions without the split
    (\<open>waitForAdmission\<close>, \<open>call_op\<close>, \<open>start_op\<close>, \<open>stop_op\<close>, \<open>runOnce\<close>, \<open>teardown\<close>) put the pieces
    together again for one thread, with what the others do in between as an argument.
  \<^item> \<^verbatim>\<open>Runtime_System\<close>: the runtime as a concurrent system, the inductive relation \<open>sys_step\<close> over a
    runtime, a list of callers and the place of the proxy thread. A step is one of the pieces above,
    executed as a whole; between two steps any thread may run. For an admission turn, the queueing of
    a command and a callback the locks of the code give that; a start and the end of a teardown are
    several locked sections in the code, and of the points between them only the one where the
    run is no longer active and not yet reported as finished is a state of its own.
    \<^verbatim>\<open>Runtime_Start\<close> has a start in its locked sections. \<^verbatim>\<open>Runtime_Interleaved\<close> takes it apart to
    the single write, with the exchange of the state and its event as two, and interleaves any number
    of threads inside a start with everything else: \<open>fine_step\<close>, and \<open>lone_step\<close> where starts do not
    overlap. \<^verbatim>\<open>Runtime_Trace\<close> executes a list of events, for the concrete runs of the witnesses.
  \<^item> \<^verbatim>\<open>Runtime_Exceptions\<close>: the operations of the runtime that emit an event, with a printer that
    may throw. With one that never does they are the operations above.
  \<^item> \<^verbatim>\<open>Rpc_Http\<close> (\<^verbatim>\<open>rpc_http_server.h\<close>, \<^verbatim>\<open>rpc_http_server.cpp\<close>): the framing of requests and batches,
    the body callback, and the life of the listener
    (\<^verbatim>\<open>Rpc_Properties\<close> shows what holds of them). \<^verbatim>\<open>Rpc_Wrappers\<close> (\<^verbatim>\<open>verified_proxy_rpc.cpp\<close>): the
    method and parameters each of the sixty typed calls sends; \<^verbatim>\<open>Rpc_Table\<close> is the table they are
    generated from, with what the generator makes of a row (\<^verbatim>\<open>rpc_methods.json\<close>,
    \<^verbatim>\<open>gen_rpc_methods.py\<close>).
  \<^item> \<^verbatim>\<open>Module_Impl\<close> (\<^verbatim>\<open>verified_proxy_impl.h\<close>, \<^verbatim>\<open>verified_proxy_impl.cpp\<close>): configuration and its
    persistence, the start and stop of runtime and endpoint together, the status, and the path of a
    verified call. \<^verbatim>\<open>Module_Properties\<close> holds what is shown of it. \<^verbatim>\<open>Module_System\<close> puts the
    module, the callers and the proxy thread of its runtime together: the module's blocking
    operations are cut where they wait (\<open>start_post\<close>, \<open>start_resume\<close>, \<open>stop_post\<close>), and \<open>dep_step\<close> lets the
    threads run in between.

  \<^bold>\<open>How the parts interact.\<close> The module owns a configuration, a runtime and, while it runs with an
  endpoint, a listener. Callers and the listener's threads enter \<^verbatim>\<open>call\<close>; the admission lets
  them in one by one; the proxy thread takes their commands off the queue and is the only one that
  enters the library; the library calls back on that thread, which finishes the slot the caller
  waits on. The interfaces are locales: \<open>field_reader\<close> for what the configuration parser needs of the
  readers, \<open>beacon_bridge\<close> for what the module needs of the beacon module, \<open>run_invariant\<close> for an
  invariant of a step relation, and \<open>rpc_backend\<close> for what the endpoint needs of a verified call. Each
  is interpreted on the model's own operations.

  \<^bold>\<open>What is shown.\<close>

  \<^item> Refinement (\<^verbatim>\<open>Runtime_Ledger\<close>): the concurrent runtime refines a ledger that only grows: ids
    are handed out once, an answer is given once.
  \<^item> Invariants of the concurrent system (\<^verbatim>\<open>Runtime_Invariants\<close>, \<^verbatim>\<open>Runtime_Health_Invariant\<close>,
    \<^verbatim>\<open>Runtime_Reachable\<close>, \<^verbatim>\<open>Runtime_Budget\<close>, \<^verbatim>\<open>Runtime_Queue\<close>, collected in \<^verbatim>\<open>Runtime_Properties\<close>), by rule
    induction over all reachable states: no caller is lost, the counters count what they name, the
    reservations stay within the ceiling, the admission queue is its waiters, the health is the
    streaks of failures, and the teardown releases everybody. \<^verbatim>\<open>Runtime_Shutdown\<close> models the
    destructor and shows that a thread that is asked to leave can always do so and is joined.
  \<^item> Single operations (\<^verbatim>\<open>Runtime_Operations\<close>, \<^verbatim>\<open>Admission_Properties\<close>): first in, first out, bounds
    by descriptors, the end of every wait, the order of commands, the answer a caller reads.
  \<^item> What the host sees (\<^verbatim>\<open>Json_Types\<close>, \<^verbatim>\<open>Runtime_Events\<close>, \<^verbatim>\<open>Runtime_Transitions\<close>,
    \<^verbatim>\<open>View_Types\<close>): types of JSON values with an executable check; every event and every view has
    its type, the events told so far always spell out the current state, and the state only moves
    along a fixed table of transitions.
  \<^item> Starts that are not atomic (\<^verbatim>\<open>Runtime_Interleaved\<close>): however many overlap, no caller is lost and
    no answer is given twice; a start on its own may be interrupted anywhere and is as good as one
    step for the calls and the health, but not for the ceiling; overlapping ones break the counters,
    the order of the events, and can end the process.
  \<^item> Composition (\<^verbatim>\<open>Module_System\<close>): every state a deployment reaches has a runtime the concurrent
    system reaches too, so the invariants hold inside the module, and the library is only ever
    started with the document of a configuration the parser accepted.
  \<^item> The endpoint and the module: responses in order and well-framed, independence of the cuts of a
    body, one path for typed and HTTP calls, persistence, start with an endpoint, status.
  \<^item> Behaviour of the code that is not what its comments or its purpose say is stated as a theorem
    too: a restart during a teardown, two starts that overlap, events out of order, a caller that crosses into the next
    run, reservations lost to parameters that cannot be printed, a heartbeat that stays in flight for
    ever because its error cannot be printed, a persisted configuration that is overwritten.
    \<^verbatim>\<open>Defects\<close> has those no other theory shows, each on a concrete run or input.

  \<^bold>\<open>Bounds and loops.\<close> Integers that the code keeps in 64 bits and does arithmetic on from the
  configuration or the operating system are words (\<open>i64\<close>); theorems on them name the range in which
  nothing wraps. Counters that only count events are integers, as are clocks. \<^verbatim>\<open>drainCommands\<close>
  terminates by the length of the queue. A loop that waits takes the list of its wake-ups or turns
  as an argument, and its result says when the list was too short (\<open>Waiting\<close>, \<^term>\<open>None\<close>);
  \<^verbatim>\<open>admission_wait_ends\<close> and \<^verbatim>\<open>calls_return\<close> show that a list that reaches the deadline is long enough.

  \<^bold>\<open>What stands outside.\<close> Arguments of the definitions stand for the JSON parser and printer, the
  clocks, the answers of the operating system, \<^verbatim>\<open>libverifproxy\<close> (whether its start succeeds, what it
  calls back and when), \<^verbatim>\<open>libmicrohttpd\<close>, \<^verbatim>\<open>libcurl\<close>, the beacon module, and the files and the
  environment of the host.

  \<^bold>\<open>Not modelled.\<close> The options \<^verbatim>\<open>beacon_client::httpGet\<close> sets, the headers \<^verbatim>\<open>sendResponse\<close> adds, the
  Windows branches and the wake-up signals of the condition variables, which only decide how soon a
  thread looks again. The memory of a slot is not modelled, its owners are: a weak reference has
  expired when the slot has none. The concurrent system keeps an event as its JSON value and prints
  everything: that printing may throw, on text of the library that is not UTF-8, is in
  \<^verbatim>\<open>Runtime_Exceptions\<close> for events and in \<open>call_op\<close> for the parameters of a call, one thread at a time.
  A start in the concurrent system is one step with a positive \<^verbatim>\<open>maxInFlight\<close>, as every accepted
  configuration has; it is apart in \<^verbatim>\<open>Runtime_Interleaved\<close>, while the other operations, their changes of
  the state with their events among them, stay single steps there too. The life-cycle operations of
  the module are taken one after the other in \<^verbatim>\<open>Module_System\<close>. How the host delivers an event is not
  modelled, nor how the generator lays out the C++ text of a wrapper and its help line. Tests and
  build files are left out.
\<close>

end
